theory Spec2Isabelle
  imports Main "HOL-Library.Word"
begin

unbundle bit_operations_syntax

section \<open>Outcomes of a call\<close>

text \<open>
  A C++ call either returns, leaves by an exception, or ends the process (a failed
  \<^verbatim>\<open>assert\<close> calls \<^verbatim>\<open>abort\<close>, which no handler sees). Every stateful function of the
  model takes the state and gives back the outcome together with the new state.
\<close>

datatype ('e, 'r) outcome = Returned 'r | Thrown 'e | Aborted

text \<open>
  The exceptions of RTF.h. \<open>StdException\<close> is any exception derived from
  \<^verbatim>\<open>std::exception\<close> that a target may throw (with its \<^verbatim>\<open>what()\<close> text);
  \<open>ForeignException\<close> is a thrown object that is not derived from \<^verbatim>\<open>std::exception\<close>
  (C++ lets a target throw any type).

  The three verify/poll exceptions derive from \<^verbatim>\<open>std::runtime_error\<close> and have no members
  of their own: the constructor takes \<^verbatim>\<open>(expected, mask, full_actual)\<close> and keeps nothing
  but the text
  \<^verbatim>\<open>std::format("... Expected:0x{:0{}x} Got:0x{:0{}x} (0x{:0{}x})", expected, ..., full_actual & mask, ..., full_actual, ...)\<close>.
  So an exception object is the three numbers its text prints: the expected value it was
  given, \<^verbatim>\<open>full_actual & mask\<close>, and \<^verbatim>\<open>full_actual\<close>. The mask is not among them.
\<close>

datatype 'd exn =
    StdException string
  | ForeignException
  | WriteVerifyFailureException 'd 'd 'd
  | ReadVerifyFailureException 'd 'd 'd
  | PollReadTimeoutException 'd 'd 'd

text \<open>The constructors of the three classes, from \<^verbatim>\<open>(expected, mask, full_actual)\<close>.\<close>

definition new_WriteVerifyFailureException :: "'d::len word \<Rightarrow> 'd word \<Rightarrow> 'd word \<Rightarrow> 'd word exn" where
  "new_WriteVerifyFailureException expected msk full_actual =
     WriteVerifyFailureException expected (full_actual AND msk) full_actual"

definition new_ReadVerifyFailureException :: "'d::len word \<Rightarrow> 'd word \<Rightarrow> 'd word \<Rightarrow> 'd word exn" where
  "new_ReadVerifyFailureException expected msk full_actual =
     ReadVerifyFailureException expected (full_actual AND msk) full_actual"

definition new_PollReadTimeoutException :: "'d::len word \<Rightarrow> 'd word \<Rightarrow> 'd word \<Rightarrow> 'd word exn" where
  "new_PollReadTimeoutException expected msk full_actual =
     PollReadTimeoutException expected (full_actual AND msk) full_actual"

fun is_std_exception :: "'d exn \<Rightarrow> bool" where
  "is_std_exception ForeignException = False"
| "is_std_exception (StdException m) = True"
| "is_std_exception (WriteVerifyFailureException e g a) = True"
| "is_std_exception (ReadVerifyFailureException e g a) = True"
| "is_std_exception (PollReadTimeoutException e g a) = True"

text \<open>
  Texts built by \<^verbatim>\<open>std::format\<close> are kept as the format string with its arguments;
  the field widths (\<^verbatim>\<open>sizeof(T) * 2\<close>) are fixed by the argument's type and left out.
  A duration in microseconds is a signed 64-bit count.
\<close>

datatype ('a, 'd) fmt_arg = Addr 'a | Data 'd | Size nat | Text string | Micros "64 word"

datatype ('a, 'd) message = Literal string | Format string "('a, 'd) fmt_arg list"

fun what :: "'d exn \<Rightarrow> ('a, 'd) message" where
  "what (StdException m) = Literal m"
| "what ForeignException = Literal []"
| "what (WriteVerifyFailureException expected got full_actual) =
     Format ''WriteVerify mismatch! Expected:0x{:0{}x} Got:0x{:0{}x} (0x{:0{}x})''
       [Data expected, Data got, Data full_actual]"
| "what (ReadVerifyFailureException expected got full_actual) =
     Format ''ReadVerify mismatch! Expected:0x{:0{}x} Got:0x{:0{}x} (0x{:0{}x})''
       [Data expected, Data got, Data full_actual]"
| "what (PollReadTimeoutException expected got full_actual) =
     Format ''PollRead timeout! Expected:0x{:0{}x} Got:0x{:0{}x} (0x{:0{}x})''
       [Data expected, Data got, Data full_actual]"

section \<open>chunkify\<close>

text \<open>
  \<^verbatim>\<open>
  void chunkify(std::span<T> buffer, size_t max_chunk_size, FnType fn)
  {
      for (size_t pos = 0 ; pos < buffer.size() ; ){
          auto const chunk_size = std::min(max_chunk_size, buffer.size() - pos);
          auto const chunk = buffer.subspan(pos, chunk_size);
          fn(chunk, pos);
          pos += chunk_size;
      }
  }
  \<close>
  The callback is any callable: it works on a state of its own and may leave by an
  exception, which ends the loop. The loop need not end, so it is a partial function:
  \<open>None\<close> is "never returns".
\<close>

partial_function (option) chunkify_loop ::
  "'a list \<Rightarrow> nat \<Rightarrow> ('a list \<Rightarrow> nat \<Rightarrow> 's \<Rightarrow> ('e, unit) outcome \<times> 's) \<Rightarrow> nat \<Rightarrow> 's
     \<Rightarrow> (('e, unit) outcome \<times> 's) option" where
  "chunkify_loop buffer max_chunk_size fn pos s =
     (if pos < length buffer then
        (let chunk_size = min max_chunk_size (length buffer - pos);
             chunk = take chunk_size (drop pos buffer)
         in case fn chunk pos s of
              (Returned u, s') \<Rightarrow> chunkify_loop buffer max_chunk_size fn (pos + chunk_size) s'
            | (Thrown e, s') \<Rightarrow> Some (Thrown e, s')
            | (Aborted, s') \<Rightarrow> Some (Aborted, s'))
      else Some (Returned (), s))"

definition chunkify ::
  "'a list \<Rightarrow> nat \<Rightarrow> ('a list \<Rightarrow> nat \<Rightarrow> 's \<Rightarrow> ('e, unit) outcome \<times> 's) \<Rightarrow> 's
     \<Rightarrow> (('e, unit) outcome \<times> 's) option" where
  "chunkify buffer max_chunk_size fn s = chunkify_loop buffer max_chunk_size fn 0 s"

text \<open>
  Two yardsticks for the claims about chunkify (not part of the source): calling a
  callback on a given list of (chunk, offset) pairs in order, stopping at the first call
  that does not return; and a callback that only records what it is given.
\<close>

fun call_each ::
  "('a list \<Rightarrow> nat \<Rightarrow> 's \<Rightarrow> ('e, unit) outcome \<times> 's) \<Rightarrow> ('a list \<times> nat) list \<Rightarrow> 's
     \<Rightarrow> ('e, unit) outcome \<times> 's" where
  "call_each fn [] s = (Returned (), s)"
| "call_each fn ((chunk, pos) # rest) s =
     (case fn chunk pos s of
        (Returned u, s') \<Rightarrow> call_each fn rest s'
      | (Thrown e, s') \<Rightarrow> (Thrown e, s')
      | (Aborted, s') \<Rightarrow> (Aborted, s'))"

definition record_chunk ::
  "'a list \<Rightarrow> nat \<Rightarrow> ('a list \<times> nat) list \<Rightarrow> (unit, unit) outcome \<times> ('a list \<times> nat) list" where
  "record_chunk chunk pos seen = (Returned (), seen @ [(chunk, pos)])"

definition chunk_list :: "'a list \<Rightarrow> nat \<Rightarrow> ('a list \<times> nat) list" where
  "chunk_list buffer m =
     map (\<lambda>i. (take m (drop (i * m) buffer), i * m)) [0..<(length buffer + m - 1) div m]"

section \<open>IRegisterTarget\<close>

type_synonym size_t = "64 word"

record ('s, 'a, 'd) IRegisterTarget =
  getName :: string
  getDomain :: string
  write' :: "'a \<Rightarrow> 'd \<Rightarrow> 's \<Rightarrow> ('d exn, unit) outcome \<times> 's"
  read :: "'a \<Rightarrow> 's \<Rightarrow> ('d exn, 'd) outcome \<times> 's"
  readModifyWrite :: "'a \<Rightarrow> 'd \<Rightarrow> 'd \<Rightarrow> 's \<Rightarrow> ('d exn, unit) outcome \<times> 's"
  seqWrite :: "'a \<Rightarrow> 'd list \<Rightarrow> size_t \<Rightarrow> 's \<Rightarrow> ('d exn, unit) outcome \<times> 's"
  seqRead :: "'a \<Rightarrow> 'd list \<Rightarrow> size_t \<Rightarrow> 's \<Rightarrow> ('d exn, unit) outcome \<times> 'd list \<times> 's"
  fifoWrite :: "'a \<Rightarrow> 'd list \<Rightarrow> 's \<Rightarrow> ('d exn, unit) outcome \<times> 's"
  fifoRead :: "'a \<Rightarrow> 'd list \<Rightarrow> 's \<Rightarrow> ('d exn, unit) outcome \<times> 'd list \<times> 's"
  compWrite :: "('a \<times> 'd) list \<Rightarrow> 's \<Rightarrow> ('d exn, unit) outcome \<times> 's"
  compRead :: "'a list \<Rightarrow> 'd list \<Rightarrow> 's \<Rightarrow> ('d exn, unit) outcome \<times> 'd list \<times> 's"

definition IRegisterTarget_readModifyWrite ::
  "('s, 'a, 'd::len word) IRegisterTarget \<Rightarrow> 'a \<Rightarrow> 'd word \<Rightarrow> 'd word \<Rightarrow> 's
     \<Rightarrow> ('d word exn, unit) outcome \<times> 's" where
  "IRegisterTarget_readModifyWrite T addr new_data msk s =
     (case read T addr s of
        (Returned v, s1) \<Rightarrow> write' T addr ((v AND NOT msk) OR (new_data AND msk)) s1
      | (Thrown e, s1) \<Rightarrow> (Thrown e, s1)
      | (Aborted, s1) \<Rightarrow> (Aborted, s1))"

definition seq_address :: "'a::len word \<Rightarrow> size_t \<Rightarrow> nat \<Rightarrow> 'a word" where
  "seq_address start_addr increment i = ucast ((ucast start_addr :: size_t) + increment * of_nat i)"

function IRegisterTarget_seqWrite_loop ::
  "('s, 'a::len word, 'd) IRegisterTarget \<Rightarrow> 'a word \<Rightarrow> 'd list \<Rightarrow> size_t \<Rightarrow> nat \<Rightarrow> 's
     \<Rightarrow> ('d exn, unit) outcome \<times> 's" where
  "IRegisterTarget_seqWrite_loop T start_addr data increment i s =
     (if i < length data then
        (case write' T (seq_address start_addr increment i) (data ! i) s of
           (Returned u, s1) \<Rightarrow> IRegisterTarget_seqWrite_loop T start_addr data increment (i + 1) s1
         | (Thrown e, s1) \<Rightarrow> (Thrown e, s1)
         | (Aborted, s1) \<Rightarrow> (Aborted, s1))
      else (Returned (), s))"
  by pat_completeness auto
termination
  by (relation "measure (\<lambda>(T, start_addr, data, increment, i, s). length data - i)") auto

declare IRegisterTarget_seqWrite_loop.simps [simp del]

definition IRegisterTarget_seqWrite ::
  "('s, 'a::len word, 'd) IRegisterTarget \<Rightarrow> 'a word \<Rightarrow> 'd list \<Rightarrow> size_t \<Rightarrow> 's
     \<Rightarrow> ('d exn, unit) outcome \<times> 's" where
  "IRegisterTarget_seqWrite T start_addr data increment s =
     IRegisterTarget_seqWrite_loop T start_addr data increment 0 s"

function IRegisterTarget_seqRead_loop ::
  "('s, 'a::len word, 'd) IRegisterTarget \<Rightarrow> 'a word \<Rightarrow> 'd list \<Rightarrow> size_t \<Rightarrow> nat \<Rightarrow> 's
     \<Rightarrow> ('d exn, unit) outcome \<times> 'd list \<times> 's" where
  "IRegisterTarget_seqRead_loop T start_addr out_data increment i s =
     (if i < length out_data then
        (case read T (seq_address start_addr increment i) s of
           (Returned v, s1) \<Rightarrow>
             IRegisterTarget_seqRead_loop T start_addr (out_data[i := v]) increment (i + 1) s1
         | (Thrown e, s1) \<Rightarrow> (Thrown e, out_data, s1)
         | (Aborted, s1) \<Rightarrow> (Aborted, out_data, s1))
      else (Returned (), out_data, s))"
  by pat_completeness auto
termination
  by (relation "measure (\<lambda>(T, start_addr, out_data, increment, i, s). length out_data - i)") auto

declare IRegisterTarget_seqRead_loop.simps [simp del]

definition IRegisterTarget_seqRead ::
  "('s, 'a::len word, 'd) IRegisterTarget \<Rightarrow> 'a word \<Rightarrow> 'd list \<Rightarrow> size_t \<Rightarrow> 's
     \<Rightarrow> ('d exn, unit) outcome \<times> 'd list \<times> 's" where
  "IRegisterTarget_seqRead T start_addr out_data increment s =
     IRegisterTarget_seqRead_loop T start_addr out_data increment 0 s"

fun IRegisterTarget_fifoWrite ::
  "('s, 'a, 'd) IRegisterTarget \<Rightarrow> 'a \<Rightarrow> 'd list \<Rightarrow> 's \<Rightarrow> ('d exn, unit) outcome \<times> 's" where
  "IRegisterTarget_fifoWrite T fifo_addr [] s = (Returned (), s)"
| "IRegisterTarget_fifoWrite T fifo_addr (d # data) s =
     (case write' T fifo_addr d s of
        (Returned u, s1) \<Rightarrow> IRegisterTarget_fifoWrite T fifo_addr data s1
      | (Thrown e, s1) \<Rightarrow> (Thrown e, s1)
      | (Aborted, s1) \<Rightarrow> (Aborted, s1))"

function IRegisterTarget_fifoRead_loop ::
  "('s, 'a, 'd) IRegisterTarget \<Rightarrow> 'a \<Rightarrow> 'd list \<Rightarrow> nat \<Rightarrow> 's
     \<Rightarrow> ('d exn, unit) outcome \<times> 'd list \<times> 's" where
  "IRegisterTarget_fifoRead_loop T fifo_addr out_data i s =
     (if i < length out_data then
        (case read T fifo_addr s of
           (Returned v, s1) \<Rightarrow> IRegisterTarget_fifoRead_loop T fifo_addr (out_data[i := v]) (i + 1) s1
         | (Thrown e, s1) \<Rightarrow> (Thrown e, out_data, s1)
         | (Aborted, s1) \<Rightarrow> (Aborted, out_data, s1))
      else (Returned (), out_data, s))"
  by pat_completeness auto
termination
  by (relation "measure (\<lambda>(T, fifo_addr, out_data, i, s). length out_data - i)") auto

declare IRegisterTarget_fifoRead_loop.simps [simp del]

definition IRegisterTarget_fifoRead ::
  "('s, 'a, 'd) IRegisterTarget \<Rightarrow> 'a \<Rightarrow> 'd list \<Rightarrow> 's
     \<Rightarrow> ('d exn, unit) outcome \<times> 'd list \<times> 's" where
  "IRegisterTarget_fifoRead T fifo_addr out_data s = IRegisterTarget_fifoRead_loop T fifo_addr out_data 0 s"

fun IRegisterTarget_compWrite ::
  "('s, 'a, 'd) IRegisterTarget \<Rightarrow> ('a \<times> 'd) list \<Rightarrow> 's \<Rightarrow> ('d exn, unit) outcome \<times> 's" where
  "IRegisterTarget_compWrite T [] s = (Returned (), s)"
| "IRegisterTarget_compWrite T (ad # addr_data) s =
     (case write' T (fst ad) (snd ad) s of
        (Returned u, s1) \<Rightarrow> IRegisterTarget_compWrite T addr_data s1
      | (Thrown e, s1) \<Rightarrow> (Thrown e, s1)
      | (Aborted, s1) \<Rightarrow> (Aborted, s1))"

text \<open>
  \<^verbatim>\<open>
  virtual void compRead(std::span<AddressType const> const addresses, std::span<DataType> out_data)
  {
      assert(addresses.size() == out_data.size());
      for (size_t i = 0 ; i < addresses.size() ; i++) {
          out_data[i] = this->read(addresses[i]);
      }
  }
  \<close>
  The length check is an \<^verbatim>\<open>assert\<close>: it exists only in a build without \<^verbatim>\<open>NDEBUG\<close>,
  where a failed check aborts the process. Built with \<^verbatim>\<open>NDEBUG\<close> the function has no
  check at all, so the build is a parameter of the model. The loop runs over the
  addresses whatever the length of \<open>out_data\<close>: the read is made first, then the value
  is stored. A store at an index inside the span replaces that element. A store at
  \<open>i \<ge> out_data.size()\<close> goes past the end of the span (C++ gives it no defined
  behaviour; the memory behind the span is overwritten): the model keeps such values as
  elements appended behind the span, so that an overrun shows as a result longer than the
  span that was passed in. In this loop the index of an overrunning store is always the
  current length.
\<close>

definition span_store :: "'d list \<Rightarrow> nat \<Rightarrow> 'd \<Rightarrow> 'd list" where
  "span_store out_data i v = (if i < length out_data then out_data[i := v] else out_data @ [v])"

function IRegisterTarget_compRead_loop ::
  "('s, 'a, 'd) IRegisterTarget \<Rightarrow> 'a list \<Rightarrow> 'd list \<Rightarrow> nat \<Rightarrow> 's
     \<Rightarrow> ('d exn, unit) outcome \<times> 'd list \<times> 's" where
  "IRegisterTarget_compRead_loop T addresses out_data i s =
     (if i < length addresses then
        (case read T (addresses ! i) s of
           (Returned v, s1) \<Rightarrow> IRegisterTarget_compRead_loop T addresses (span_store out_data i v) (i + 1) s1
         | (Thrown e, s1) \<Rightarrow> (Thrown e, out_data, s1)
         | (Aborted, s1) \<Rightarrow> (Aborted, out_data, s1))
      else (Returned (), out_data, s))"
  by pat_completeness auto
termination
  by (relation "measure (\<lambda>(T, addresses, out_data, i, s). length addresses - i)") auto

declare IRegisterTarget_compRead_loop.simps [simp del]

definition IRegisterTarget_compRead ::
  "bool \<Rightarrow> ('s, 'a, 'd) IRegisterTarget \<Rightarrow> 'a list \<Rightarrow> 'd list \<Rightarrow> 's
     \<Rightarrow> ('d exn, unit) outcome \<times> 'd list \<times> 's" where
  "IRegisterTarget_compRead NDEBUG T addresses out_data s =
     (if \<not> NDEBUG \<and> length addresses \<noteq> length out_data then (Aborted, out_data, s)
      else IRegisterTarget_compRead_loop T addresses out_data 0 s)"

text \<open>
  A class derived from IRegisterTarget that overrides \<^verbatim>\<open>write\<close> and \<^verbatim>\<open>read\<close> only and
  inherits the other seven operations, built with assertions enabled (no \<^verbatim>\<open>NDEBUG\<close>:
  the default of a build); \<open>built_with_NDEBUG\<close> is the same object from a build with
  \<^verbatim>\<open>NDEBUG\<close>, which differs in the inherited compRead only.
\<close>

definition derived_target ::
  "string \<Rightarrow> string \<Rightarrow> ('a::len word \<Rightarrow> 'd::len word \<Rightarrow> 's \<Rightarrow> ('d word exn, unit) outcome \<times> 's)
     \<Rightarrow> ('a word \<Rightarrow> 's \<Rightarrow> ('d word exn, 'd word) outcome \<times> 's)
     \<Rightarrow> ('s, 'a word, 'd word) IRegisterTarget" where
  "derived_target name domain wr rd =
     (let core = \<lparr> getName = name, getDomain = domain, write' = wr, read = rd,
                    readModifyWrite = (\<lambda>addr new_data msk s. (Aborted, s)),
                    seqWrite = (\<lambda>start_addr data increment s. (Aborted, s)),
                    seqRead = (\<lambda>start_addr out_data increment s. (Aborted, out_data, s)),
                    fifoWrite = (\<lambda>fifo_addr data s. (Aborted, s)),
                    fifoRead = (\<lambda>fifo_addr out_data s. (Aborted, out_data, s)),
                    compWrite = (\<lambda>addr_data s. (Aborted, s)),
                    compRead = (\<lambda>addresses out_data s. (Aborted, out_data, s)) \<rparr>
      in core \<lparr> readModifyWrite := IRegisterTarget_readModifyWrite core,
                seqWrite := IRegisterTarget_seqWrite core,
                seqRead := IRegisterTarget_seqRead core,
                fifoWrite := IRegisterTarget_fifoWrite core,
                fifoRead := IRegisterTarget_fifoRead core,
                compWrite := IRegisterTarget_compWrite core,
                compRead := IRegisterTarget_compRead False core \<rparr>)"

definition built_with_NDEBUG :: "('s, 'a, 'd) IRegisterTarget \<Rightarrow> ('s, 'a, 'd) IRegisterTarget" where
  "built_with_NDEBUG T = T \<lparr> compRead := IRegisterTarget_compRead True T \<rparr>"

section \<open>Interposer and world\<close>

datatype ('a, 'd) hook =
    Seq string string "('a, 'd) message"
  | Step string string "('a, 'd) message"
  | OpStart string string "('a, 'd) message"
  | OpExtra string string "('a, 'd) message"
  | OpEnd string string
  | OpError string string "('a, 'd) message"

record ('s, 'a, 'd) world =
  dev :: 's
  observed :: "('a, 'd) hook list"
  now :: int

text \<open>
  Time. \<^verbatim>\<open>std::chrono::microseconds\<close> is a signed 64-bit count of microseconds and
  \<^verbatim>\<open>std::chrono::steady_clock::time_point\<close> a signed 64-bit count of nanoseconds.
  A sum or a unit conversion of these counts that leaves the 64-bit range is a signed
  overflow, which C++ leaves undefined; on two's complement hardware the result wraps
  around, and the model takes the wrapped value.

  The field \<open>now\<close> of the world is the time accounted for so far, in nanoseconds, as an
  unbounded integer. \<^verbatim>\<open>sleep_for(d)\<close> blocks for at least \<open>d\<close> (not at all for
  \<open>d \<le> 0\<close>): it accounts for exactly \<open>d\<close>. Whatever else takes time (a sleep that
  overshoots, the predicate, a register access, the scheduler) shows when the clock is
  read: the \<open>k\<close>-th reading of \<^verbatim>\<open>steady_clock::now()\<close> made by a poll comes out
  \<open>lag k\<close> nanoseconds after the time accounted for so far, and the time point it
  returns is that time as a 64-bit count. The function \<open>lag\<close> is the environment's
  choice, so the number of evaluations a poll makes is not fixed by the poller's
  parameters; every run of a monotonic clock is the run of some \<open>lag\<close>.
\<close>

type_synonym microseconds = "64 word"

type_synonym time_point = "64 word"

definition sleep_for :: "microseconds \<Rightarrow> int \<Rightarrow> int" where
  "sleep_for d t = t + max 0 (sint d) * 1000"

definition steady_clock_now :: "(nat \<Rightarrow> nat) \<Rightarrow> nat \<Rightarrow> int \<Rightarrow> int" where
  "steady_clock_now lag k t = t + int (lag k)"

section \<open>BasicPoller\<close>

text \<open>
  \<^verbatim>\<open>
  bool operator()(CheckFunctorType fn) const
  {
      std::this_thread::sleep_for(this->initial_delay);
      auto const start_timestamp = std::chrono::steady_clock::now();
      do {
          if (fn())
              return true;
          std::this_thread::sleep_for(this->wait_delay);
      } while (std::chrono::steady_clock::now() < start_timestamp + this->timeout);
      return false;
  }
  \<close>
  The predicate is any callable with a state of its own (\<open>c\<close>); it may throw, which ends
  the poll. In \<^verbatim>\<open>start_timestamp + this->timeout\<close> the timeout is converted to nanoseconds
  (times 1000) and added to the time point, both in 64 bits; the comparison is signed. The
  loop need not end, so it is a partial function: \<open>None\<close> is "never returns". \<open>k\<close> counts
  the readings of the clock.
\<close>

record BasicPoller =
  initial_delay :: microseconds
  wait_delay :: microseconds
  timeout :: microseconds

partial_function (option) BasicPoller_loop ::
  "(nat \<Rightarrow> nat) \<Rightarrow> BasicPoller \<Rightarrow> ('c \<Rightarrow> ('e, bool) outcome \<times> 'c) \<Rightarrow> time_point \<Rightarrow> nat \<Rightarrow> 'c \<Rightarrow> int
     \<Rightarrow> (('e, bool) outcome \<times> 'c \<times> int) option" where
  "BasicPoller_loop lag self fn start_timestamp k c t =
     (case fn c of
        (Returned ok, c1) \<Rightarrow>
          if ok then Some (Returned True, c1, t)
          else (let t1 = steady_clock_now lag k (sleep_for (wait_delay self) t)
                in if sint (word_of_int t1 :: time_point) < sint (start_timestamp + timeout self * 1000)
                   then BasicPoller_loop lag self fn start_timestamp (Suc k) c1 t1
                   else Some (Returned False, c1, t1))
      | (Thrown e, c1) \<Rightarrow> Some (Thrown e, c1, t)
      | (Aborted, c1) \<Rightarrow> Some (Aborted, c1, t))"

definition BasicPoller_call ::
  "(nat \<Rightarrow> nat) \<Rightarrow> BasicPoller \<Rightarrow> ('c \<Rightarrow> ('e, bool) outcome \<times> 'c) \<Rightarrow> 'c \<Rightarrow> int
     \<Rightarrow> (('e, bool) outcome \<times> 'c \<times> int) option" where
  "BasicPoller_call lag self fn c t =
     (let t0 = steady_clock_now lag 0 (sleep_for (initial_delay self) t);
          start_timestamp = word_of_int t0
      in BasicPoller_loop lag self fn start_timestamp 1 c t0)"

text \<open>
  \<^verbatim>\<open>BasicPoller const default_poller = { std::chrono::seconds(0), std::chrono::microseconds(500), std::chrono::seconds(3) };\<close>
  (the values of the three macros when the build does not set them).
\<close>

definition default_poller :: BasicPoller where
  "default_poller = \<lparr> initial_delay = 0, wait_delay = 500, timeout = 3000000 \<rparr>"

definition counted :: "('c \<Rightarrow> ('e, bool) outcome \<times> 'c) \<Rightarrow> 'c \<times> nat \<Rightarrow> ('e, bool) outcome \<times> ('c \<times> nat)" where
  "counted fn cn = (case fn (fst cn) of (r, c1) \<Rightarrow> (r, (c1, Suc (snd cn))))"

section \<open>FluentRegisterTarget\<close>

record ('s, 'a, 'd) FluentRegisterTarget =
  interposer :: bool
  target :: "('s, 'a, 'd) IRegisterTarget"

definition emit ::
  "('s, 'a, 'd) FluentRegisterTarget \<Rightarrow> ('a, 'd) hook \<Rightarrow> ('s, 'a, 'd) world \<Rightarrow> ('s, 'a, 'd) world" where
  "emit F h w = (if interposer F then w\<lparr>observed := observed w @ [h]\<rparr> else w)"

definition opStart ::
  "('s, 'a, 'd) FluentRegisterTarget \<Rightarrow> ('a, 'd) message \<Rightarrow> ('s, 'a, 'd) world \<Rightarrow> ('s, 'a, 'd) world" where
  "opStart F msg = emit F (OpStart ''FluentRegisterTarget'' (getName (target F)) msg)"

definition opExtra ::
  "('s, 'a, 'd) FluentRegisterTarget \<Rightarrow> 'd \<Rightarrow> ('s, 'a, 'd) world \<Rightarrow> ('s, 'a, 'd) world" where
  "opExtra F d = emit F (OpExtra ''FluentRegisterTarget'' (getName (target F)) (Format ''0x{:0{}x}'' [Data d]))"

definition opExtra_span ::
  "('s, 'a, 'd) FluentRegisterTarget \<Rightarrow> 'd list \<Rightarrow> ('s, 'a, 'd) world \<Rightarrow> ('s, 'a, 'd) world" where
  "opExtra_span F data w = fold (opExtra F) data w"

definition opExtra_addresses ::
  "('s, 'a, 'd) FluentRegisterTarget \<Rightarrow> 'a list \<Rightarrow> ('s, 'a, 'd) world \<Rightarrow> ('s, 'a, 'd) world" where
  "opExtra_addresses F addresses w =
     fold (\<lambda>a. emit F (OpExtra ''FluentRegisterTarget'' (getName (target F)) (Format ''0x{:0{}x}'' [Addr a])))
       addresses w"

definition opExtra_pairs ::
  "('s, 'a, 'd) FluentRegisterTarget \<Rightarrow> ('a \<times> 'd) list \<Rightarrow> ('s, 'a, 'd) world \<Rightarrow> ('s, 'a, 'd) world" where
  "opExtra_pairs F addr_data w =
     fold (\<lambda>ad. emit F (OpExtra ''FluentRegisterTarget'' (getName (target F))
                      (Format ''0x{:0{}x} 0x{:0{}x}'' [Addr (fst ad), Data (snd ad)])))
       addr_data w"

definition opEnd ::
  "('s, 'a, 'd) FluentRegisterTarget \<Rightarrow> ('s, 'a, 'd) world \<Rightarrow> ('s, 'a, 'd) world" where
  "opEnd F = emit F (OpEnd ''FluentRegisterTarget'' (getName (target F)))"

definition opError ::
  "('s, 'a, 'd) FluentRegisterTarget \<Rightarrow> ('a, 'd) message \<Rightarrow> ('s, 'a, 'd) world \<Rightarrow> ('s, 'a, 'd) world" where
  "opError F msg = emit F (OpError ''FluentRegisterTarget'' (getName (target F)) msg)"

definition on_target ::
  "('s \<Rightarrow> ('e, 'r) outcome \<times> 's) \<Rightarrow> ('s, 'a, 'd) world \<Rightarrow> ('e, 'r) outcome \<times> ('s, 'a, 'd) world" where
  "on_target f w = (case f (dev w) of (r, s1) \<Rightarrow> (r, w\<lparr>dev := s1\<rparr>))"

definition on_target_buf ::
  "('s \<Rightarrow> ('e, 'r) outcome \<times> 'x \<times> 's) \<Rightarrow> ('s, 'a, 'd) world
     \<Rightarrow> ('e, 'r) outcome \<times> 'x \<times> ('s, 'a, 'd) world" where
  "on_target_buf f w = (case f (dev w) of (r, x, s1) \<Rightarrow> (r, x, w\<lparr>dev := s1\<rparr>))"

definition lifecycle_finish ::
  "('s, 'a, 'd::len word) FluentRegisterTarget \<Rightarrow> ('x \<Rightarrow> ('s, 'a, 'd word) world \<Rightarrow> ('s, 'a, 'd word) world)
     \<Rightarrow> ('d word exn, unit) outcome \<times> 'x \<times> ('s, 'a, 'd word) world
     \<Rightarrow> ('d word exn, unit) outcome \<times> 'x \<times> ('s, 'a, 'd word) world" where
  "lifecycle_finish F post res =
     (case res of
        (Returned u, x, w2) \<Rightarrow> (Returned (), x, opEnd F (post x w2))
      | (Thrown e, x, w2) \<Rightarrow> (Thrown e, x, if is_std_exception e then opError F (what e) w2 else w2)
      | (Aborted, x, w2) \<Rightarrow> (Aborted, x, w2))"

definition lifecycle ::
  "('s, 'a, 'd::len word) FluentRegisterTarget \<Rightarrow> ('a, 'd word) message
     \<Rightarrow> (('s, 'a, 'd word) world \<Rightarrow> ('s, 'a, 'd word) world)
     \<Rightarrow> (('s, 'a, 'd word) world \<Rightarrow> ('d word exn, unit) outcome \<times> 'x \<times> ('s, 'a, 'd word) world)
     \<Rightarrow> ('x \<Rightarrow> ('s, 'a, 'd word) world \<Rightarrow> ('s, 'a, 'd word) world)
     \<Rightarrow> ('s, 'a, 'd word) world
     \<Rightarrow> ('d word exn, unit) outcome \<times> 'x \<times> ('s, 'a, 'd word) world" where
  "lifecycle F start_msg pre body post w = lifecycle_finish F post (body (pre (opStart F start_msg w)))"

definition no_extra :: "'x \<Rightarrow> 'w \<Rightarrow> 'w" where
  "no_extra x w = w"

definition drop_buf :: "'r \<times> unit \<times> 'w \<Rightarrow> 'r \<times> 'w" where
  "drop_buf res = (fst res, snd (snd res))"

definition unit_buf :: "'r \<times> 'w \<Rightarrow> 'r \<times> unit \<times> 'w" where
  "unit_buf res = (fst res, (), snd res)"

definition FluentRegisterTarget_seq ::
  "('s, 'a, 'd) FluentRegisterTarget \<Rightarrow> string \<Rightarrow> ('s, 'a, 'd) world \<Rightarrow> ('s, 'a, 'd) world" where
  "FluentRegisterTarget_seq F msg = emit F (Seq ''FluentRegisterTarget'' (getName (target F)) (Literal msg))"

definition FluentRegisterTarget_step ::
  "('s, 'a, 'd) FluentRegisterTarget \<Rightarrow> string \<Rightarrow> ('s, 'a, 'd) world \<Rightarrow> ('s, 'a, 'd) world" where
  "FluentRegisterTarget_step F msg = emit F (Step ''FluentRegisterTarget'' (getName (target F)) (Literal msg))"

definition FluentRegisterTarget_null ::
  "('s, 'a, 'd::len word) FluentRegisterTarget \<Rightarrow> string \<Rightarrow> ('s, 'a, 'd word) world
     \<Rightarrow> ('d word exn, unit) outcome \<times> ('s, 'a, 'd word) world" where
  "FluentRegisterTarget_null F msg w =
     drop_buf (lifecycle F (Format ''Null(): {}'' [Text msg]) id
                 (\<lambda>w1. (Returned (), (), w1)) no_extra w)"

definition FluentRegisterTarget_delay ::
  "('s, 'a, 'd::len word) FluentRegisterTarget \<Rightarrow> microseconds \<Rightarrow> string \<Rightarrow> ('s, 'a, 'd word) world
     \<Rightarrow> ('d word exn, unit) outcome \<times> ('s, 'a, 'd word) world" where
  "FluentRegisterTarget_delay F delay msg w =
     drop_buf (lifecycle F (Format ''Delay({}): {}'' [Micros delay, Text msg]) id
                 (\<lambda>w1. (Returned (), (), w1\<lparr>now := sleep_for delay (now w1)\<rparr>)) no_extra w)"

definition FluentRegisterTarget_write ::
  "('s, 'a, 'd::len word) FluentRegisterTarget \<Rightarrow> 'a \<Rightarrow> 'd word \<Rightarrow> string \<Rightarrow> ('s, 'a, 'd word) world
     \<Rightarrow> ('d word exn, unit) outcome \<times> ('s, 'a, 'd word) world" where
  "FluentRegisterTarget_write F addr data msg w =
     drop_buf (lifecycle F (Format ''Write(0x{:0{}x}, 0x{:0{}x}): {}'' [Addr addr, Data data, Text msg]) id
                 (\<lambda>w1. unit_buf (on_target (write' (target F) addr data) w1)) no_extra w)"

definition FluentRegisterTarget_read ::
  "('s, 'a, 'd::len word) FluentRegisterTarget \<Rightarrow> 'a \<Rightarrow> 'd word \<Rightarrow> string \<Rightarrow> ('s, 'a, 'd word) world
     \<Rightarrow> ('d word exn, unit) outcome \<times> 'd word \<times> ('s, 'a, 'd word) world" where
  "FluentRegisterTarget_read F addr out_data msg w =
     lifecycle F (Format ''Read(0x{:0{}x}): {}'' [Addr addr, Text msg]) id
       (\<lambda>w1. case on_target (read (target F) addr) w1 of
                (Returned v, w2) \<Rightarrow> (Returned (), v, w2)
              | (Thrown e, w2) \<Rightarrow> (Thrown e, out_data, w2)
              | (Aborted, w2) \<Rightarrow> (Aborted, out_data, w2))
       (opExtra F) w"

definition FluentRegisterTarget_readModifyWrite ::
  "('s, 'a, 'd::len word) FluentRegisterTarget \<Rightarrow> 'a \<Rightarrow> 'd word \<Rightarrow> 'd word \<Rightarrow> string
     \<Rightarrow> ('s, 'a, 'd word) world \<Rightarrow> ('d word exn, unit) outcome \<times> ('s, 'a, 'd word) world" where
  "FluentRegisterTarget_readModifyWrite F addr new_data msk msg w =
     drop_buf (lifecycle F
                 (Format ''ReadModifyWrite(0x{:0{}x}, 0x{:0{}x}, 0x{:0{}x}): {}''
                    [Addr addr, Data (new_data AND msk), Data msk, Text msg]) id
                 (\<lambda>w1. unit_buf (on_target (readModifyWrite (target F) addr new_data msk) w1)) no_extra w)"

definition FluentRegisterTarget_seqWrite ::
  "('s, 'a, 'd::len word) FluentRegisterTarget \<Rightarrow> 'a \<Rightarrow> 'd word list \<Rightarrow> size_t \<Rightarrow> string
     \<Rightarrow> ('s, 'a, 'd word) world \<Rightarrow> ('d word exn, unit) outcome \<times> ('s, 'a, 'd word) world" where
  "FluentRegisterTarget_seqWrite F start_addr data increment msg w =
     drop_buf (lifecycle F
                 (Format ''SeqWrite(0x{:0{}x}, {}.., {}): {}''
                    [Addr start_addr, Size (length data), Size (unat increment), Text msg])
                 (opExtra_span F data)
                 (\<lambda>w1. unit_buf (on_target (seqWrite (target F) start_addr data increment) w1)) no_extra w)"

definition FluentRegisterTarget_seqRead ::
  "('s, 'a, 'd::len word) FluentRegisterTarget \<Rightarrow> 'a \<Rightarrow> 'd word list \<Rightarrow> size_t \<Rightarrow> string
     \<Rightarrow> ('s, 'a, 'd word) world \<Rightarrow> ('d word exn, unit) outcome \<times> 'd word list \<times> ('s, 'a, 'd word) world" where
  "FluentRegisterTarget_seqRead F start_addr out_data increment msg w =
     lifecycle F
       (Format ''SeqRead(0x{:0{}x}, {}.., {}): {}''
          [Addr start_addr, Size (length out_data), Size (unat increment), Text msg]) id
       (on_target_buf (seqRead (target F) start_addr out_data increment))
       (opExtra_span F) w"

definition FluentRegisterTarget_fifoWrite ::
  "('s, 'a, 'd::len word) FluentRegisterTarget \<Rightarrow> 'a \<Rightarrow> 'd word list \<Rightarrow> string
     \<Rightarrow> ('s, 'a, 'd word) world \<Rightarrow> ('d word exn, unit) outcome \<times> ('s, 'a, 'd word) world" where
  "FluentRegisterTarget_fifoWrite F fifo_addr data msg w =
     drop_buf (lifecycle F
                 (Format ''FifoWrite(0x{:0{}x}, {}..): {}'' [Addr fifo_addr, Size (length data), Text msg])
                 (opExtra_span F data)
                 (\<lambda>w1. unit_buf (on_target (fifoWrite (target F) fifo_addr data) w1)) no_extra w)"

definition FluentRegisterTarget_fifoRead ::
  "('s, 'a, 'd::len word) FluentRegisterTarget \<Rightarrow> 'a \<Rightarrow> 'd word list \<Rightarrow> string
     \<Rightarrow> ('s, 'a, 'd word) world \<Rightarrow> ('d word exn, unit) outcome \<times> 'd word list \<times> ('s, 'a, 'd word) world" where
  "FluentRegisterTarget_fifoRead F fifo_addr out_data msg w =
     lifecycle F
       (Format ''FifoRead(0x{:0{}x}, {}): {}'' [Addr fifo_addr, Size (length out_data), Text msg]) id
       (on_target_buf (fifoRead (target F) fifo_addr out_data))
       (opExtra_span F) w"

definition FluentRegisterTarget_compWrite ::
  "('s, 'a, 'd::len word) FluentRegisterTarget \<Rightarrow> ('a \<times> 'd word) list \<Rightarrow> string
     \<Rightarrow> ('s, 'a, 'd word) world \<Rightarrow> ('d word exn, unit) outcome \<times> ('s, 'a, 'd word) world" where
  "FluentRegisterTarget_compWrite F addr_data msg w =
     drop_buf (lifecycle F
                 (Format ''CompWrite({}..): {}'' [Size (length addr_data), Text msg])
                 (opExtra_pairs F addr_data)
                 (\<lambda>w1. unit_buf (on_target (compWrite (target F) addr_data) w1)) no_extra w)"

definition FluentRegisterTarget_compRead ::
  "('s, 'a, 'd::len word) FluentRegisterTarget \<Rightarrow> 'a list \<Rightarrow> 'd word list \<Rightarrow> string
     \<Rightarrow> ('s, 'a, 'd word) world \<Rightarrow> ('d word exn, unit) outcome \<times> 'd word list \<times> ('s, 'a, 'd word) world" where
  "FluentRegisterTarget_compRead F addresses out_data msg w =
     lifecycle F
       (Format ''CompRead({}.., {}..): {}'' [Size (length addresses), Size (length out_data), Text msg])
       (opExtra_addresses F addresses)
       (on_target_buf (compRead (target F) addresses out_data))
       (opExtra_span F) w"

definition writeVerify_body ::
  "('s, 'a, 'd::len word) IRegisterTarget \<Rightarrow> 'a \<Rightarrow> 'd word \<Rightarrow> 'd word \<Rightarrow> 's
     \<Rightarrow> ('d word exn, unit) outcome \<times> 's" where
  "writeVerify_body T addr data msk s =
     (case write' T addr data s of
        (Returned u, s1) \<Rightarrow>
          (case read T addr s1 of
             (Returned reg_val, s2) \<Rightarrow>
               (let expected_val = data AND msk
                in if (reg_val AND msk) \<noteq> expected_val
                   then (Thrown (new_WriteVerifyFailureException expected_val msk reg_val), s2)
                   else (Returned (), s2))
           | (Thrown e, s2) \<Rightarrow> (Thrown e, s2)
           | (Aborted, s2) \<Rightarrow> (Aborted, s2))
      | (Thrown e, s1) \<Rightarrow> (Thrown e, s1)
      | (Aborted, s1) \<Rightarrow> (Aborted, s1))"

definition FluentRegisterTarget_writeVerify ::
  "('s, 'a, 'd::len word) FluentRegisterTarget \<Rightarrow> 'a \<Rightarrow> 'd word \<Rightarrow> 'd word \<Rightarrow> string
     \<Rightarrow> ('s, 'a, 'd word) world \<Rightarrow> ('d word exn, unit) outcome \<times> ('s, 'a, 'd word) world" where
  "FluentRegisterTarget_writeVerify F addr data msk msg w =
     drop_buf (lifecycle F
                 (Format ''WriteVerify(0x{:0{}x}, 0x{:0{}x}, 0x{:0{}x}): {}''
                    [Addr addr, Data data, Data msk, Text msg]) id
                 (\<lambda>w1. unit_buf (on_target (writeVerify_body (target F) addr data msk) w1)) no_extra w)"

definition readVerify_body ::
  "('s, 'a, 'd::len word) IRegisterTarget \<Rightarrow> 'a \<Rightarrow> 'd word \<Rightarrow> 'd word \<Rightarrow> 's
     \<Rightarrow> ('d word exn, unit) outcome \<times> 's" where
  "readVerify_body T addr expected msk s =
     (case read T addr s of
        (Returned reg_val, s1) \<Rightarrow>
          (let expected_val = expected AND msk
           in if (reg_val AND msk) \<noteq> expected_val
              then (Thrown (new_ReadVerifyFailureException expected_val msk reg_val), s1)
              else (Returned (), s1))
      | (Thrown e, s1) \<Rightarrow> (Thrown e, s1)
      | (Aborted, s1) \<Rightarrow> (Aborted, s1))"

definition FluentRegisterTarget_readVerify ::
  "('s, 'a, 'd::len word) FluentRegisterTarget \<Rightarrow> 'a \<Rightarrow> 'd word \<Rightarrow> 'd word \<Rightarrow> string
     \<Rightarrow> ('s, 'a, 'd word) world \<Rightarrow> ('d word exn, unit) outcome \<times> ('s, 'a, 'd word) world" where
  "FluentRegisterTarget_readVerify F addr expected msk msg w =
     drop_buf (lifecycle F
                 (Format ''ReadVerify(0x{:0{}x}, 0x{:0{}x}, 0x{:0{}x}): {}''
                    [Addr addr, Data expected, Data msk, Text msg]) id
                 (\<lambda>w1. unit_buf (on_target (readVerify_body (target F) addr expected msk) w1)) no_extra w)"

definition pollRead_check ::
  "('s, 'a, 'd::len word) IRegisterTarget \<Rightarrow> 'a \<Rightarrow> 'd word \<Rightarrow> 'd word \<Rightarrow> 'd word \<times> 's
     \<Rightarrow> ('d word exn, bool) outcome \<times> ('d word \<times> 's)" where
  "pollRead_check T addr expected_val msk c =
     (case read T addr (snd c) of
        (Returned v, s1) \<Rightarrow> (Returned ((v AND msk) = expected_val), (v, s1))
      | (Thrown e, s1) \<Rightarrow> (Thrown e, (fst c, s1))
      | (Aborted, s1) \<Rightarrow> (Aborted, (fst c, s1)))"

definition pollRead_body ::
  "(('d word \<times> 's \<Rightarrow> ('d word exn, bool) outcome \<times> ('d word \<times> 's)) \<Rightarrow> 'd word \<times> 's \<Rightarrow> int
       \<Rightarrow> (('d word exn, bool) outcome \<times> ('d word \<times> 's) \<times> int) option)
     \<Rightarrow> ('s, 'a, 'd::len word) IRegisterTarget \<Rightarrow> 'a \<Rightarrow> 'd word \<Rightarrow> 'd word \<Rightarrow> ('s, 'a, 'd word) world
     \<Rightarrow> (('d word exn, unit) outcome \<times> unit \<times> ('s, 'a, 'd word) world) option" where
  "pollRead_body poller T addr expected msk w1 =
     (let expected_val = expected AND msk
      in case poller (pollRead_check T addr expected_val msk) (0, dev w1) (now w1) of
           None \<Rightarrow> None
         | Some (r, c, t1) \<Rightarrow>
             Some (case r of
                     Returned success \<Rightarrow>
                       if \<not> success then Thrown (new_PollReadTimeoutException expected_val msk (fst c))
                       else Returned ()
                   | Thrown e \<Rightarrow> Thrown e
                   | Aborted \<Rightarrow> Aborted,
                   (), w1\<lparr>dev := snd c, now := t1\<rparr>))"

definition FluentRegisterTarget_pollRead ::
  "('s, 'a, 'd::len word) FluentRegisterTarget
     \<Rightarrow> (('d word \<times> 's \<Rightarrow> ('d word exn, bool) outcome \<times> ('d word \<times> 's)) \<Rightarrow> 'd word \<times> 's \<Rightarrow> int
       \<Rightarrow> (('d word exn, bool) outcome \<times> ('d word \<times> 's) \<times> int) option)
     \<Rightarrow> 'a \<Rightarrow> 'd word \<Rightarrow> 'd word \<Rightarrow> string \<Rightarrow> ('s, 'a, 'd word) world
     \<Rightarrow> (('d word exn, unit) outcome \<times> ('s, 'a, 'd word) world) option" where
  "FluentRegisterTarget_pollRead F poller addr expected msk msg w =
     map_option (\<lambda>res. drop_buf (lifecycle_finish F no_extra res))
       (pollRead_body poller (target F) addr expected msk
          (opStart F (Format ''PollRead(0x{:0{}x}, 0x{:0{}x}, 0x{:0{}x}): {}''
                        [Addr addr, Data expected, Data msk, Text msg]) w))"

definition FluentRegisterTarget_pollRead_default ::
  "(nat \<Rightarrow> nat) \<Rightarrow> ('s, 'a, 'd::len word) FluentRegisterTarget \<Rightarrow> 'a \<Rightarrow> 'd word \<Rightarrow> 'd word \<Rightarrow> string
     \<Rightarrow> ('s, 'a, 'd word) world \<Rightarrow> (('d word exn, unit) outcome \<times> ('s, 'a, 'd word) world) option" where
  "FluentRegisterTarget_pollRead_default lag F addr expected msk msg w =
     FluentRegisterTarget_pollRead F (BasicPoller_call lag default_poller) addr expected msk msg w"

section \<open>SimpleDummyRegisterTarget\<close>

definition SimpleDummyRegisterTarget ::
  "string \<Rightarrow> ('a::len word \<rightharpoonup> 'd::len word, 'a word, 'd word) IRegisterTarget" where
  "SimpleDummyRegisterTarget name =
     derived_target name ''SimpleDummyRegisterTarget''
       (\<lambda>addr data regs. (Returned (), regs(addr \<mapsto> data)))
       (\<lambda>addr regs. case regs addr of
                       Some rv \<Rightarrow> (Returned rv, regs)
                     | None \<Rightarrow> (Returned 0, regs(addr \<mapsto> 0)))"

section \<open>Test doubles and yardsticks\<close>

datatype ('a, 'd) access = WriteAccess 'a 'd | ReadAccess 'a "'d option"

definition spy ::
  "('s, 'a::len word, 'd::len word) IRegisterTarget
     \<Rightarrow> ('s \<times> ('a word, 'd word) access list, 'a word, 'd word) IRegisterTarget" where
  "spy T =
     derived_target (getName T) (getDomain T)
       (\<lambda>addr data sl. case write' T addr data (fst sl) of
                          (r, s1) \<Rightarrow> (r, (s1, snd sl @ [WriteAccess addr data])))
       (\<lambda>addr sl. case read T addr (fst sl) of
                     (Returned v, s1) \<Rightarrow> (Returned v, (s1, snd sl @ [ReadAccess addr (Some v)]))
                   | (Thrown e, s1) \<Rightarrow> (Thrown e, (s1, snd sl @ [ReadAccess addr None]))
                   | (Aborted, s1) \<Rightarrow> (Aborted, (s1, snd sl @ [ReadAccess addr None])))"

fun direct_writes ::
  "('s, 'a, 'd) IRegisterTarget \<Rightarrow> ('a \<times> 'd) list \<Rightarrow> 's \<Rightarrow> ('d exn, unit) outcome \<times> 's" where
  "direct_writes T [] s = (Returned (), s)"
| "direct_writes T ((addr, data) # rest) s =
     (case write' T addr data s of
        (Returned u, s1) \<Rightarrow> direct_writes T rest s1
      | (Thrown e, s1) \<Rightarrow> (Thrown e, s1)
      | (Aborted, s1) \<Rightarrow> (Aborted, s1))"

fun direct_reads ::
  "('s, 'a, 'd) IRegisterTarget \<Rightarrow> 'a list \<Rightarrow> 's \<Rightarrow> ('d exn, unit) outcome \<times> 'd list \<times> 's" where
  "direct_reads T [] s = (Returned (), [], s)"
| "direct_reads T (addr # rest) s =
     (case read T addr s of
        (Returned v, s1) \<Rightarrow> (case direct_reads T rest s1 of (r, vs, s2) \<Rightarrow> (r, v # vs, s2))
      | (Thrown e, s1) \<Rightarrow> (Thrown e, [], s1)
      | (Aborted, s1) \<Rightarrow> (Aborted, [], s1))"

fun is_OpStart :: "('a, 'd) hook \<Rightarrow> bool" where
  "is_OpStart (OpStart domn inst msg) = True"
| "is_OpStart h = False"

fun is_OpEnd :: "('a, 'd) hook \<Rightarrow> bool" where
  "is_OpEnd (OpEnd domn inst) = True"
| "is_OpEnd h = False"

fun is_OpError :: "('a, 'd) hook \<Rightarrow> bool" where
  "is_OpError (OpError domn inst msg) = True"
| "is_OpError h = False"

fun is_OpExtra :: "('a, 'd) hook \<Rightarrow> bool" where
  "is_OpExtra (OpExtra domn inst msg) = True"
| "is_OpExtra h = False"

definition how_many :: "('h \<Rightarrow> bool) \<Rightarrow> 'h list \<Rightarrow> nat" where
  "how_many P hs = length (filter P hs)"

fun hook_domain :: "('a, 'd) hook \<Rightarrow> string" where
  "hook_domain (Seq domn inst msg) = domn"
| "hook_domain (Step domn inst msg) = domn"
| "hook_domain (OpStart domn inst msg) = domn"
| "hook_domain (OpExtra domn inst msg) = domn"
| "hook_domain (OpEnd domn inst) = domn"
| "hook_domain (OpError domn inst msg) = domn"

fun hook_instance :: "('a, 'd) hook \<Rightarrow> string" where
  "hook_instance (Seq domn inst msg) = inst"
| "hook_instance (Step domn inst msg) = inst"
| "hook_instance (OpStart domn inst msg) = inst"
| "hook_instance (OpExtra domn inst msg) = inst"
| "hook_instance (OpEnd domn inst) = inst"
| "hook_instance (OpError domn inst msg) = inst"

datatype ('s, 'a, 'd) request =
    Null string
  | Delay microseconds string
  | Write 'a 'd string
  | Read 'a 'd string
  | ReadModifyWrite 'a 'd 'd string
  | SeqWrite 'a "'d list" size_t string
  | SeqRead 'a "'d list" size_t string
  | FifoWrite 'a "'d list" string
  | FifoRead 'a "'d list" string
  | CompWrite "('a \<times> 'd) list" string
  | CompRead "'a list" "'d list" string
  | WriteVerify 'a 'd 'd string
  | ReadVerify 'a 'd 'd string
  | PollRead "('d \<times> 's \<Rightarrow> ('d exn, bool) outcome \<times> ('d \<times> 's)) \<Rightarrow> 'd \<times> 's \<Rightarrow> int
                \<Rightarrow> (('d exn, bool) outcome \<times> ('d \<times> 's) \<times> int) option" 'a 'd 'd string

definition drop_out :: "'r \<times> 'x \<times> 'w \<Rightarrow> 'r \<times> 'w" where
  "drop_out res = (fst res, snd (snd res))"

fun invoke ::
  "('s, 'a, 'd::len word) FluentRegisterTarget \<Rightarrow> ('s, 'a, 'd word) request \<Rightarrow> ('s, 'a, 'd word) world
     \<Rightarrow> (('d word exn, unit) outcome \<times> ('s, 'a, 'd word) world) option" where
  "invoke F (Null msg) w = Some (FluentRegisterTarget_null F msg w)"
| "invoke F (Delay delay msg) w = Some (FluentRegisterTarget_delay F delay msg w)"
| "invoke F (Write addr data msg) w = Some (FluentRegisterTarget_write F addr data msg w)"
| "invoke F (Read addr out_data msg) w = Some (drop_out (FluentRegisterTarget_read F addr out_data msg w))"
| "invoke F (ReadModifyWrite addr new_data msk msg) w =
     Some (FluentRegisterTarget_readModifyWrite F addr new_data msk msg w)"
| "invoke F (SeqWrite start_addr data increment msg) w =
     Some (FluentRegisterTarget_seqWrite F start_addr data increment msg w)"
| "invoke F (SeqRead start_addr out_data increment msg) w =
     Some (drop_out (FluentRegisterTarget_seqRead F start_addr out_data increment msg w))"
| "invoke F (FifoWrite fifo_addr data msg) w = Some (FluentRegisterTarget_fifoWrite F fifo_addr data msg w)"
| "invoke F (FifoRead fifo_addr out_data msg) w =
     Some (drop_out (FluentRegisterTarget_fifoRead F fifo_addr out_data msg w))"
| "invoke F (CompWrite addr_data msg) w = Some (FluentRegisterTarget_compWrite F addr_data msg w)"
| "invoke F (CompRead addresses out_data msg) w =
     Some (drop_out (FluentRegisterTarget_compRead F addresses out_data msg w))"
| "invoke F (WriteVerify addr data msk msg) w = Some (FluentRegisterTarget_writeVerify F addr data msk msg w)"
| "invoke F (ReadVerify addr expected msk msg) w = Some (FluentRegisterTarget_readVerify F addr expected msk msg w)"
| "invoke F (PollRead poller addr expected msk msg) w =
     FluentRegisterTarget_pollRead F poller addr expected msk msg w"

text \<open>A SimpleDummyRegisterTarget named "dut" with 32-bit addresses and data, for concrete runs.\<close>

definition dut :: "(32 word \<rightharpoonup> 32 word, 32 word, 32 word) IRegisterTarget" where
  "dut = SimpleDummyRegisterTarget ''dut''"

text \<open>
  The shape of what the interposer sees of one operation, by the operation's outcome:
  a start event, extra events, and then an end event (returned), an error event carrying
  \<^verbatim>\<open>what()\<close> of the exception (an exception derived from \<^verbatim>\<open>std::exception\<close>), or
  nothing more (an exception of another type, or an abort).
\<close>

definition terminal_events ::
  "('s, 'a, 'd::len word) FluentRegisterTarget \<Rightarrow> ('d word exn, unit) outcome
     \<Rightarrow> ('a, 'd word) hook list" where
  "terminal_events F r =
     (case r of
        Returned u \<Rightarrow> [OpEnd ''FluentRegisterTarget'' (getName (target F))]
      | Thrown e \<Rightarrow>
          if is_std_exception e
          then [OpError ''FluentRegisterTarget'' (getName (target F)) (what e)]
          else []
      | Aborted \<Rightarrow> [])"

definition lifecycle_ok ::
  "('s, 'a, 'd::len word) FluentRegisterTarget \<Rightarrow> ('d word exn, unit) outcome
     \<Rightarrow> ('a, 'd word) hook list \<Rightarrow> bool" where
  "lifecycle_ok F r evs =
     (\<exists>m E. list_all is_OpExtra E \<and>
        evs = OpStart ''FluentRegisterTarget'' (getName (target F)) m # E @ terminal_events F r)"

text \<open>Two properties of the parts an operation is built from, for the proofs.\<close>

definition adds_extras :: "(('s, 'a, 'd) world \<Rightarrow> ('s, 'a, 'd) world) \<Rightarrow> bool" where
  "adds_extras g = (\<forall>w. \<exists>E. list_all is_OpExtra E \<and> observed (g w) = observed w @ E)"

definition unobserved :: "(('s, 'a, 'd) world \<Rightarrow> 'r \<times> 'x \<times> ('s, 'a, 'd) world) \<Rightarrow> bool" where
  "unobserved body = (\<forall>w. observed (snd (snd (body w))) = observed w)"

definition silent :: "(('s, 'a, 'd) world \<Rightarrow> ('s, 'a, 'd) world) \<Rightarrow> bool" where
  "silent g = (\<forall>w. dev (g w) = dev w \<and> now (g w) = now w)"

definition blind :: "(('s, 'a, 'd) world \<Rightarrow> 'r \<times> 'x \<times> ('s, 'a, 'd) world) \<Rightarrow> bool" where
  "blind body =
     (\<forall>w w'. dev w = dev w' \<and> now w = now w' \<longrightarrow>
        fst (body w) = fst (body w') \<and> fst (snd (body w)) = fst (snd (body w')) \<and>
        dev (snd (snd (body w))) = dev (snd (snd (body w'))) \<and>
        now (snd (snd (body w))) = now (snd (snd (body w'))))"

text \<open>What the caller and the device see of a call's result: the outcome, the device, the clock.\<close>

definition caller_view :: "'r \<times> ('s, 'a, 'd) world \<Rightarrow> 'r \<times> 's \<times> int" where
  "caller_view res = (fst res, dev (snd res), now (snd res))"

text \<open>
  A target for failing runs: every write throws a \<^verbatim>\<open>std::runtime_error("bus error")\<close>,
  every read throws an object that is not derived from \<^verbatim>\<open>std::exception\<close>.
\<close>

definition broken_target :: "(unit, 32 word, 32 word) IRegisterTarget" where
  "broken_target =
     derived_target ''bad'' ''BrokenTarget''
       (\<lambda>addr data s. (Thrown (StdException ''bus error''), s))
       (\<lambda>addr s. (Thrown ForeignException, s))"

text \<open>
  Two predicates for concrete runs of a poller, over a count of the evaluations made so
  far: one that is true from its third evaluation on, and one that is never true.
\<close>

definition true_on_third :: "nat \<Rightarrow> (unit, bool) outcome \<times> nat" where
  "true_on_third k = (Returned (2 \<le> k), Suc k)"

definition never_true :: "nat \<Rightarrow> (unit, bool) outcome \<times> nat" where
  "never_true k = (Returned False, Suc k)"

text \<open>
  A poll stays clear of the 64-bit wrap-around when it starts at a time \<open>t \<ge> 0\<close> from
  which the poller's three durations (in nanoseconds) and two readings of the clock, each
  at most \<open>B\<close> nanoseconds late, still fit below \<open>2^63\<close>.
\<close>

definition clock_in_range :: "BasicPoller \<Rightarrow> nat \<Rightarrow> int \<Rightarrow> bool" where
  "clock_in_range P B t =
     (0 \<le> t \<and>
      t + (max 0 (sint (initial_delay P)) + max 0 (sint (wait_delay P)) + abs (sint (timeout P))) * 1000
        + 2 * int B < 2 ^ 63)"

text \<open>Yardsticks for the accesses a spy has logged.\<close>

fun is_read_of :: "'a \<Rightarrow> ('a, 'd) access \<Rightarrow> bool" where
  "is_read_of addr (ReadAccess a v) = (a = addr)"
| "is_read_of addr (WriteAccess a data) = False"

fun mismatching :: "'a \<Rightarrow> 'd::len word \<Rightarrow> 'd word \<Rightarrow> ('a, 'd word) access \<Rightarrow> bool" where
  "mismatching addr msk expected_val (ReadAccess a (Some v)) = (a = addr \<and> (v AND msk) \<noteq> expected_val)"
| "mismatching addr msk expected_val (ReadAccess a None) = False"
| "mismatching addr msk expected_val (WriteAccess a d) = False"

text \<open>
  A poller is any callable. What pollRead can promise about the device depends on the
  poller touching the predicate's state only by calling the predicate: then whatever
  every evaluation of the predicate preserves still holds when the poller returns.
\<close>

definition well_behaved ::
  "(('c \<Rightarrow> ('e, bool) outcome \<times> 'c) \<Rightarrow> 'c \<Rightarrow> int \<Rightarrow> (('e, bool) outcome \<times> 'c \<times> int) option) \<Rightarrow> bool" where
  "well_behaved poller =
     (\<forall>Q check c t r c1 t1.
        (\<forall>c. Q c \<longrightarrow> Q (snd (check c))) \<longrightarrow> Q c \<longrightarrow> poller check c t = Some (r, c1, t1) \<longrightarrow> Q c1)"

text \<open>
  A target that echoes back whatever was written: registers are a total function from
  addresses to data, and a read changes nothing.
\<close>

definition echo_target :: "(32 word \<Rightarrow> 32 word, 32 word, 32 word) IRegisterTarget" where
  "echo_target =
     derived_target ''echo'' ''EchoTarget''
       (\<lambda>addr data regs. (Returned (), regs(addr := data)))
       (\<lambda>addr regs. (Returned (regs addr), regs))"

text \<open>
  The value a register of a SimpleDummyRegisterTarget holds for whoever reads it: the value
  stored for the address, or 0 where nothing is stored yet (the read then inserts the
  address, \<^verbatim>\<open>return this->regs[addr];\<close> on a \<^verbatim>\<open>std::unordered_map\<close>).
\<close>

definition register_value :: "('a \<rightharpoonup> 'd::len word) \<Rightarrow> 'a \<Rightarrow> 'd word" where
  "register_value regs addr = (case regs addr of Some rv \<Rightarrow> rv | None \<Rightarrow> 0)"

text \<open>
  What a spy logs while a poller drives pollRead's predicate: reads of the polled address
  that did not match, then one last read. If the last read returned a value, the predicate
  answered whether that value matches under the mask and left the value in the captured
  variable; if the last read failed, the poller did not return an answer.
\<close>

definition poll_trace ::
  "'a \<Rightarrow> 'd::len word \<Rightarrow> 'd word \<Rightarrow> ('a, 'd word) access list
     \<Rightarrow> ('e, bool) outcome \<times> ('d word \<times> 's \<times> ('a, 'd word) access list) \<times> int \<Rightarrow> bool" where
  "poll_trace addr msk ev log0 y =
     (\<exists>pre v. snd (snd (fst (snd y))) = log0 @ pre @ [ReadAccess addr v]
        \<and> list_all (mismatching addr msk ev) pre
        \<and> (\<forall>x. v = Some x \<longrightarrow> fst y = Returned ((x AND msk) = ev) \<and> fst (fst (snd y)) = x)
        \<and> (v = None \<longrightarrow> (\<forall>b. fst y \<noteq> Returned b)))"

section \<open>Properties\<close>

subsection \<open>chunkify\<close>

lemma ceil_div_less: "0 < m \<Longrightarrow> k < (n + m - 1) div m \<longleftrightarrow> k * m < (n::nat)"
proof -
  assume m: "0 < m"
  have "k < (n + m - 1) div m \<longleftrightarrow> Suc k \<le> (n + m - 1) div m" by auto
  also have "\<dots> \<longleftrightarrow> Suc k * m \<le> n + m - 1" using m by (simp add: less_eq_div_iff_mult_less_eq)
  also have "\<dots> \<longleftrightarrow> k * m < n" using m by auto
  finally show ?thesis .
qed

lemma chunkify_loop_done:
  "length buffer \<le> pos \<Longrightarrow> chunkify_loop buffer m fn pos s = Some (Returned (), s)"
  by (subst chunkify_loop.simps) simp

lemma chunkify_loop_from:
  assumes m: "0 < m"
  shows "k \<le> (length buffer + m - 1) div m \<Longrightarrow>
     chunkify_loop buffer m fn (min (k * m) (length buffer)) s =
       Some (call_each fn
               (map (\<lambda>i. (take m (drop (i * m) buffer), i * m)) [k..<(length buffer + m - 1) div m]) s)"
proof (induction "(length buffer + m - 1) div m - k" arbitrary: k s)
  case 0
  then have k: "k = (length buffer + m - 1) div m" by simp
  then have "\<not> k * m < length buffer" using ceil_div_less [OF m, of k "length buffer"] by simp
  then show ?case using k by (simp add: chunkify_loop_done)
next
  case (Suc d)
  then have klt: "k < (length buffer + m - 1) div m" by simp
  then have pos: "k * m < length buffer" using ceil_div_less [OF m] by blast
  have upt: "[k..<(length buffer + m - 1) div m] = k # [Suc k..<(length buffer + m - 1) div m]"
    using klt by (simp add: upt_conv_Cons)
  have nxt: "k * m + min m (length buffer - k * m) = min (Suc k * m) (length buffer)"
    using pos by (auto simp: min_def)
  have tk: "take (min m (length buffer - k * m)) (drop (k * m) buffer) = take m (drop (k * m) buffer)"
    by (simp add: min_def)
  have IH: "\<And>s. chunkify_loop buffer m fn (min (Suc k * m) (length buffer)) s =
       Some (call_each fn
               (map (\<lambda>i. (take m (drop (i * m) buffer), i * m)) [Suc k..<(length buffer + m - 1) div m]) s)"
    using Suc.hyps(1) [of "Suc k"] Suc.hyps(2) klt by simp
  have mn: "min (k * m) (length buffer) = k * m" using pos by simp
  show ?case
    unfolding mn upt
    apply (subst chunkify_loop.simps)
    using pos IH
    by (simp only: Let_def tk nxt list.map call_each.simps if_True split: prod.splits outcome.splits) auto
qed

lemma chunkify_chunk_list:
  "0 < m \<Longrightarrow> chunkify buffer m fn s = Some (call_each fn (chunk_list buffer m) s)"
  using chunkify_loop_from [of m 0 buffer fn s] by (simp add: chunkify_def chunk_list_def)

lemma concat_chunk_list_aux:
  "0 < m \<Longrightarrow> concat (map (\<lambda>i. take m (drop (i * m) buffer)) [0..<n]) = take (n * m) buffer"
proof (induction n)
  case (Suc n)
  have "take (n * m) buffer @ take m (drop (n * m) buffer) = take (n * m + m) buffer"
    by (simp add: take_add)
  with Suc show ?case by (simp add: add.commute)
qed simp

lemma concat_chunk_list: "0 < m \<Longrightarrow> concat (map fst (chunk_list buffer m)) = buffer"
proof -
  assume m: "0 < m"
  have "\<not> ((length buffer + m - 1) div m) * m < length buffer"
    using ceil_div_less [OF m, of "(length buffer + m - 1) div m" "length buffer"] by simp
  then show ?thesis
    using concat_chunk_list_aux [OF m, of buffer "(length buffer + m - 1) div m"]
    by (simp add: chunk_list_def comp_def)
qed

lemma length_chunk_list: "length (chunk_list buffer m) = (length buffer + m - 1) div m"
  by (simp add: chunk_list_def)

lemma nth_chunk_list:
  "i < length (chunk_list buffer m) \<Longrightarrow>
     chunk_list buffer m ! i = (take m (drop (i * m) buffer), i * m)"
  by (simp add: chunk_list_def)

lemma full_chunk:
  assumes m: "0 < m" and i: "Suc i < length (chunk_list buffer m)"
  shows "length (fst (chunk_list buffer m ! i)) = m"
proof -
  have "Suc i * m < length buffer"
    using i ceil_div_less [OF m, of "Suc i" "length buffer"] by (simp add: length_chunk_list)
  then show ?thesis using i by (auto simp: nth_chunk_list min_def)
qed

lemma nonempty_chunk:
  assumes m: "0 < m" and i: "i < length (chunk_list buffer m)"
  shows "fst (chunk_list buffer m ! i) \<noteq> [] \<and> length (fst (chunk_list buffer m ! i)) \<le> m"
proof -
  have "i * m < length buffer"
    using i ceil_div_less [OF m, of i "length buffer"] by (simp add: length_chunk_list)
  then show ?thesis using i m by (simp add: nth_chunk_list)
qed

lemma chunkify_zero_no_return:
  assumes "chunkify_loop buffer m fn pos s = Some y"
  shows "m = 0 \<longrightarrow> pos < length buffer \<longrightarrow> fst y \<noteq> Returned ()"
  by (rule chunkify_loop.raw_induct
        [where P = "\<lambda>buffer m fn pos s y. m = 0 \<longrightarrow> pos < length buffer \<longrightarrow> fst y \<noteq> Returned ()",
         OF _ assms])
     (auto simp: Let_def split: if_splits prod.splits outcome.splits)

lemma chunkify_zero_only_callback_exit:
  assumes ret: "chunkify_loop buffer m fn pos s = Some y"
    and quiet: "\<And>c p t. fst (fn c p t) = Returned ()"
  shows "m = 0 \<longrightarrow> pos < length buffer \<longrightarrow> False"
proof -
  have "fn = fn \<longrightarrow> m = 0 \<longrightarrow> pos < length buffer \<longrightarrow> False"
  proof (rule chunkify_loop.raw_induct
        [where P = "\<lambda>buffer m fn' pos s y. fn' = fn \<longrightarrow> m = 0 \<longrightarrow> pos < length buffer \<longrightarrow> False",
         OF _ ret], intro impI)
    fix loop' buffer m fn' pos s y
    assume IH: "\<And>buffer m fn' pos s y. loop' buffer m fn' pos s = Some y \<Longrightarrow>
                  fn' = fn \<longrightarrow> m = 0 \<longrightarrow> pos < length buffer \<longrightarrow> False"
      and step: "(if pos < length buffer then
          (let chunk_size = min m (length buffer - pos);
               chunk = take chunk_size (drop pos buffer)
           in case fn' chunk pos s of
                (Returned u, s') \<Rightarrow> loop' buffer m fn' (pos + chunk_size) s'
              | (Thrown e, s') \<Rightarrow> Some (Thrown e, s')
              | (Aborted, s') \<Rightarrow> Some (Aborted, s'))
        else Some (Returned (), s)) = Some y"
      and "fn' = fn" "m = 0" "pos < length buffer"
    obtain t where "fn [] pos s = (Returned (), t)"
      using quiet [of "[]" pos s] by (cases "fn [] pos s") auto
    with step \<open>fn' = fn\<close> \<open>m = 0\<close> \<open>pos < length buffer\<close>
    have "loop' buffer 0 fn pos t = Some y" by simp
    from IH [OF this] \<open>pos < length buffer\<close> show False by simp
  qed
  then show ?thesis by simp
qed

lemma chunkify_zero_diverges:
  assumes "\<forall>c p t. fst (fn c p t) = Returned ()" "pos < length buffer"
  shows "chunkify_loop buffer 0 fn pos s = None"
proof (cases "chunkify_loop buffer 0 fn pos s")
  case (Some y)
  from chunkify_zero_only_callback_exit [OF Some] assms show ?thesis by blast
qed simp

lemma call_each_record_chunk: "call_each record_chunk cs seen = (Returned (), seen @ cs)"
  by (induction cs arbitrary: seen) (auto simp: record_chunk_def)

lemma chunk_list_prefix_length:
  assumes m: "0 < m" and i: "i < length (chunk_list buffer m)"
  shows "length (concat (map fst (take i (chunk_list buffer m)))) = i * m"
proof -
  have lt: "i * m < length buffer"
    using i ceil_div_less [OF m, of i "length buffer"] by (simp add: length_chunk_list)
  have "take i (chunk_list buffer m) = map (\<lambda>i. (take m (drop (i * m) buffer), i * m)) [0..<i]"
    using i by (simp add: chunk_list_def take_map length_chunk_list)
  then have "concat (map fst (take i (chunk_list buffer m))) = take (i * m) buffer"
    using concat_chunk_list_aux [OF m, of buffer i] by (simp add: comp_def)
  then show ?thesis using lt by simp
qed

text \<open>
  Claim C4 (amended). For a chunk size above zero (or an empty buffer), chunkify calls the
  callback on a list of (chunk, offset) pairs, in order (and stops where the callback does
  not return): the chunks concatenated are the buffer; every chunk but the last has
  exactly the chunk size, none is empty or longer; each offset is the total length of the
  chunks before it (so the first is 0 and they are contiguous), and the offsets strictly
  increase. The claim as written ("for any chunk size") fails at chunk size 0, see
  \<open>chunkify_zero_chunk_counterexample\<close>.
\<close>

theorem chunkify_partitions_buffer:
  assumes "0 < m \<or> buffer = []"
  shows "\<exists>cs. (\<forall>fn s. chunkify buffer m fn s = Some (call_each fn cs s))
     \<and> chunkify buffer m record_chunk [] = Some (Returned (), cs)
     \<and> concat (map fst cs) = buffer
     \<and> (\<forall>i. Suc i < length cs \<longrightarrow> length (fst (cs ! i)) = m)
     \<and> (\<forall>i<length cs. fst (cs ! i) \<noteq> [] \<and> length (fst (cs ! i)) \<le> m)
     \<and> (\<forall>i<length cs. snd (cs ! i) = length (concat (map fst (take i cs))))
     \<and> (\<forall>i. Suc i < length cs \<longrightarrow> snd (cs ! i) < snd (cs ! Suc i))"
proof (cases "0 < m")
  case True
  let ?cs = "chunk_list buffer m"
  have run: "\<forall>fn s. chunkify buffer m fn s = Some (call_each fn ?cs s)"
    by (simp add: chunkify_chunk_list [OF True])
  have rec: "chunkify buffer m record_chunk [] = Some (Returned (), ?cs)"
    using chunkify_chunk_list [OF True, of buffer record_chunk "[]"]
    by (simp add: call_each_record_chunk)
  have cat: "concat (map fst ?cs) = buffer" by (rule concat_chunk_list [OF True])
  have full: "\<forall>i. Suc i < length ?cs \<longrightarrow> length (fst (?cs ! i)) = m"
    using full_chunk [OF True] by blast
  have ne: "\<forall>i<length ?cs. fst (?cs ! i) \<noteq> [] \<and> length (fst (?cs ! i)) \<le> m"
    using nonempty_chunk [OF True] by blast
  have off: "\<forall>i<length ?cs. snd (?cs ! i) = length (concat (map fst (take i ?cs)))"
    by (simp add: nth_chunk_list chunk_list_prefix_length [OF True])
  have inc: "\<forall>i. Suc i < length ?cs \<longrightarrow> snd (?cs ! i) < snd (?cs ! Suc i)"
    using True by (simp add: nth_chunk_list)
  from run rec cat full ne off inc show ?thesis by blast
next
  case False
  with assms have e: "buffer = []" and m: "m = 0" by auto
  have "\<forall>fn s. chunkify buffer m fn s = Some (call_each fn [] s)"
    by (simp add: e chunkify_def chunkify_loop_done)
  moreover have "chunkify buffer m record_chunk [] = Some (Returned (), [])"
    by (simp add: e chunkify_def chunkify_loop_done)
  ultimately show ?thesis using e by (intro exI [of _ "[]"]) simp
qed

text \<open>Witness for C4: a buffer of three elements in chunks of two.\<close>

theorem chunkify_partitions_buffer_witness:
  "(0 < (2::nat) \<or> [1, 2, 3 :: nat] = []) \<and>
   (\<exists>cs. chunkify [1, 2, 3 :: nat] 2 record_chunk [] = Some (Returned (), cs)
      \<and> concat (map fst cs) = [1, 2, 3])"
  using chunkify_partitions_buffer [of 2 "[1, 2, 3 :: nat]"] by auto

text \<open>
  Counterexample to C4 as written: with chunk size 0 and a one-element buffer, chunkify
  never returns (it hands the callback the empty chunk at offset 0 for ever), so no
  chunks that make up the buffer are produced.
\<close>

theorem chunkify_zero_chunk_counterexample:
  "chunkify [1 :: nat] 0 record_chunk [] = None"
  unfolding chunkify_def by (rule chunkify_zero_diverges) (simp_all add: record_chunk_def)

text \<open>
  Claim C9. chunkify returns for every buffer and callback when the chunk size is above
  zero; for the empty buffer it returns at once, whatever the chunk size, and the
  callback's state is untouched (no call). With chunk size 0 and a non-empty buffer the
  loop never advances: chunkify never returns normally, and with a callback that always
  returns it does not return at all (the only way out is an exception of the callback).
\<close>

theorem chunkify_terminates_iff_positive_chunk:
  "(0 < m \<longrightarrow> (\<exists>r. chunkify buffer m fn s = Some r))
   \<and> chunkify [] m fn s = Some (Returned (), s)
   \<and> (buffer \<noteq> [] \<longrightarrow> (\<forall>t. chunkify buffer 0 fn s \<noteq> Some (Returned (), t)))
   \<and> (buffer \<noteq> [] \<longrightarrow> (\<forall>c p t. fst (fn c p t) = Returned ()) \<longrightarrow> chunkify buffer 0 fn s = None)"
proof (intro conjI impI allI)
  assume "0 < m"
  then show "\<exists>r. chunkify buffer m fn s = Some r" by (simp add: chunkify_chunk_list)
next
  show "chunkify [] m fn s = Some (Returned (), s)"
    by (simp add: chunkify_def chunkify_loop_done)
next
  fix t assume "buffer \<noteq> []"
  then show "chunkify buffer 0 fn s \<noteq> Some (Returned (), t)"
    using chunkify_zero_no_return [of buffer 0 fn 0 s "(Returned (), t)"]
    by (auto simp: chunkify_def)
next
  assume "buffer \<noteq> []" "\<forall>c p t. fst (fn c p t) = Returned ()"
  then show "chunkify buffer 0 fn s = None"
    unfolding chunkify_def by (intro chunkify_zero_diverges) simp_all
qed

text \<open>Witness for C9: chunk sizes 2 and 0 on a three-element buffer, and the empty buffer.\<close>

theorem chunkify_terminates_iff_positive_chunk_witness:
  "(\<exists>r. chunkify [1, 2, 3 :: nat] 2 record_chunk [] = Some r)
   \<and> chunkify ([] :: nat list) 0 record_chunk [] = Some (Returned (), [])
   \<and> chunkify [1, 2, 3 :: nat] 0 record_chunk [] = None"
  using chunkify_terminates_iff_positive_chunk [of 2 "[1, 2, 3 :: nat]" record_chunk "[]"]
        chunkify_terminates_iff_positive_chunk [of 0 "[1, 2, 3 :: nat]" record_chunk "[]"]
  by (simp add: record_chunk_def)

subsection \<open>Basic facts about the model\<close>

lemma derived_target_simps [simp]:
  "getName (derived_target name domain wr rd) = name"
  "getDomain (derived_target name domain wr rd) = domain"
  "write' (derived_target name domain wr rd) = wr"
  "read (derived_target name domain wr rd) = rd"
  by (simp_all add: derived_target_def Let_def)

lemmas wrapper_defs =
  lifecycle_def lifecycle_finish_def opStart_def opEnd_def opError_def opExtra_def emit_def
  on_target_def on_target_buf_def drop_buf_def unit_buf_def no_extra_def

lemma seqWrite_loop_cong:
  assumes "write' T = write' T'"
  shows "IRegisterTarget_seqWrite_loop T start_addr data increment i s =
         IRegisterTarget_seqWrite_loop T' start_addr data increment i s"
proof (induction "length data - i" arbitrary: i s)
  case 0
  then show ?case
    by (subst IRegisterTarget_seqWrite_loop.simps, subst (2) IRegisterTarget_seqWrite_loop.simps) simp
next
  case (Suc n)
  have IH: "\<And>s1. IRegisterTarget_seqWrite_loop T start_addr data increment (Suc i) s1 =
         IRegisterTarget_seqWrite_loop T' start_addr data increment (Suc i) s1"
    using Suc.hyps(1) [of "Suc i"] Suc.hyps(2) by simp
  show ?case
    by (subst IRegisterTarget_seqWrite_loop.simps, subst (2) IRegisterTarget_seqWrite_loop.simps)
       (simp add: IH assms split: prod.splits outcome.splits)
qed

lemma seqRead_loop_cong:
  assumes "read T = read T'"
  shows "IRegisterTarget_seqRead_loop T start_addr out_data increment i s =
         IRegisterTarget_seqRead_loop T' start_addr out_data increment i s"
proof (induction "length out_data - i" arbitrary: i s out_data)
  case 0
  then show ?case
    by (subst IRegisterTarget_seqRead_loop.simps, subst (2) IRegisterTarget_seqRead_loop.simps) simp
next
  case (Suc n)
  have IH: "\<And>s1 v. IRegisterTarget_seqRead_loop T start_addr (out_data[i := v]) increment (Suc i) s1 =
         IRegisterTarget_seqRead_loop T' start_addr (out_data[i := v]) increment (Suc i) s1"
    using Suc.hyps(1) [of _ "Suc i"] Suc.hyps(2) by simp
  show ?case
    by (subst IRegisterTarget_seqRead_loop.simps, subst (2) IRegisterTarget_seqRead_loop.simps)
       (simp add: IH assms split: prod.splits outcome.splits)
qed

lemma fifoWrite_cong:
  assumes "write' T = write' T'"
  shows "IRegisterTarget_fifoWrite T fifo_addr data s = IRegisterTarget_fifoWrite T' fifo_addr data s"
  by (induction data arbitrary: s) (simp_all add: assms split: prod.splits outcome.splits)

lemma fifoRead_loop_cong:
  assumes "read T = read T'"
  shows "IRegisterTarget_fifoRead_loop T fifo_addr out_data i s =
         IRegisterTarget_fifoRead_loop T' fifo_addr out_data i s"
proof (induction "length out_data - i" arbitrary: i s out_data)
  case 0
  then show ?case
    by (subst IRegisterTarget_fifoRead_loop.simps, subst (2) IRegisterTarget_fifoRead_loop.simps) simp
next
  case (Suc n)
  have IH: "\<And>s1 v. IRegisterTarget_fifoRead_loop T fifo_addr (out_data[i := v]) (Suc i) s1 =
         IRegisterTarget_fifoRead_loop T' fifo_addr (out_data[i := v]) (Suc i) s1"
    using Suc.hyps(1) [of _ "Suc i"] Suc.hyps(2) by simp
  show ?case
    by (subst IRegisterTarget_fifoRead_loop.simps, subst (2) IRegisterTarget_fifoRead_loop.simps)
       (simp add: IH assms split: prod.splits outcome.splits)
qed

lemma compWrite_cong:
  assumes "write' T = write' T'"
  shows "IRegisterTarget_compWrite T addr_data s = IRegisterTarget_compWrite T' addr_data s"
  by (induction addr_data arbitrary: s) (simp_all add: assms split: prod.splits outcome.splits)

lemma compRead_loop_cong:
  assumes "read T = read T'"
  shows "IRegisterTarget_compRead_loop T addresses out_data i s =
         IRegisterTarget_compRead_loop T' addresses out_data i s"
proof (induction "length addresses - i" arbitrary: i s out_data)
  case 0
  then show ?case
    by (subst IRegisterTarget_compRead_loop.simps, subst (2) IRegisterTarget_compRead_loop.simps) simp
next
  case (Suc n)
  have IH: "\<And>s1 v. IRegisterTarget_compRead_loop T addresses (span_store out_data i v) (Suc i) s1 =
         IRegisterTarget_compRead_loop T' addresses (span_store out_data i v) (Suc i) s1"
    using Suc.hyps(1) [of "Suc i"] Suc.hyps(2) by simp
  show ?case
    by (subst IRegisterTarget_compRead_loop.simps, subst (2) IRegisterTarget_compRead_loop.simps)
       (simp add: IH assms split: prod.splits outcome.splits)
qed

lemma default_ops_cong:
  "write' T = write' T' \<Longrightarrow> read T = read T' \<Longrightarrow>
     IRegisterTarget_readModifyWrite T = IRegisterTarget_readModifyWrite T'"
  "write' T = write' T' \<Longrightarrow> IRegisterTarget_seqWrite T = IRegisterTarget_seqWrite T'"
  "read T = read T' \<Longrightarrow> IRegisterTarget_seqRead T = IRegisterTarget_seqRead T'"
  "write' T = write' T' \<Longrightarrow> IRegisterTarget_fifoWrite T = IRegisterTarget_fifoWrite T'"
  "read T = read T' \<Longrightarrow> IRegisterTarget_fifoRead T = IRegisterTarget_fifoRead T'"
  "write' T = write' T' \<Longrightarrow> IRegisterTarget_compWrite T = IRegisterTarget_compWrite T'"
  "read T = read T' \<Longrightarrow> IRegisterTarget_compRead b T = IRegisterTarget_compRead b T'"
proof -
  show "write' T = write' T' \<Longrightarrow> read T = read T' \<Longrightarrow>
     IRegisterTarget_readModifyWrite T = IRegisterTarget_readModifyWrite T'"
    by (intro ext) (simp add: IRegisterTarget_readModifyWrite_def split: prod.splits outcome.splits)
  show "write' T = write' T' \<Longrightarrow> IRegisterTarget_seqWrite T = IRegisterTarget_seqWrite T'"
    by (intro ext) (simp add: IRegisterTarget_seqWrite_def seqWrite_loop_cong [of T T'])
  show "read T = read T' \<Longrightarrow> IRegisterTarget_seqRead T = IRegisterTarget_seqRead T'"
    by (intro ext) (simp add: IRegisterTarget_seqRead_def seqRead_loop_cong [of T T'])
  show "write' T = write' T' \<Longrightarrow> IRegisterTarget_fifoWrite T = IRegisterTarget_fifoWrite T'"
    by (intro ext) (simp add: fifoWrite_cong [of T T'])
  show "read T = read T' \<Longrightarrow> IRegisterTarget_fifoRead T = IRegisterTarget_fifoRead T'"
    by (intro ext) (simp add: IRegisterTarget_fifoRead_def fifoRead_loop_cong [of T T'])
  show "write' T = write' T' \<Longrightarrow> IRegisterTarget_compWrite T = IRegisterTarget_compWrite T'"
    by (intro ext) (simp add: compWrite_cong [of T T'])
  show "read T = read T' \<Longrightarrow> IRegisterTarget_compRead b T = IRegisterTarget_compRead b T'"
    by (intro ext) (simp add: IRegisterTarget_compRead_def compRead_loop_cong [of T T'])
qed

lemma derived_target_virtuals [simp]:
  "readModifyWrite (derived_target name domain wr rd) =
     IRegisterTarget_readModifyWrite (derived_target name domain wr rd)"
  "seqWrite (derived_target name domain wr rd) = IRegisterTarget_seqWrite (derived_target name domain wr rd)"
  "seqRead (derived_target name domain wr rd) = IRegisterTarget_seqRead (derived_target name domain wr rd)"
  "fifoWrite (derived_target name domain wr rd) = IRegisterTarget_fifoWrite (derived_target name domain wr rd)"
  "fifoRead (derived_target name domain wr rd) = IRegisterTarget_fifoRead (derived_target name domain wr rd)"
  "compWrite (derived_target name domain wr rd) = IRegisterTarget_compWrite (derived_target name domain wr rd)"
  "compRead (derived_target name domain wr rd) = IRegisterTarget_compRead False (derived_target name domain wr rd)"
  unfolding derived_target_def Let_def
  by (simp_all, (rule default_ops_cong; simp)+)

lemma built_with_NDEBUG_simps [simp]:
  "getName (built_with_NDEBUG T) = getName T"
  "getDomain (built_with_NDEBUG T) = getDomain T"
  "write' (built_with_NDEBUG T) = write' T"
  "read (built_with_NDEBUG T) = read T"
  "compRead (built_with_NDEBUG T) = IRegisterTarget_compRead True (built_with_NDEBUG T)"
proof -
  have "IRegisterTarget_compRead True T = IRegisterTarget_compRead True (built_with_NDEBUG T)"
    by (intro ext)
       (simp add: IRegisterTarget_compRead_def
          compRead_loop_cong [of T "built_with_NDEBUG T"] built_with_NDEBUG_def)
  then show "compRead (built_with_NDEBUG T) = IRegisterTarget_compRead True (built_with_NDEBUG T)"
    by (simp add: built_with_NDEBUG_def)
qed (simp_all add: built_with_NDEBUG_def)

lemma fold_emit_dev [simp]: "dev (fold (\<lambda>a. emit F (g a)) xs w) = dev w"
  by (induction xs arbitrary: w) (simp_all add: emit_def)

lemma fold_emit_now [simp]: "now (fold (\<lambda>a. emit F (g a)) xs w) = now w"
  by (induction xs arbitrary: w) (simp_all add: emit_def)

lemma fold_emit_observed:
  "observed (fold (\<lambda>a. emit F (g a)) xs w) = observed w @ (if interposer F then map g xs else [])"
  by (induction xs arbitrary: w) (simp_all add: emit_def)

lemma how_many_simps [simp]:
  "how_many P [] = 0"
  "how_many P (h # hs) = (if P h then Suc (how_many P hs) else how_many P hs)"
  "how_many P (hs @ hs') = how_many P hs + how_many P hs'"
  by (simp_all add: how_many_def)

subsection \<open>writeVerify writes the data as given\<close>

text \<open>
  Claim C1 (the code departs from it). \<^verbatim>\<open>writeVerify(0x10, 0xFF, 0x0F)\<close> on a
  SimpleDummyRegisterTarget behind a spy: the one write the target receives carries the
  raw data 0xFF, not \<^verbatim>\<open>data & mask = 0x0F\<close>; the read-back 0xFF passes the masked
  comparison, the operation succeeds and the register is left holding 0xFF.
\<close>

theorem writeVerify_writes_raw_data:
  "FluentRegisterTarget_writeVerify \<lparr>interposer = False, target = spy dut\<rparr> 0x10 0xFF 0x0F []
     \<lparr>dev = (Map.empty, []), observed = [], now = 0\<rparr>
   = (Returned (),
      \<lparr>dev = ([0x10 \<mapsto> 0xFF], [WriteAccess 0x10 0xFF, ReadAccess 0x10 (Some 0xFF)]),
       observed = [], now = 0\<rparr>)"
  by (simp add: FluentRegisterTarget_writeVerify_def writeVerify_body_def wrapper_defs spy_def dut_def
        SimpleDummyRegisterTarget_def)

subsection \<open>The lifecycle of a wrapped operation\<close>

lemma adds_extras_id [simp]: "adds_extras id" "adds_extras (no_extra x)"
  by (simp_all add: adds_extras_def no_extra_def)

lemma adds_extras_opExtra [simp]: "adds_extras (opExtra F d)"
  by (auto simp: adds_extras_def opExtra_def emit_def intro: exI [of _ "[]"])

lemma adds_extras_fold:
  "adds_extras (fold (\<lambda>a. emit F (OpExtra d n (g a))) xs)"
  unfolding adds_extras_def
proof
  fix w
  show "\<exists>E. list_all is_OpExtra E \<and>
          observed (fold (\<lambda>a. emit F (OpExtra d n (g a))) xs w) = observed w @ E"
    by (rule exI [of _ "if interposer F then map (\<lambda>a. OpExtra d n (g a)) xs else []"])
       (auto simp: fold_emit_observed list_all_iff)
qed

lemma adds_extras_spans [simp]:
  "adds_extras (opExtra_span F data)"
  "adds_extras (opExtra_addresses F addresses)"
  "adds_extras (opExtra_pairs F addr_data)"
  using adds_extras_fold [of F _ _ "\<lambda>d. Format ''0x{:0{}x}'' [Data d]" data]
        adds_extras_fold [of F _ _ "\<lambda>a. Format ''0x{:0{}x}'' [Addr a]" addresses]
        adds_extras_fold [of F _ _ "\<lambda>ad. Format ''0x{:0{}x} 0x{:0{}x}'' [Addr (fst ad), Data (snd ad)]" addr_data]
  by (simp_all add: opExtra_span_def [abs_def] opExtra_addresses_def [abs_def] opExtra_pairs_def [abs_def]
        opExtra_def [abs_def])

lemma unobserved_on_target [simp]:
  "unobserved (\<lambda>w1. unit_buf (on_target f w1))"
  "unobserved (on_target_buf g)"
  by (simp_all add: unobserved_def unit_buf_def on_target_def on_target_buf_def split: prod.splits)

lemma lifecycle_finish_events:
  assumes I: "interposer F" and post: "\<And>x. adds_extras (post x)"
  shows "\<exists>E. list_all is_OpExtra E \<and>
           observed (snd (snd (lifecycle_finish F post (r, x, w2)))) =
             observed w2 @ E @ terminal_events F r"
proof (cases r)
  case (Returned u)
  from post [of x] obtain E where "list_all is_OpExtra E" "observed (post x w2) = observed w2 @ E"
    unfolding adds_extras_def by blast
  with Returned I show ?thesis
    by (intro exI [of _ E]) (simp add: lifecycle_finish_def opEnd_def emit_def terminal_events_def)
next
  case (Thrown e)
  with I show ?thesis
    by (intro exI [of _ "[]"]) (simp add: lifecycle_finish_def opError_def emit_def terminal_events_def)
next
  case Aborted
  then show ?thesis
    by (intro exI [of _ "[]"]) (simp add: lifecycle_finish_def terminal_events_def)
qed

lemma lifecycle_finish_outcome [simp]:
  "fst (lifecycle_finish F post (r, x, w2)) = r"
  by (cases r) (simp_all add: lifecycle_finish_def)

lemma lifecycle_events:
  fixes F :: "('s, 'a, 'd::len word) FluentRegisterTarget"
  assumes I: "interposer F" and pre: "adds_extras pre" and body: "unobserved body"
    and post: "\<And>x. adds_extras (post x)"
  shows "\<exists>evs. observed (snd (snd (lifecycle F m pre body post w))) = observed w @ evs
           \<and> lifecycle_ok F (fst (lifecycle F m pre body post w)) evs"
proof -
  define w0 where "w0 = opStart F m w"
  from pre obtain E1 where E1: "list_all is_OpExtra E1" "observed (pre w0) = observed w0 @ E1"
    unfolding adds_extras_def by blast
  obtain r x w2 where b: "body (pre w0) = (r, x, w2)" by (cases "body (pre w0)") auto
  have "observed (snd (snd (body (pre w0)))) = observed (pre w0)"
    using body unfolding unobserved_def by blast
  then have w2: "observed w2 = observed (pre w0)" by (simp add: b)
  from lifecycle_finish_events [where F = F and post = post and r = r and x = x and ?w2.0 = w2,
      OF I post]
  obtain E2 where E2: "list_all is_OpExtra E2"
    "observed (snd (snd (lifecycle_finish F post (r, x, w2)))) = observed w2 @ E2 @ terminal_events F r"
    by (elim exE conjE)
  have st: "observed w0 = observed w @ [OpStart ''FluentRegisterTarget'' (getName (target F)) m]"
    using I by (simp add: w0_def opStart_def emit_def)
  have lc: "lifecycle F m pre body post w = lifecycle_finish F post (r, x, w2)"
    by (simp only: lifecycle_def b [unfolded w0_def])
  have obs: "observed (snd (snd (lifecycle F m pre body post w))) =
          observed w @ (OpStart ''FluentRegisterTarget'' (getName (target F)) m # (E1 @ E2) @ terminal_events F r)"
    by (simp only: lc E2(2) w2 E1(2) st append_assoc append_Cons append_Nil)
  have ok: "lifecycle_ok F (fst (lifecycle F m pre body post w))
              (OpStart ''FluentRegisterTarget'' (getName (target F)) m # (E1 @ E2) @ terminal_events F r)"
    unfolding lifecycle_ok_def lc lifecycle_finish_outcome
    using E1(1) E2(1) by (intro exI [of _ m] exI [of _ "E1 @ E2"]) simp
  show ?thesis
    by (rule exI [of _ "OpStart ''FluentRegisterTarget'' (getName (target F)) m # (E1 @ E2) @ terminal_events F r"])
       (rule conjI [OF obs ok])
qed

lemma lifecycle_events_drop_buf:
  fixes F :: "('s, 'a, 'd::len word) FluentRegisterTarget"
  assumes "interposer F" "adds_extras pre" "unobserved body" "\<And>x. adds_extras (post x)"
    and eq: "drop_buf (lifecycle F m pre body post w) = (r, w1)"
  shows "\<exists>evs. observed w1 = observed w @ evs \<and> lifecycle_ok F r evs"
proof -
  have "r = fst (lifecycle F m pre body post w)" "w1 = snd (snd (lifecycle F m pre body post w))"
    using eq by (simp_all add: drop_buf_def)
  then show ?thesis
    using lifecycle_events [where F = F and pre = pre and body = body and post = post and m = m and w = w,
            OF assms(1-4)]
    by simp
qed

lemma lifecycle_events_drop_out:
  fixes F :: "('s, 'a, 'd::len word) FluentRegisterTarget"
  assumes "interposer F" "adds_extras pre" "unobserved body" "\<And>x. adds_extras (post x)"
    and eq: "drop_out (lifecycle F m pre body post w) = (r, w1)"
  shows "\<exists>evs. observed w1 = observed w @ evs \<and> lifecycle_ok F r evs"
proof -
  have "r = fst (lifecycle F m pre body post w)" "w1 = snd (snd (lifecycle F m pre body post w))"
    using eq by (simp_all add: drop_out_def)
  then show ?thesis
    using lifecycle_events [where F = F and pre = pre and body = body and post = post and m = m and w = w,
            OF assms(1-4)]
    by simp
qed

lemma unobserved_simple [simp]:
  "unobserved (\<lambda>w1. (Returned (), (), w1))"
  "unobserved (\<lambda>w1. (Returned (), (), w1\<lparr>now := t w1\<rparr>))"
  "unobserved (\<lambda>w1. case on_target f w1 of
                (Returned v, w2) \<Rightarrow> (Returned (), v, w2)
              | (Thrown e, w2) \<Rightarrow> (Thrown e, out_data, w2)
              | (Aborted, w2) \<Rightarrow> (Aborted, out_data, w2))"
  by (simp_all add: unobserved_def on_target_def split: prod.splits outcome.splits)

lemma pollRead_events:
  fixes F :: "('s, 'a, 'd::len word) FluentRegisterTarget"
  assumes I: "interposer F"
    and res: "FluentRegisterTarget_pollRead F poller addr expected msk msg w = Some (r, w1)"
  shows "\<exists>evs. observed w1 = observed w @ evs \<and> lifecycle_ok F r evs"
proof -
  define m :: "('a, 'd word) message" where
    "m = Format ''PollRead(0x{:0{}x}, 0x{:0{}x}, 0x{:0{}x}): {}'' [Addr addr, Data expected, Data msk, Text msg]"
  define w0 where "w0 = opStart F m w"
  from res obtain r2 w2 where
    b: "pollRead_body poller (target F) addr expected msk w0 = Some (r2, (), w2)"
    and fin: "drop_buf (lifecycle_finish F no_extra (r2, (), w2)) = (r, w1)"
    by (auto simp: FluentRegisterTarget_pollRead_def w0_def m_def)
  have w2: "observed w2 = observed w0"
    using b by (auto simp: pollRead_body_def Let_def split: option.splits prod.splits)
  have st: "observed w0 = observed w @ [OpStart ''FluentRegisterTarget'' (getName (target F)) m]"
    using I by (simp add: w0_def opStart_def emit_def)
  from lifecycle_finish_events [where F = F and post = no_extra and r = r2 and x = "()" and ?w2.0 = w2, OF I]
  obtain E2 where E2: "list_all is_OpExtra E2"
    "observed (snd (snd (lifecycle_finish F no_extra (r2, (), w2)))) = observed w2 @ E2 @ terminal_events F r2"
    by auto
  have r: "r = r2" and w1: "w1 = snd (snd (lifecycle_finish F no_extra (r2, (), w2)))"
    using fin by (auto simp: drop_buf_def)
  have obs: "observed w1 = observed w @ (OpStart ''FluentRegisterTarget'' (getName (target F)) m # E2 @ terminal_events F r)"
    by (simp only: w1 E2(2) w2 st r append_assoc append_Cons append_Nil)
  have ok: "lifecycle_ok F r (OpStart ''FluentRegisterTarget'' (getName (target F)) m # E2 @ terminal_events F r)"
    unfolding lifecycle_ok_def using E2(1) by blast
  show ?thesis
    by (rule exI [of _ "OpStart ''FluentRegisterTarget'' (getName (target F)) m # E2 @ terminal_events F r"])
       (rule conjI [OF obs ok])
qed

lemma invoke_lifecycle:
  fixes F :: "('s, 'a, 'd::len word) FluentRegisterTarget"
  assumes I: "interposer F" and res: "invoke F req w = Some (r, w1)"
  shows "\<exists>evs. observed w1 = observed w @ evs \<and> lifecycle_ok F r evs"
proof (cases req)
  case (Null msg)
  with res have "FluentRegisterTarget_null F msg w = (r, w1)" by simp
  then show ?thesis
    unfolding FluentRegisterTarget_null_def
    by (rule lifecycle_events_drop_buf [where F = F, OF I adds_extras_id(1) unobserved_simple(1) adds_extras_id(2)])
next
  case (Delay delay msg)
  with res have "FluentRegisterTarget_delay F delay msg w = (r, w1)" by simp
  then show ?thesis
    unfolding FluentRegisterTarget_delay_def
    by (rule lifecycle_events_drop_buf [where F = F, OF I adds_extras_id(1) unobserved_simple(2) adds_extras_id(2)])
next
  case (Write addr data msg)
  with res have "FluentRegisterTarget_write F addr data msg w = (r, w1)" by simp
  then show ?thesis
    unfolding FluentRegisterTarget_write_def
    by (rule lifecycle_events_drop_buf [where F = F, OF I adds_extras_id(1) unobserved_on_target(1) adds_extras_id(2)])
next
  case (Read addr out_data msg)
  with res have "drop_out (FluentRegisterTarget_read F addr out_data msg w) = (r, w1)" by simp
  then show ?thesis
    unfolding FluentRegisterTarget_read_def
    by (rule lifecycle_events_drop_out [where F = F, OF I adds_extras_id(1) unobserved_simple(3) adds_extras_opExtra])
next
  case (ReadModifyWrite addr new_data msk msg)
  with res have "FluentRegisterTarget_readModifyWrite F addr new_data msk msg w = (r, w1)" by simp
  then show ?thesis
    unfolding FluentRegisterTarget_readModifyWrite_def
    by (rule lifecycle_events_drop_buf [where F = F, OF I adds_extras_id(1) unobserved_on_target(1) adds_extras_id(2)])
next
  case (SeqWrite start_addr data increment msg)
  with res have "FluentRegisterTarget_seqWrite F start_addr data increment msg w = (r, w1)" by simp
  then show ?thesis
    unfolding FluentRegisterTarget_seqWrite_def
    by (rule lifecycle_events_drop_buf [where F = F, OF I adds_extras_spans(1) unobserved_on_target(1) adds_extras_id(2)])
next
  case (SeqRead start_addr out_data increment msg)
  with res have "drop_out (FluentRegisterTarget_seqRead F start_addr out_data increment msg w) = (r, w1)" by simp
  then show ?thesis
    unfolding FluentRegisterTarget_seqRead_def
    by (rule lifecycle_events_drop_out [where F = F, OF I adds_extras_id(1) unobserved_on_target(2) adds_extras_spans(1)])
next
  case (FifoWrite fifo_addr data msg)
  with res have "FluentRegisterTarget_fifoWrite F fifo_addr data msg w = (r, w1)" by simp
  then show ?thesis
    unfolding FluentRegisterTarget_fifoWrite_def
    by (rule lifecycle_events_drop_buf [where F = F, OF I adds_extras_spans(1) unobserved_on_target(1) adds_extras_id(2)])
next
  case (FifoRead fifo_addr out_data msg)
  with res have "drop_out (FluentRegisterTarget_fifoRead F fifo_addr out_data msg w) = (r, w1)" by simp
  then show ?thesis
    unfolding FluentRegisterTarget_fifoRead_def
    by (rule lifecycle_events_drop_out [where F = F, OF I adds_extras_id(1) unobserved_on_target(2) adds_extras_spans(1)])
next
  case (CompWrite addr_data msg)
  with res have "FluentRegisterTarget_compWrite F addr_data msg w = (r, w1)" by simp
  then show ?thesis
    unfolding FluentRegisterTarget_compWrite_def
    by (rule lifecycle_events_drop_buf [where F = F, OF I adds_extras_spans(3) unobserved_on_target(1) adds_extras_id(2)])
next
  case (CompRead addresses out_data msg)
  with res have "drop_out (FluentRegisterTarget_compRead F addresses out_data msg w) = (r, w1)" by simp
  then show ?thesis
    unfolding FluentRegisterTarget_compRead_def
    by (rule lifecycle_events_drop_out [where F = F, OF I adds_extras_spans(2) unobserved_on_target(2) adds_extras_spans(1)])
next
  case (WriteVerify addr data msk msg)
  with res have "FluentRegisterTarget_writeVerify F addr data msk msg w = (r, w1)" by simp
  then show ?thesis
    unfolding FluentRegisterTarget_writeVerify_def
    by (rule lifecycle_events_drop_buf [where F = F, OF I adds_extras_id(1) unobserved_on_target(1) adds_extras_id(2)])
next
  case (ReadVerify addr expected msk msg)
  with res have "FluentRegisterTarget_readVerify F addr expected msk msg w = (r, w1)" by simp
  then show ?thesis
    unfolding FluentRegisterTarget_readVerify_def
    by (rule lifecycle_events_drop_buf [where F = F, OF I adds_extras_id(1) unobserved_on_target(1) adds_extras_id(2)])
next
  case (PollRead poller addr expected msk msg)
  with res have "FluentRegisterTarget_pollRead F poller addr expected msk msg w = Some (r, w1)" by simp
  from pollRead_events [OF I this] show ?thesis .
qed

lemma silent_simps [simp]:
  "silent id" "silent (no_extra x)" "silent (emit F h)" "silent (opStart F m)" "silent (opExtra F d)"
  "silent (opExtra_span F data)" "silent (opExtra_addresses F addresses)" "silent (opExtra_pairs F addr_data)"
  "silent (opEnd F)" "silent (opError F m)"
proof -
  show "silent id" "silent (no_extra x)" "silent (emit F h)" "silent (opStart F m)" "silent (opExtra F d)"
    "silent (opEnd F)" "silent (opError F m)"
    by (simp_all add: silent_def no_extra_def emit_def opStart_def opExtra_def opEnd_def opError_def)
  show "silent (opExtra_span F data)" "silent (opExtra_addresses F addresses)"
    "silent (opExtra_pairs F addr_data)"
    by (simp_all add: silent_def opExtra_span_def opExtra_def [abs_def] opExtra_addresses_def
          opExtra_pairs_def)
qed

lemma blind_simps [simp]:
  "blind (\<lambda>w1. unit_buf (on_target f w1))"
  "blind (on_target_buf g)"
  "blind (\<lambda>w1. (Returned (), (), w1))"
  "blind (\<lambda>w1. (Returned (), (), w1\<lparr>now := sleep_for delay (now w1)\<rparr>))"
  "blind (\<lambda>w1. case on_target f w1 of
                (Returned v, w2) \<Rightarrow> (Returned (), v, w2)
              | (Thrown e, w2) \<Rightarrow> (Thrown e, out_data, w2)
              | (Aborted, w2) \<Rightarrow> (Aborted, out_data, w2))"
  by (simp_all add: blind_def unit_buf_def on_target_def on_target_buf_def
        split: prod.splits outcome.splits)

lemma lifecycle_finish_seen:
  assumes "\<And>x. silent (post x)" "\<And>x. silent (post' x)" "dev w2 = dev w2'" "now w2 = now w2'"
  shows "fst (lifecycle_finish F post (r, x, w2)) = fst (lifecycle_finish F' post' (r, x, w2'))
       \<and> fst (snd (lifecycle_finish F post (r, x, w2))) = fst (snd (lifecycle_finish F' post' (r, x, w2')))
       \<and> dev (snd (snd (lifecycle_finish F post (r, x, w2)))) = dev (snd (snd (lifecycle_finish F' post' (r, x, w2'))))
       \<and> now (snd (snd (lifecycle_finish F post (r, x, w2)))) = now (snd (snd (lifecycle_finish F' post' (r, x, w2'))))"
  using assms
  by (cases r) (simp_all add: lifecycle_finish_def silent_def opEnd_def opError_def emit_def)

lemma lifecycle_seen:
  assumes pre: "silent pre" "silent pre'" and body: "blind body"
    and post: "\<And>x. silent (post x)" "\<And>x. silent (post' x)"
  shows "fst (lifecycle F m pre body post w) = fst (lifecycle F' m' pre' body post' w)
       \<and> fst (snd (lifecycle F m pre body post w)) = fst (snd (lifecycle F' m' pre' body post' w))
       \<and> dev (snd (snd (lifecycle F m pre body post w))) = dev (snd (snd (lifecycle F' m' pre' body post' w)))
       \<and> now (snd (snd (lifecycle F m pre body post w))) = now (snd (snd (lifecycle F' m' pre' body post' w)))"
proof -
  define u where "u = pre (opStart F m w)"
  define u' where "u' = pre' (opStart F' m' w)"
  have uu: "dev u = dev u'" "now u = now u'"
    using pre by (simp_all add: u_def u'_def silent_def opStart_def emit_def)
  obtain r x w2 where b: "body u = (r, x, w2)" by (cases "body u") auto
  obtain r' x' w2' where b': "body u' = (r', x', w2')" by (cases "body u'") auto
  have same: "r = r'" "x = x'" "dev w2 = dev w2'" "now w2 = now w2'"
    using body [unfolded blind_def, rule_format, of u u'] uu b b' by simp_all
  show ?thesis
    unfolding lifecycle_def u_def [symmetric] u'_def [symmetric] b b' same(1,2) [symmetric]
    by (rule lifecycle_finish_seen [OF post same(3,4)])
qed

lemma caller_view_drop_buf:
  assumes "silent pre" "silent pre'" "blind body" "\<And>x. silent (post x)" "\<And>x. silent (post' x)"
  shows "caller_view (drop_buf (lifecycle F m pre body post w)) = caller_view (drop_buf (lifecycle F' m' pre' body post' w))"
  using lifecycle_seen [where F = F and F' = F' and pre = pre and pre' = pre' and body = body
          and post = post and post' = post' and m = m and m' = m' and w = w, OF assms]
  by (simp add: caller_view_def drop_buf_def)

lemma caller_view_drop_out:
  assumes "silent pre" "silent pre'" "blind body" "\<And>x. silent (post x)" "\<And>x. silent (post' x)"
  shows "caller_view (drop_out (lifecycle F m pre body post w)) = caller_view (drop_out (lifecycle F' m' pre' body post' w))"
  using lifecycle_seen [where F = F and F' = F' and pre = pre and pre' = pre' and body = body
          and post = post and post' = post' and m = m and m' = m' and w = w, OF assms]
  by (simp add: caller_view_def drop_out_def)

lemma pollRead_seen:
  assumes T: "target F' = target F"
  shows "map_option caller_view (FluentRegisterTarget_pollRead F poller addr expected msk msg w)
       = map_option caller_view (FluentRegisterTarget_pollRead F' poller addr expected msk msg w)"
proof -
  define m :: "('b, 'c word) message" where
    "m = Format ''PollRead(0x{:0{}x}, 0x{:0{}x}, 0x{:0{}x}): {}'' [Addr addr, Data expected, Data msk, Text msg]"
  define u where "u = opStart F m w"
  define u' where "u' = opStart F' m w"
  have uu: "dev u = dev u'" "now u = now u'"
    by (simp_all add: u_def u'_def opStart_def emit_def)
  show ?thesis
  proof (cases "poller (pollRead_check (target F) addr (expected AND msk) msk) (0, dev u) (now u)")
    case None
    then show ?thesis
      using uu by (simp add: FluentRegisterTarget_pollRead_def pollRead_body_def Let_def T
            u_def [symmetric] u'_def [symmetric] m_def [symmetric])
  next
    case (Some res)
    obtain r c t1 where res: "res = (r, c, t1)" by (cases res) auto
    define r2 where "r2 = (case r of
                     Returned success \<Rightarrow>
                       if \<not> success then Thrown (new_PollReadTimeoutException (expected AND msk) msk (fst c))
                       else Returned ()
                   | Thrown e \<Rightarrow> Thrown e
                   | Aborted \<Rightarrow> Aborted)"
    have b: "pollRead_body poller (target F) addr expected msk u = Some (r2, (), u\<lparr>dev := snd c, now := t1\<rparr>)"
      using Some res by (simp add: pollRead_body_def Let_def r2_def)
    have b': "pollRead_body poller (target F') addr expected msk u' = Some (r2, (), u'\<lparr>dev := snd c, now := t1\<rparr>)"
      using Some res uu by (simp add: pollRead_body_def Let_def r2_def T)
    have "caller_view (drop_buf (lifecycle_finish F no_extra (r2, (), u\<lparr>dev := snd c, now := t1\<rparr>)))
        = caller_view (drop_buf (lifecycle_finish F' no_extra (r2, (), u'\<lparr>dev := snd c, now := t1\<rparr>)))"
      using lifecycle_finish_seen [where F = F and F' = F' and post = no_extra and post' = no_extra
              and r = r2 and x = "()" and ?w2.0 = "u\<lparr>dev := snd c, now := t1\<rparr>"
              and ?w2'.0 = "u'\<lparr>dev := snd c, now := t1\<rparr>"]
      by (simp add: caller_view_def drop_buf_def)
    then show ?thesis
      by (simp add: FluentRegisterTarget_pollRead_def u_def [symmetric] u'_def [symmetric]
            m_def [symmetric] b b')
  qed
qed

lemma invoke_caller_view:
  assumes T: "target F' = target F"
  shows "map_option caller_view (invoke F req w) = map_option caller_view (invoke F' req w)"
proof (cases req)
  case (Null msg)
  show ?thesis unfolding Null invoke.simps option.map FluentRegisterTarget_null_def option.inject
    by (rule caller_view_drop_buf) simp_all
next
  case (Delay delay msg)
  show ?thesis unfolding Delay invoke.simps option.map FluentRegisterTarget_delay_def option.inject
    by (rule caller_view_drop_buf) simp_all
next
  case (Write addr data msg)
  show ?thesis unfolding Write invoke.simps option.map FluentRegisterTarget_write_def option.inject T
    by (rule caller_view_drop_buf) simp_all
next
  case (Read addr out_data msg)
  show ?thesis unfolding Read invoke.simps option.map FluentRegisterTarget_read_def option.inject T
    by (rule caller_view_drop_out) simp_all
next
  case (ReadModifyWrite addr new_data msk msg)
  show ?thesis
    unfolding ReadModifyWrite invoke.simps option.map FluentRegisterTarget_readModifyWrite_def option.inject T
    by (rule caller_view_drop_buf) simp_all
next
  case (SeqWrite start_addr data increment msg)
  show ?thesis unfolding SeqWrite invoke.simps option.map FluentRegisterTarget_seqWrite_def option.inject T
    by (rule caller_view_drop_buf) simp_all
next
  case (SeqRead start_addr out_data increment msg)
  show ?thesis unfolding SeqRead invoke.simps option.map FluentRegisterTarget_seqRead_def option.inject T
    by (rule caller_view_drop_out) simp_all
next
  case (FifoWrite fifo_addr data msg)
  show ?thesis unfolding FifoWrite invoke.simps option.map FluentRegisterTarget_fifoWrite_def option.inject T
    by (rule caller_view_drop_buf) simp_all
next
  case (FifoRead fifo_addr out_data msg)
  show ?thesis unfolding FifoRead invoke.simps option.map FluentRegisterTarget_fifoRead_def option.inject T
    by (rule caller_view_drop_out) simp_all
next
  case (CompWrite addr_data msg)
  show ?thesis unfolding CompWrite invoke.simps option.map FluentRegisterTarget_compWrite_def option.inject T
    by (rule caller_view_drop_buf) simp_all
next
  case (CompRead addresses out_data msg)
  show ?thesis unfolding CompRead invoke.simps option.map FluentRegisterTarget_compRead_def option.inject T
    by (rule caller_view_drop_out) simp_all
next
  case (WriteVerify addr data msk msg)
  show ?thesis unfolding WriteVerify invoke.simps option.map FluentRegisterTarget_writeVerify_def option.inject T
    by (rule caller_view_drop_buf) simp_all
next
  case (ReadVerify addr expected msk msg)
  show ?thesis unfolding ReadVerify invoke.simps option.map FluentRegisterTarget_readVerify_def option.inject T
    by (rule caller_view_drop_buf) simp_all
next
  case (PollRead poller addr expected msk msg)
  show ?thesis unfolding PollRead invoke.simps
    by (rule pollRead_seen [OF T])
qed

lemma lifecycle_finish_dev_now [simp]:
  "dev (snd (snd (lifecycle_finish F no_extra (r, x, w2)))) = dev w2"
  "now (snd (snd (lifecycle_finish F no_extra (r, x, w2)))) = now w2"
  by (cases r; simp add: lifecycle_finish_def no_extra_def opEnd_def opError_def emit_def)+

lemma pollRead_SomeD:
  assumes "FluentRegisterTarget_pollRead F poller addr expected msk msg w = Some (r, w1)"
  shows "\<exists>r0 c t1. poller (pollRead_check (target F) addr (expected AND msk) msk) (0, dev w) (now w)
                     = Some (r0, c, t1)
           \<and> dev w1 = snd c \<and> now w1 = t1
           \<and> r = (case r0 of
                    Returned ok \<Rightarrow>
                      if ok then Returned ()
                      else Thrown (new_PollReadTimeoutException (expected AND msk) msk (fst c))
                  | Thrown e \<Rightarrow> Thrown e
                  | Aborted \<Rightarrow> Aborted)"
proof -
  define u where "u = opStart F (Format ''PollRead(0x{:0{}x}, 0x{:0{}x}, 0x{:0{}x}): {}''
                        [Addr addr, Data expected, Data msk, Text msg]) w"
  have u: "dev u = dev w" "now u = now w" by (simp_all add: u_def opStart_def emit_def)
  from assms obtain res where res: "pollRead_body poller (target F) addr expected msk u = Some res"
    and fin: "drop_buf (lifecycle_finish F no_extra res) = (r, w1)"
    by (auto simp: FluentRegisterTarget_pollRead_def u_def)
  from res obtain r0 c t1 where
    p: "poller (pollRead_check (target F) addr (expected AND msk) msk) (0, dev w) (now w) = Some (r0, c, t1)"
    and res_eq: "res = (case r0 of
                     Returned success \<Rightarrow>
                       if \<not> success then Thrown (new_PollReadTimeoutException (expected AND msk) msk (fst c))
                       else Returned ()
                   | Thrown e \<Rightarrow> Thrown e
                   | Aborted \<Rightarrow> Aborted, (), u\<lparr>dev := snd c, now := t1\<rparr>)"
    by (auto simp: pollRead_body_def Let_def u split: option.splits prod.splits)
  have "dev w1 = snd c" "now w1 = t1"
    using fin by (auto simp: res_eq drop_buf_def)
  moreover have "r = (case r0 of
                    Returned ok \<Rightarrow>
                      if ok then Returned ()
                      else Thrown (new_PollReadTimeoutException (expected AND msk) msk (fst c))
                  | Thrown e \<Rightarrow> Thrown e
                  | Aborted \<Rightarrow> Aborted)"
    using fin by (auto simp: res_eq drop_buf_def split: outcome.splits)
  ultimately show ?thesis using p by blast
qed


lemma lifecycle_finish_dev:
  assumes "\<And>x. silent (post x)"
  shows "dev (snd (snd (lifecycle_finish F post (r, x, w2)))) = dev w2"
    and "now (snd (snd (lifecycle_finish F post (r, x, w2)))) = now w2"
    and "fst (snd (lifecycle_finish F post (r, x, w2))) = x"
  using assms [of x]
  by (cases r; simp add: lifecycle_finish_def silent_def opEnd_def opError_def emit_def)+

lemma lifecycle_target:
  assumes pre: "silent pre" and post: "\<And>x. silent (post x)"
    and body: "body (pre (opStart F m w)) = (r, x, w2)"
  shows "fst (lifecycle F m pre body post w) = r"
    and "fst (snd (lifecycle F m pre body post w)) = x"
    and "dev (snd (snd (lifecycle F m pre body post w))) = dev w2"
    and "now (snd (snd (lifecycle F m pre body post w))) = now w2"
  by (simp_all add: lifecycle_def body lifecycle_finish_dev [OF post])

lemma silent_start:
  assumes "silent pre"
  shows "dev (pre (opStart F m w)) = dev w" "now (pre (opStart F m w)) = now w"
  using assms by (simp_all add: silent_def opStart_def emit_def)

lemma on_target_result:
  assumes pre: "silent pre" and post: "\<And>x. silent (post x)"
  shows "(fst (drop_buf (lifecycle F m pre (\<lambda>w1. unit_buf (on_target f w1)) post w)),
          dev (snd (drop_buf (lifecycle F m pre (\<lambda>w1. unit_buf (on_target f w1)) post w))))
           = f (dev w)"
proof -
  obtain r s1 where f: "f (dev w) = (r, s1)" by (cases "f (dev w)") auto
  have body: "(\<lambda>w1. unit_buf (on_target f w1)) (pre (opStart F m w))
                = (r, (), (pre (opStart F m w))\<lparr>dev := s1\<rparr>)"
    by (simp add: unit_buf_def on_target_def silent_start [OF pre] f)
  show ?thesis
    unfolding drop_buf_def fst_conv snd_conv f
    by (simp only: lifecycle_target [where body = "\<lambda>w1. unit_buf (on_target f w1)" and pre = pre
                      and post = post and F = F and m = m and w = w, OF pre post body]) simp
qed

lemma on_target_buf_result:
  assumes pre: "silent pre" and post: "\<And>x. silent (post x)"
  shows "(fst (lifecycle F m pre (on_target_buf g) post w),
          fst (snd (lifecycle F m pre (on_target_buf g) post w)),
          dev (snd (snd (lifecycle F m pre (on_target_buf g) post w))))
           = g (dev w)"
proof -
  obtain r x s1 where g: "g (dev w) = (r, x, s1)" by (cases "g (dev w)") auto
  have body: "on_target_buf g (pre (opStart F m w)) = (r, x, (pre (opStart F m w))\<lparr>dev := s1\<rparr>)"
    by (simp add: on_target_buf_def silent_start [OF pre] g)
  show ?thesis
    unfolding g
    by (simp only: lifecycle_target [where body = "on_target_buf g" and pre = pre
                      and post = post and F = F and m = m and w = w, OF pre post body]) simp
qed

lemma on_target_outcome:
  assumes "silent pre" "\<And>x. silent (post x)"
    and "drop_buf (lifecycle F m pre (\<lambda>w1. unit_buf (on_target f w1)) post w) = (r, w1)"
  shows "(r, dev w1) = f (dev w)"
  using on_target_result [where pre = pre and post = post and f = f and F = F and m = m and w = w,
          OF assms(1,2)]
  by (simp add: assms(3))

lemma on_target_buf_outcome:
  assumes "silent pre" "\<And>x. silent (post x)"
    and "drop_out (lifecycle F m pre (on_target_buf g) post w) = (r, w1)"
  shows "(r, dev w1) = (case g (dev w) of (r', out_data', s1) \<Rightarrow> (r', s1))"
proof -
  have "r = fst (lifecycle F m pre (on_target_buf g) post w)"
    "w1 = snd (snd (lifecycle F m pre (on_target_buf g) post w))"
    using assms(3) by (simp_all add: drop_out_def)
  with on_target_buf_result [where pre = pre and post = post and g = g and F = F and m = m and w = w,
          OF assms(1,2)]
  show ?thesis by (cases "g (dev w)") auto
qed

lemma read_result:
  "(fst (FluentRegisterTarget_read F addr out_data msg w),
    fst (snd (FluentRegisterTarget_read F addr out_data msg w)),
    dev (snd (snd (FluentRegisterTarget_read F addr out_data msg w))))
     = (case read (target F) addr (dev w) of
          (Returned v, s1) \<Rightarrow> (Returned (), v, s1)
        | (Thrown e, s1) \<Rightarrow> (Thrown e, out_data, s1)
        | (Aborted, s1) \<Rightarrow> (Aborted, out_data, s1))"
proof -
  define u where "u = id (opStart F (Format ''Read(0x{:0{}x}): {}'' [Addr addr, Text msg]) w)"
  have du: "dev u = dev w" by (simp add: u_def opStart_def emit_def)
  obtain r s1 where rd: "read (target F) addr (dev w) = (r, s1)"
    by (cases "read (target F) addr (dev w)") auto
  have body: "(\<lambda>w1. case on_target (read (target F) addr) w1 of
                (Returned v, w2) \<Rightarrow> (Returned (), v, w2)
              | (Thrown e, w2) \<Rightarrow> (Thrown e, out_data, w2)
              | (Aborted, w2) \<Rightarrow> (Aborted, out_data, w2)) (id (opStart F (Format ''Read(0x{:0{}x}): {}'' [Addr addr, Text msg]) w))
        = (case r of Returned v \<Rightarrow> Returned () | Thrown e \<Rightarrow> Thrown e | Aborted \<Rightarrow> Aborted,
           case r of Returned v \<Rightarrow> v | Thrown e \<Rightarrow> out_data | Aborted \<Rightarrow> out_data,
           u\<lparr>dev := s1\<rparr>)"
    unfolding u_def [symmetric] by (cases r) (simp_all add: on_target_def du rd)
  show ?thesis
    unfolding FluentRegisterTarget_read_def rd
    by (simp only: lifecycle_target [where pre = id and post = "opExtra F" and F = F and w = w
                      and m = "Format ''Read(0x{:0{}x}): {}'' [Addr addr, Text msg]"
                      and body = "\<lambda>w1. case on_target (read (target F) addr) w1 of
                                     (Returned v, w2) \<Rightarrow> (Returned (), v, w2)
                                   | (Thrown e, w2) \<Rightarrow> (Thrown e, out_data, w2)
                                   | (Aborted, w2) \<Rightarrow> (Aborted, out_data, w2)",
                    OF silent_simps(1) silent_simps(5) body])
       (cases r; simp)
qed

lemma invoke_outcome:
  fixes F :: "('s, 'a, 'd::len word) FluentRegisterTarget"
  assumes res: "invoke F req w = Some (r, w1)"
  shows "case req of
      Null msg \<Rightarrow> (r, dev w1, now w1) = (Returned (), dev w, now w)
    | Delay delay msg \<Rightarrow> (r, dev w1, now w1) = (Returned (), dev w, sleep_for delay (now w))
    | Write addr data msg \<Rightarrow> (r, dev w1) = write' (target F) addr data (dev w)
    | Read addr out_data msg \<Rightarrow>
        (r, dev w1) = (case read (target F) addr (dev w) of
                         (Returned v, s1) \<Rightarrow> (Returned (), s1)
                       | (Thrown e, s1) \<Rightarrow> (Thrown e, s1)
                       | (Aborted, s1) \<Rightarrow> (Aborted, s1))
    | ReadModifyWrite addr new_data msk msg \<Rightarrow>
        (r, dev w1) = readModifyWrite (target F) addr new_data msk (dev w)
    | SeqWrite start_addr data increment msg \<Rightarrow>
        (r, dev w1) = seqWrite (target F) start_addr data increment (dev w)
    | SeqRead start_addr out_data increment msg \<Rightarrow>
        (r, dev w1) = (case seqRead (target F) start_addr out_data increment (dev w) of
                         (r', out_data', s1) \<Rightarrow> (r', s1))
    | FifoWrite fifo_addr data msg \<Rightarrow> (r, dev w1) = fifoWrite (target F) fifo_addr data (dev w)
    | FifoRead fifo_addr out_data msg \<Rightarrow>
        (r, dev w1) = (case fifoRead (target F) fifo_addr out_data (dev w) of
                         (r', out_data', s1) \<Rightarrow> (r', s1))
    | CompWrite addr_data msg \<Rightarrow> (r, dev w1) = compWrite (target F) addr_data (dev w)
    | CompRead addresses out_data msg \<Rightarrow>
        (r, dev w1) = (case compRead (target F) addresses out_data (dev w) of
                         (r', out_data', s1) \<Rightarrow> (r', s1))
    | WriteVerify addr data msk msg \<Rightarrow>
        (r, dev w1) =
          (case write' (target F) addr data (dev w) of
             (Returned u, s1) \<Rightarrow>
               (case read (target F) addr s1 of
                  (Returned v, s2) \<Rightarrow>
                    (if (v AND msk) = (data AND msk) then Returned ()
                     else Thrown (new_WriteVerifyFailureException (data AND msk) msk v), s2)
                | (Thrown e, s2) \<Rightarrow> (Thrown e, s2)
                | (Aborted, s2) \<Rightarrow> (Aborted, s2))
           | (Thrown e, s1) \<Rightarrow> (Thrown e, s1)
           | (Aborted, s1) \<Rightarrow> (Aborted, s1))
    | ReadVerify addr expected msk msg \<Rightarrow>
        (r, dev w1) =
          (case read (target F) addr (dev w) of
             (Returned v, s1) \<Rightarrow>
               (if (v AND msk) = (expected AND msk) then Returned ()
                else Thrown (new_ReadVerifyFailureException (expected AND msk) msk v), s1)
           | (Thrown e, s1) \<Rightarrow> (Thrown e, s1)
           | (Aborted, s1) \<Rightarrow> (Aborted, s1))
    | PollRead poller addr expected msk msg \<Rightarrow>
        (\<exists>r0 c t1. poller (pollRead_check (target F) addr (expected AND msk) msk) (0, dev w) (now w)
                      = Some (r0, c, t1)
           \<and> dev w1 = snd c \<and> now w1 = t1
           \<and> r = (case r0 of
                    Returned ok \<Rightarrow>
                      if ok then Returned ()
                      else Thrown (new_PollReadTimeoutException (expected AND msk) msk (fst c))
                  | Thrown e \<Rightarrow> Thrown e
                  | Aborted \<Rightarrow> Aborted))"
proof (cases req)
  case (Null msg)
  have "FluentRegisterTarget_null F msg w = (Returned (), opEnd F (opStart F (Format ''Null(): {}'' [Text msg]) w))"
    by (simp add: FluentRegisterTarget_null_def wrapper_defs)
  with res Null show ?thesis by (auto simp: opEnd_def opStart_def emit_def)
next
  case (Delay delay msg)
  have "FluentRegisterTarget_delay F delay msg w =
          (Returned (), opEnd F ((opStart F (Format ''Delay({}): {}'' [Micros delay, Text msg]) w)
             \<lparr>now := sleep_for delay (now (opStart F (Format ''Delay({}): {}'' [Micros delay, Text msg]) w))\<rparr>))"
    by (simp add: FluentRegisterTarget_delay_def lifecycle_def lifecycle_finish_def drop_buf_def no_extra_def)
  with res Delay show ?thesis by (auto simp: opEnd_def opStart_def emit_def)
next
  case (Write addr data msg)
  with res have "FluentRegisterTarget_write F addr data msg w = (r, w1)" by simp
  then have "(r, dev w1) = write' (target F) addr data (dev w)"
    unfolding FluentRegisterTarget_write_def by (rule on_target_outcome [rotated 2]) simp_all
  then show ?thesis
    by (simp add: Write)
next
  case (Read addr out_data msg)
  with res have e: "drop_out (FluentRegisterTarget_read F addr out_data msg w) = (r, w1)" by simp
  then have "r = fst (FluentRegisterTarget_read F addr out_data msg w)"
    "w1 = snd (snd (FluentRegisterTarget_read F addr out_data msg w))"
    by (simp_all add: drop_out_def)
  with read_result [of F addr out_data msg w] show ?thesis
    by (simp add: Read split: prod.splits outcome.splits)
next
  case (ReadModifyWrite addr new_data msk msg)
  with res have "FluentRegisterTarget_readModifyWrite F addr new_data msk msg w = (r, w1)" by simp
  then have "(r, dev w1) = readModifyWrite (target F) addr new_data msk (dev w)"
    unfolding FluentRegisterTarget_readModifyWrite_def by (rule on_target_outcome [rotated 2]) simp_all
  then show ?thesis
    by (simp add: ReadModifyWrite)
next
  case (SeqWrite start_addr data increment msg)
  with res have "FluentRegisterTarget_seqWrite F start_addr data increment msg w = (r, w1)" by simp
  then have "(r, dev w1) = seqWrite (target F) start_addr data increment (dev w)"
    unfolding FluentRegisterTarget_seqWrite_def by (rule on_target_outcome [rotated 2]) simp_all
  then show ?thesis
    by (simp add: SeqWrite)
next
  case (SeqRead start_addr out_data increment msg)
  with res have "drop_out (FluentRegisterTarget_seqRead F start_addr out_data increment msg w) = (r, w1)" by simp
  then have "(r, dev w1) = (case seqRead (target F) start_addr out_data increment (dev w) of (r', out_data', s1) \<Rightarrow> (r', s1))"
    unfolding FluentRegisterTarget_seqRead_def by (rule on_target_buf_outcome [rotated 2]) simp_all
  then show ?thesis
    by (simp add: SeqRead)
next
  case (FifoWrite fifo_addr data msg)
  with res have "FluentRegisterTarget_fifoWrite F fifo_addr data msg w = (r, w1)" by simp
  then have "(r, dev w1) = fifoWrite (target F) fifo_addr data (dev w)"
    unfolding FluentRegisterTarget_fifoWrite_def by (rule on_target_outcome [rotated 2]) simp_all
  then show ?thesis
    by (simp add: FifoWrite)
next
  case (FifoRead fifo_addr out_data msg)
  with res have "drop_out (FluentRegisterTarget_fifoRead F fifo_addr out_data msg w) = (r, w1)" by simp
  then have "(r, dev w1) = (case fifoRead (target F) fifo_addr out_data (dev w) of (r', out_data', s1) \<Rightarrow> (r', s1))"
    unfolding FluentRegisterTarget_fifoRead_def by (rule on_target_buf_outcome [rotated 2]) simp_all
  then show ?thesis
    by (simp add: FifoRead)
next
  case (CompWrite addr_data msg)
  with res have "FluentRegisterTarget_compWrite F addr_data msg w = (r, w1)" by simp
  then have "(r, dev w1) = compWrite (target F) addr_data (dev w)"
    unfolding FluentRegisterTarget_compWrite_def by (rule on_target_outcome [rotated 2]) simp_all
  then show ?thesis
    by (simp add: CompWrite)
next
  case (CompRead addresses out_data msg)
  with res have "drop_out (FluentRegisterTarget_compRead F addresses out_data msg w) = (r, w1)" by simp
  then have "(r, dev w1) = (case compRead (target F) addresses out_data (dev w) of (r', out_data', s1) \<Rightarrow> (r', s1))"
    unfolding FluentRegisterTarget_compRead_def by (rule on_target_buf_outcome [rotated 2]) simp_all
  then show ?thesis
    by (simp add: CompRead)
next
  case (WriteVerify addr data msk msg)
  with res have "FluentRegisterTarget_writeVerify F addr data msk msg w = (r, w1)" by simp
  then have "(r, dev w1) = writeVerify_body (target F) addr data msk (dev w)"
    unfolding FluentRegisterTarget_writeVerify_def by (rule on_target_outcome [rotated 2]) simp_all
  then show ?thesis
    by (simp add: WriteVerify writeVerify_body_def Let_def split: prod.splits outcome.splits)
next
  case (ReadVerify addr expected msk msg)
  with res have "FluentRegisterTarget_readVerify F addr expected msk msg w = (r, w1)" by simp
  then have "(r, dev w1) = readVerify_body (target F) addr expected msk (dev w)"
    unfolding FluentRegisterTarget_readVerify_def by (rule on_target_outcome [rotated 2]) simp_all
  then show ?thesis
    by (simp add: ReadVerify readVerify_body_def Let_def split: prod.splits outcome.splits)
next
  case (PollRead poller addr expected msk msg)
  with res have "FluentRegisterTarget_pollRead F poller addr expected msk msg w = Some (r, w1)" by simp
  from pollRead_SomeD [OF this] show ?thesis by (simp add: PollRead)
qed




subsection \<open>compRead with spans of different lengths\<close>

lemma how_many_map_extra [simp]:
  "how_many is_OpError (map (\<lambda>a. OpExtra d n (g a)) xs) = 0"
  "how_many is_OpEnd (map (\<lambda>a. OpExtra d n (g a)) xs) = 0"
  "how_many is_OpStart (map (\<lambda>a. OpExtra d n (g a)) xs) = 0"
  by (induction xs) simp_all

lemma span_store_take_drop:
  "i \<le> length out_data \<Longrightarrow> span_store out_data i v = take i out_data @ v # drop (Suc i) out_data"
  by (cases "i < length out_data") (simp_all add: span_store_def upd_conv_take_nth_drop)

lemma compRead_loop_direct:
  assumes "i \<le> length out_data"
  shows "IRegisterTarget_compRead_loop T addresses out_data i s =
           (case direct_reads T (drop i addresses) s of
              (r, vs, s1) \<Rightarrow> (r, take i out_data @ vs @ drop (i + length vs) out_data, s1))"
  using assms
proof (induction "length addresses - i" arbitrary: i s out_data)
  case 0
  then show ?case
    by (subst IRegisterTarget_compRead_loop.simps) simp
next
  case (Suc n)
  then have i: "i < length addresses" by simp
  have d: "drop i addresses = addresses ! i # drop (Suc i) addresses"
    using i by (simp add: Cons_nth_drop_Suc)
  have IH: "\<And>s1 v. IRegisterTarget_compRead_loop T addresses (span_store out_data i v) (Suc i) s1 =
           (case direct_reads T (drop (Suc i) addresses) s1 of
              (r, vs, s2) \<Rightarrow>
                (r, take (Suc i) (span_store out_data i v) @ vs
                      @ drop (Suc i + length vs) (span_store out_data i v), s2))"
  proof -
    fix s1 v
    have "Suc i \<le> length (span_store out_data i v)"
      using Suc.prems by (simp add: span_store_def)
    moreover have "n = length addresses - Suc i" using Suc.hyps(2) by simp
    ultimately show "IRegisterTarget_compRead_loop T addresses (span_store out_data i v) (Suc i) s1 =
           (case direct_reads T (drop (Suc i) addresses) s1 of
              (r, vs, s2) \<Rightarrow>
                (r, take (Suc i) (span_store out_data i v) @ vs
                      @ drop (Suc i + length vs) (span_store out_data i v), s2))"
      by (rule Suc.hyps(1) [rotated])
  qed
  have st: "\<And>v vs. take (Suc i) (span_store out_data i v) @ vs
                      @ drop (Suc i + length vs) (span_store out_data i v)
                  = take i out_data @ (v # vs) @ drop (i + length (v # vs)) out_data"
    using Suc.prems by (simp add: span_store_take_drop add.commute)
  have IH': "\<And>s1 v. IRegisterTarget_compRead_loop T addresses (span_store out_data i v) (Suc i) s1 =
           (case direct_reads T (drop (Suc i) addresses) s1 of
              (r, vs, s2) \<Rightarrow> (r, take i out_data @ (v # vs) @ drop (i + length (v # vs)) out_data, s2))"
    unfolding IH st ..
  show ?case
    by (subst IRegisterTarget_compRead_loop.simps)
       (simp add: i d IH' split: prod.splits outcome.splits)
qed




subsection \<open>The domain handed to the interposer\<close>

text \<open>
  Claim C5 (the code departs from it). A write through the wrapper on a target whose
  \<^verbatim>\<open>getDomain()\<close> is "SimpleDummyRegisterTarget": both hook calls receive the literal
  "FluentRegisterTarget" as their first argument, not the target's domain; the second
  argument is the target's \<^verbatim>\<open>getName()\<close>.
\<close>

theorem hooks_get_literal_domain:
  "getDomain dut = ''SimpleDummyRegisterTarget'' \<and>
   observed (snd (FluentRegisterTarget_write \<lparr>interposer = True, target = dut\<rparr> 0x10 1 []
     \<lparr>dev = Map.empty, observed = [], now = 0\<rparr>))
   = [OpStart ''FluentRegisterTarget'' ''dut''
        (Format ''Write(0x{:0{}x}, 0x{:0{}x}): {}'' [Addr 0x10, Data 1, Text []]),
      OpEnd ''FluentRegisterTarget'' ''dut'']"
  by (simp add: FluentRegisterTarget_write_def wrapper_defs dut_def SimpleDummyRegisterTarget_def)

subsection \<open>Default sequential access\<close>

lemma ucast_down_of_nat:
  assumes "LENGTH('a::len) \<le> LENGTH('b::len)"
  shows "(ucast (word_of_nat n :: 'b word) :: 'a word) = word_of_nat n"
proof -
  have "(ucast (word_of_nat n :: 'b word) :: 'a word) = word_of_nat (unat (word_of_nat n :: 'b word))"
    by simp
  also have "\<dots> = word_of_nat (take_bit LENGTH('b) n)"
    by (simp add: unsigned_of_nat)
  also have "\<dots> = word_of_nat n"
    using assms by (simp add: word_of_nat_eq_iff min_def)
  finally show ?thesis .
qed

lemma seq_address_of_nat:
  assumes "LENGTH('a::len) \<le> 64"
  shows "seq_address (start_addr :: 'a word) increment i = word_of_nat (unat start_addr + unat increment * i)"
proof -
  have "(ucast start_addr :: size_t) + increment * word_of_nat i
        = word_of_nat (unat start_addr) + word_of_nat (unat increment) * word_of_nat i"
    by simp
  also have "\<dots> = word_of_nat (unat start_addr + unat increment * i)"
    by simp
  finally have sum: "(ucast start_addr :: size_t) + increment * word_of_nat i
        = word_of_nat (unat start_addr + unat increment * i)" .
  have "LENGTH('a) \<le> LENGTH(64)" using assms by simp
  then show ?thesis
    unfolding seq_address_def sum by (rule ucast_down_of_nat)
qed

lemma unat_seq_address:
  assumes "LENGTH('a::len) \<le> 64"
  shows "unat (seq_address (start_addr :: 'a word) increment i)
         = (unat start_addr + unat increment * i) mod 2 ^ LENGTH('a)"
  by (simp only: seq_address_of_nat [OF assms] unat_of_nat)

lemma seqWrite_loop_direct:
  "IRegisterTarget_seqWrite_loop T start_addr data increment i s =
     direct_writes T (map (\<lambda>k. (seq_address start_addr increment k, data ! k)) [i..<length data]) s"
proof (induction "length data - i" arbitrary: i s)
  case 0
  then show ?case by (subst IRegisterTarget_seqWrite_loop.simps) simp
next
  case (Suc n)
  then have lt: "i < length data" by simp
  have IH: "\<And>s1. IRegisterTarget_seqWrite_loop T start_addr data increment (Suc i) s1 =
     direct_writes T (map (\<lambda>k. (seq_address start_addr increment k, data ! k)) [Suc i..<length data]) s1"
    using Suc.hyps(1) [of "Suc i"] Suc.hyps(2) by simp
  show ?case
    by (subst IRegisterTarget_seqWrite_loop.simps)
       (simp add: lt IH upt_conv_Cons split: prod.splits outcome.splits)
qed

lemma seqRead_loop_direct:
  "i \<le> length out_data \<Longrightarrow>
   IRegisterTarget_seqRead_loop T start_addr out_data increment i s =
     (case direct_reads T (map (seq_address start_addr increment) [i..<length out_data]) s of
        (r, vs, s1) \<Rightarrow> (r, take i out_data @ vs @ drop (i + length vs) out_data, s1))"
proof (induction "length out_data - i" arbitrary: i s out_data)
  case 0
  then show ?case by (subst IRegisterTarget_seqRead_loop.simps) simp
next
  case (Suc n)
  then have lt: "i < length out_data" by simp
  have IH: "\<And>s1 v. IRegisterTarget_seqRead_loop T start_addr (out_data[i := v]) increment (Suc i) s1 =
     (case direct_reads T (map (seq_address start_addr increment) [Suc i..<length out_data]) s1 of
        (r, vs, s2) \<Rightarrow> (r, take (Suc i) (out_data[i := v]) @ vs @ drop (Suc i + length vs) (out_data[i := v]), s2))"
    using Suc.hyps(1) [of "out_data[i := _]" "Suc i"] Suc.hyps(2) lt by simp
  have tk: "\<And>v. take (Suc i) (out_data[i := v]) = take i out_data @ [v]"
    using lt by (simp add: take_Suc_conv_app_nth)
  show ?case
    by (subst IRegisterTarget_seqRead_loop.simps)
       (simp add: lt IH tk upt_conv_Cons split: prod.splits outcome.splits)
qed

text \<open>
  Claim C7. The default seqWrite is the same computation, on every target and from every
  state, as the single writes \<^verbatim>\<open>write(start + increment*i, data[i])\<close> for
  \<open>i = 0, 1, ..., size-1\<close> issued directly in that order (one per element; a write that
  throws ends both at the same point). Likewise the default seqRead is the single reads
  in index order, each value stored in its slot (slots after a failing read keep their
  content). The address is computed in \<^verbatim>\<open>size_t\<close> and narrowed to the address type: its
  value is \<open>start + increment * i\<close> modulo \<open>2 ^ width\<close>. The example of the claim:
  seqWrite(0x100, [a, b, c], 4) is write(0x100, a); write(0x104, b); write(0x108, c).
\<close>

theorem default_seq_is_direct_accesses:
  "IRegisterTarget_seqWrite T start_addr data increment s =
     direct_writes T (map (\<lambda>i. (seq_address start_addr increment i, data ! i)) [0..<length data]) s
   \<and> IRegisterTarget_seqRead T start_addr out_data increment s =
     (case direct_reads T (map (seq_address start_addr increment) [0..<length out_data]) s of
        (r, vs, s1) \<Rightarrow> (r, vs @ drop (length vs) out_data, s1))
   \<and> (LENGTH('a::len) \<le> 64 \<longrightarrow>
        (\<forall>i. unat (seq_address (start_addr :: 'a word) increment i)
               = (unat start_addr + unat increment * i) mod 2 ^ LENGTH('a)))
   \<and> IRegisterTarget_seqWrite T32 (0x100 :: 32 word) [a, b, c] 4 s32 =
       direct_writes T32 [(0x100, a), (0x104, b), (0x108, c)] s32"
proof (intro conjI)
  show "IRegisterTarget_seqWrite T start_addr data increment s =
     direct_writes T (map (\<lambda>i. (seq_address start_addr increment i, data ! i)) [0..<length data]) s"
    by (simp add: IRegisterTarget_seqWrite_def seqWrite_loop_direct)
  show "IRegisterTarget_seqRead T start_addr out_data increment s =
     (case direct_reads T (map (seq_address start_addr increment) [0..<length out_data]) s of
        (r, vs, s1) \<Rightarrow> (r, vs @ drop (length vs) out_data, s1))"
    by (simp add: IRegisterTarget_seqRead_def seqRead_loop_direct)
  show "LENGTH('a) \<le> 64 \<longrightarrow>
        (\<forall>i. unat (seq_address start_addr increment i)
               = (unat start_addr + unat increment * i) mod 2 ^ LENGTH('a))"
    by (simp add: unat_seq_address)
  show "IRegisterTarget_seqWrite T32 (0x100 :: 32 word) [a, b, c] 4 s32 =
       direct_writes T32 [(0x100, a), (0x104, b), (0x108, c)] s32"
    by (simp add: IRegisterTarget_seqWrite_def seqWrite_loop_direct upt_rec [of 0] upt_rec [of 1]
          upt_rec [of 2] upt_rec [of 3] seq_address_def)
qed

text \<open>
  Witness for C7: 32-bit addresses; the claim's example run on a spied
  SimpleDummyRegisterTarget (three writes to 0x100, 0x104, 0x108 in that order), and a
  sequential read of two registers.
\<close>

theorem default_seq_is_direct_accesses_witness:
  "LENGTH(32) \<le> (64::nat)
   \<and> IRegisterTarget_seqWrite (spy dut) 0x100 [10, 20, 30] 4 (Map.empty, []) =
       (Returned (), ([0x100 \<mapsto> 10, 0x104 \<mapsto> 20, 0x108 \<mapsto> 30],
                      [WriteAccess 0x100 10, WriteAccess 0x104 20, WriteAccess 0x108 30]))
   \<and> IRegisterTarget_seqRead (spy dut) 0x100 [0, 0] 4 ([0x100 \<mapsto> 10, 0x104 \<mapsto> 20], []) =
       (Returned (), [10, 20], ([0x100 \<mapsto> 10, 0x104 \<mapsto> 20],
                      [ReadAccess 0x100 (Some 10), ReadAccess 0x104 (Some 20)]))
   \<and> unat (seq_address (0x100 :: 32 word) 4 2) = 0x108"
proof -
  have len: "LENGTH(32) \<le> (64::nat)" by simp
  note wr = default_seq_is_direct_accesses [where T = "spy dut" and start_addr = "0x100"
      and data = "[10, 20, 30]" and increment = 4 and s = "(Map.empty, [])", THEN conjunct1]
  note rd = default_seq_is_direct_accesses [where T = "spy dut" and start_addr = "0x100"
      and out_data = "[0, 0]" and increment = 4 and s = "([0x100 \<mapsto> 10, 0x104 \<mapsto> 20], [])",
      THEN conjunct2, THEN conjunct1]
  note ad = default_seq_is_direct_accesses [where start_addr = "0x100 :: 32 word" and increment = 4,
      THEN conjunct2, THEN conjunct2, THEN conjunct1, rule_format, OF len, of 2]
  show ?thesis
    apply (intro conjI)
       apply (rule len)
      apply (subst wr)
      apply (simp add: upt_rec [of 0] upt_rec [of 1] upt_rec [of 2] upt_rec [of 3] seq_address_def
        spy_def dut_def SimpleDummyRegisterTarget_def)
     apply (subst rd)
     apply (simp add: upt_rec [of 0] upt_rec [of 1] upt_rec [of 2] seq_address_def
        spy_def dut_def SimpleDummyRegisterTarget_def)
    apply (subst ad)
    apply simp
    done
qed

subsection \<open>BasicPoller\<close>

lemma sint_word_of_int_64:
  "- (2 ^ 63) \<le> x \<Longrightarrow> x < 2 ^ 63 \<Longrightarrow> sint (word_of_int x :: 64 word) = x"
  by (simp add: sint_sbintrunc' signed_take_bit_int_eq_self)

lemma deadline_no_wrap:
  assumes "- (2 ^ 63) \<le> a + sint tm * 1000" "a + sint tm * 1000 < 2 ^ 63"
  shows "sint ((word_of_int a :: 64 word) + tm * 1000) = a + sint tm * 1000"
proof -
  have "(word_of_int a :: 64 word) + tm * 1000 = word_of_int (a + sint tm * 1000)"
    by simp
  then show ?thesis using assms by (simp only: sint_word_of_int_64)
qed

lemma BasicPoller_loop_true:
  "fst (fn c) = Returned True \<Longrightarrow>
     BasicPoller_loop lag P fn start_timestamp k c t = Some (Returned True, snd (fn c), t)"
  by (subst BasicPoller_loop.simps) (cases "fn c"; simp)

lemma BasicPoller_loop_false:
  "fst (fn c) = Returned False \<Longrightarrow>
     BasicPoller_loop lag P fn start_timestamp k c t =
       (if sint (word_of_int (steady_clock_now lag k (sleep_for (wait_delay P) t)) :: time_point)
             < sint (start_timestamp + timeout P * 1000)
        then BasicPoller_loop lag P fn start_timestamp (Suc k) (snd (fn c))
               (steady_clock_now lag k (sleep_for (wait_delay P) t))
        else Some (Returned False, snd (fn c), steady_clock_now lag k (sleep_for (wait_delay P) t)))"
  by (subst BasicPoller_loop.simps) (cases "fn c"; simp add: Let_def)

lemma BasicPoller_loop_failed:
  "fst (fn c) = Thrown e \<Longrightarrow>
     BasicPoller_loop lag P fn start_timestamp k c t = Some (Thrown e, snd (fn c), t)"
  "fst (fn c) = Aborted \<Longrightarrow>
     BasicPoller_loop lag P fn start_timestamp k c t = Some (Aborted, snd (fn c), t)"
  by (subst BasicPoller_loop.simps, cases "fn c"; simp)+

lemma counted_simps [simp]:
  "fst (counted fn cn) = fst (fn (fst cn))"
  "snd (counted fn cn) = (snd (fn (fst cn)), Suc (snd cn))"
  by (simp_all add: counted_def split: prod.splits)

lemma BasicPoller_loop_counts:
  assumes ret: "BasicPoller_loop lag P fn' start_timestamp k cn t = Some y"
  shows "fn' = counted fn \<longrightarrow> snd cn < snd (fst (snd y))"
proof (rule BasicPoller_loop.raw_induct
        [where P = "\<lambda>lag self fn' start_timestamp k cn t y. fn' = counted fn \<longrightarrow> snd cn < snd (fst (snd y))",
         OF _ ret], intro impI)
  fix loop' lag P fn' start_timestamp k cn t y
  assume IH: "\<And>lag P fn' start_timestamp k cn t y. loop' lag P fn' start_timestamp k cn t = Some y \<Longrightarrow>
                fn' = counted fn \<longrightarrow> snd cn < snd (fst (snd y))"
    and step: "(case fn' cn of
        (Returned ok, c1) \<Rightarrow>
          if ok then Some (Returned True, c1, t)
          else (let t1 = steady_clock_now lag k (sleep_for (wait_delay P) t)
                in if sint (word_of_int t1 :: time_point) < sint (start_timestamp + timeout P * 1000)
                   then loop' lag P fn' start_timestamp (Suc k) c1 t1
                   else Some (Returned False, c1, t1))
      | (Thrown e, c1) \<Rightarrow> Some (Thrown e, c1, t)
      | (Aborted, c1) \<Rightarrow> Some (Aborted, c1, t)) = Some y"
    and fn': "fn' = counted fn"
  obtain r c1 where f: "fn (fst cn) = (r, c1)" by (cases "fn (fst cn)") auto
  then have cf: "counted fn cn = (r, (c1, Suc (snd cn)))" by (simp add: counted_def)
  show "snd cn < snd (fst (snd y))"
  proof (cases r)
    case (Returned ok)
    show ?thesis
    proof (cases "ok \<or> \<not> sint (word_of_int (steady_clock_now lag k (sleep_for (wait_delay P) t)) :: time_point)
                          < sint (start_timestamp + timeout P * 1000)")
      case True
      with step fn' cf Returned show ?thesis by (auto simp: Let_def split: if_splits)
    next
      case False
      with step fn' cf Returned
      have "loop' lag P (counted fn) start_timestamp (Suc k) (c1, Suc (snd cn))
              (steady_clock_now lag k (sleep_for (wait_delay P) t)) = Some y"
        by (simp add: Let_def)
      from IH [OF this] show ?thesis by simp
    qed
  next
    case (Thrown e)
    with step fn' cf show ?thesis by auto
  next
    case Aborted
    with step fn' cf show ?thesis by auto
  qed
qed

text \<open>
  The loop ends as soon as every round takes time (a positive recheck delay, or a clock
  that has moved at every reading) and the 64-bit counts do not wrap before the deadline
  is seen. \<open>D\<close> is the deadline the loop compares with, \<open>W\<close> the recheck delay in
  nanoseconds.
\<close>

lemma BasicPoller_loop_returns:
  fixes P :: BasicPoller and lag :: "nat \<Rightarrow> nat" and B :: nat and st :: time_point
  defines "D \<equiv> sint (st + timeout P * 1000)" and "W \<equiv> max 0 (sint (wait_delay P)) * 1000"
  assumes bound: "\<forall>k. lag k \<le> B"
    and progress: "0 < sint (wait_delay P) \<or> (\<forall>k. 0 < lag k)"
    and low: "- (2 ^ 63) \<le> t"
    and fits: "max t D + W + int B < 2 ^ 63"
  shows "\<exists>y. BasicPoller_loop lag P fn st k c t = Some y"
  using low fits
proof (induction "nat (D - t)" arbitrary: k c t rule: less_induct)
  case less
  define t1 where "t1 = steady_clock_now lag k (sleep_for (wait_delay P) t)"
  have t1: "t1 = t + W + int (lag k)"
    by (simp add: t1_def steady_clock_now_def sleep_for_def W_def)
  have "0 < W + int (lag k)"
  proof (cases "0 < sint (wait_delay P)")
    case True
    then show ?thesis by (simp add: W_def max_def add_pos_nonneg)
  next
    case False
    with progress have "0 < lag k" by simp
    then show ?thesis by (simp add: W_def add_nonneg_pos)
  qed
  then have step: "t < t1" by (simp add: t1)
  have "int (lag k) \<le> int B" using bound by simp
  then have up: "t1 < 2 ^ 63" using less.prems(2) by (simp add: t1)
  have s1: "sint (word_of_int t1 :: 64 word) = t1"
    using less.prems(1) step up by (intro sint_word_of_int_64) simp_all
  obtain r c1 where f: "fn c = (r, c1)" by (cases "fn c") auto
  show ?case
  proof (cases r)
    case (Returned ok)
    show ?thesis
    proof (cases "\<not> ok \<and> t1 < D")
      case True
      then have m: "nat (D - t1) < nat (D - t)" using step by simp
      have "- (2 ^ 63) \<le> t1" using less.prems(1) step by simp
      moreover have "max t1 D + W + int B < 2 ^ 63"
        using True less.prems(2) by (simp add: max_def split: if_splits)
      ultimately obtain y where "BasicPoller_loop lag P fn st (Suc k) c1 t1 = Some y"
        using less.hyps [OF m] by blast
      moreover from True f Returned s1
      have "BasicPoller_loop lag P fn st k c t = BasicPoller_loop lag P fn st (Suc k) c1 t1"
        by (subst BasicPoller_loop.simps) (simp add: Let_def t1_def [symmetric] D_def)
      ultimately show ?thesis by (simp del: split_paired_Ex)
    next
      case False
      with f Returned s1 show ?thesis
        by (subst BasicPoller_loop.simps)
           (auto simp: Let_def t1_def [symmetric] D_def simp del: split_paired_Ex)
    qed
  next
    case (Thrown e)
    with f show ?thesis by (subst BasicPoller_loop.simps) simp
  next
    case Aborted
    with f show ?thesis by (subst BasicPoller_loop.simps) simp
  qed
qed

lemma BasicPoller_always_false:
  fixes P :: BasicPoller and lag :: "nat \<Rightarrow> nat" and B :: nat and st :: time_point
  defines "D \<equiv> sint (st + timeout P * 1000)" and "W \<equiv> max 0 (sint (wait_delay P)) * 1000"
  assumes bound: "\<forall>k. lag k \<le> B"
    and progress: "0 < sint (wait_delay P) \<or> (\<forall>k. 0 < lag k)"
    and never: "\<And>c. fst (fn c) = Returned False"
    and low: "- (2 ^ 63) \<le> t"
    and fits: "max t D + W + int B < 2 ^ 63"
  shows "\<exists>c1 m t1. BasicPoller_loop lag P (counted fn) st k (c, n) t =
                      Some (Returned False, (c1, n + m), t1)
              \<and> 1 \<le> m \<and> D \<le> t1 \<and> t + int m * W \<le> t1
              \<and> (1 < m \<longrightarrow> t + (int m - 1) * W < D)"
  using low fits
proof (induction "nat (D - t)" arbitrary: k c n t rule: less_induct)
  case less
  define t1 where "t1 = steady_clock_now lag k (sleep_for (wait_delay P) t)"
  have t1: "t1 = t + W + int (lag k)"
    by (simp add: t1_def steady_clock_now_def sleep_for_def W_def)
  have "0 < W + int (lag k)"
  proof (cases "0 < sint (wait_delay P)")
    case True
    then show ?thesis by (simp add: W_def max_def add_pos_nonneg)
  next
    case False
    with progress have "0 < lag k" by simp
    then show ?thesis by (simp add: W_def add_nonneg_pos)
  qed
  then have step: "t < t1" by (simp add: t1)
  have "int (lag k) \<le> int B" using bound by simp
  then have up: "t1 < 2 ^ 63" using less.prems(2) by (simp add: t1)
  have s1: "sint (word_of_int t1 :: 64 word) = t1"
    using less.prems(1) step up by (intro sint_word_of_int_64) simp_all
  have f: "fst (counted fn (c, n)) = Returned False" by (simp add: never)
  note unroll = BasicPoller_loop_false [where fn = "counted fn" and c = "(c, n)" and lag = lag and P = P
                  and start_timestamp = st and k = k and t = t, OF f,
                  unfolded t1_def [symmetric] s1 D_def [symmetric]]
  show ?case
  proof (cases "t1 < D")
    case False
    then show ?thesis
      using t1
      by (intro exI [of _ "snd (fn c)"] exI [of _ 1] exI [of _ t1]) (simp add: unroll)
  next
    case True
    then have m: "nat (D - t1) < nat (D - t)" using step by simp
    have l1: "- (2 ^ 63) \<le> t1" using less.prems(1) step by simp
    have f1: "max t1 D + W + int B < 2 ^ 63"
      using True less.prems(2) by (simp add: max_def split: if_splits)
    from less.hyps [OF m l1 f1, of "Suc k" "snd (fn c)" "Suc n"]
    obtain c1 m' t2 where r: "BasicPoller_loop lag P (counted fn) st (Suc k) (snd (fn c), Suc n) t1 =
                      Some (Returned False, (c1, Suc n + m'), t2)"
      "1 \<le> m'" "D \<le> t2" "t1 + int m' * W \<le> t2" "1 < m' \<longrightarrow> t1 + (int m' - 1) * W < D"
      by blast
    have W0: "0 \<le> W" by (simp add: W_def)
    have a: "t + int (Suc m') * W \<le> t2"
      using r(4) t1 by (simp add: algebra_simps)
    have b: "t + (int (Suc m') - 1) * W < D"
    proof (cases "1 < m'")
      case True
      with r(5) have "t1 + (int m' - 1) * W < D" by simp
      then show ?thesis using t1 by (simp add: algebra_simps)
    next
      case False
      with r(2) have "m' = 1" by simp
      with \<open>t1 < D\<close> t1 show ?thesis by simp
    qed
    show ?thesis
      using r(1,3) a b True
      by (intro exI [of _ c1] exI [of _ "Suc m'"] exI [of _ t2]) (simp add: unroll)
  qed
qed

lemma clock_in_range_start:
  fixes P :: BasicPoller and lag :: "nat \<Rightarrow> nat" and t :: int
  defines "t0 \<equiv> steady_clock_now lag 0 (sleep_for (initial_delay P) t)"
  assumes range: "clock_in_range P B t" and bound: "\<forall>k. lag k \<le> B"
  shows "0 \<le> t0" "sleep_for (initial_delay P) t \<le> t0"
    "sint ((word_of_int t0 :: 64 word) + timeout P * 1000) = t0 + sint (timeout P) * 1000"
    "max t0 (t0 + sint (timeout P) * 1000) + max 0 (sint (wait_delay P)) * 1000 + int B < 2 ^ 63"
proof -
  have b0: "int (lag 0) \<le> int B" using bound by simp
  have t0: "t0 = t + max 0 (sint (initial_delay P)) * 1000 + int (lag 0)"
    by (simp add: t0_def steady_clock_now_def sleep_for_def)
  from range have r: "0 \<le> t"
    "t + (max 0 (sint (initial_delay P)) + max 0 (sint (wait_delay P)) + abs (sint (timeout P))) * 1000
        + 2 * int B < 2 ^ 63"
    by (simp_all add: clock_in_range_def)
  show "0 \<le> t0" using r(1) by (simp add: t0)
  show "sleep_for (initial_delay P) t \<le> t0" by (simp add: t0 sleep_for_def)
  have lo: "- (2 ^ 63) \<le> t0 + sint (timeout P) * 1000"
    using r b0 by (simp add: t0 algebra_simps abs_if max_def split: if_splits)
  have hi: "t0 + sint (timeout P) * 1000 < 2 ^ 63"
    using r b0 by (simp add: t0 algebra_simps abs_if max_def split: if_splits)
  show "sint ((word_of_int t0 :: 64 word) + timeout P * 1000) = t0 + sint (timeout P) * 1000"
    by (rule deadline_no_wrap [OF lo hi])
  show "max t0 (t0 + sint (timeout P) * 1000) + max 0 (sint (wait_delay P)) * 1000 + int B < 2 ^ 63"
    using r b0 by (simp add: t0 algebra_simps abs_if max_def split: if_splits)
qed

text \<open>
  Claim C8. BasicPoller with any timing parameters, on any predicate and under any
  behaviour of the clock (\<open>lag\<close>); the predicate is run behind a counter of its
  evaluations, starting at 0.
  \<^item> Whenever the poller returns, the count is at least 1, whatever the timeout.
  \<^item> The poller does return, with a count of at least 1, whenever every round of the
    loop takes time (a positive recheck delay, or a clock that has moved at every
    reading) and the 64-bit counts of the clock do not wrap during the poll.
  \<^item> If the first evaluation yields true, the poller returns true after that one
    evaluation: only the initial delay has been slept and the clock read once, for the
    start timestamp.
  \<^item> In the loop, an evaluation that yields true returns true at once: no further
    sleep, no further reading of the clock, no further evaluation.
  \<^item> With a timeout of zero (or below) and a first evaluation yielding false, the
    predicate has still been evaluated exactly once; the poller then returns false.
  \<^item> The budget starts after the initial delay: with a predicate that is never true the
    poller returns false no earlier than "call + initial delay + timeout", and it makes a
    further evaluation only while the recheck delays slept since the start timestamp are
    within the timeout; the initial delay does not enter that count.
  How many evaluations are made in between is up to the clock.
\<close>

theorem BasicPoller_evaluates_at_least_once:
  fixes fn :: "'c \<Rightarrow> ('e, bool) outcome \<times> 'c"
  shows
  "(BasicPoller_call lag P (counted fn) (c, 0) t = Some (r, (c1, n), t1) \<longrightarrow> 1 \<le> n)
   \<and> (clock_in_range P B t \<longrightarrow> (\<forall>k. lag k \<le> B) \<longrightarrow> (0 < sint (wait_delay P) \<or> (\<forall>k. 0 < lag k)) \<longrightarrow>
        (\<exists>r c1 n t1. BasicPoller_call lag P (counted fn) (c, 0) t = Some (r, (c1, n), t1) \<and> 1 \<le> n))
   \<and> (fst (fn c) = Returned True \<longrightarrow>
        BasicPoller_call lag P (counted fn) (c, 0) t =
          Some (Returned True, (snd (fn c), 1), steady_clock_now lag 0 (sleep_for (initial_delay P) t)))
   \<and> (fst (fn c) = Returned True \<longrightarrow>
        BasicPoller_loop lag P fn start_timestamp k c t = Some (Returned True, snd (fn c), t))
   \<and> (sint (timeout P) \<le> 0 \<longrightarrow> fst (fn c) = Returned False \<longrightarrow>
        clock_in_range P B t \<longrightarrow> (\<forall>k. lag k \<le> B) \<longrightarrow>
        BasicPoller_call lag P (counted fn) (c, 0) t =
          Some (Returned False, (snd (fn c), 1),
                steady_clock_now lag 1
                  (sleep_for (wait_delay P) (steady_clock_now lag 0 (sleep_for (initial_delay P) t)))))
   \<and> (clock_in_range P B t \<longrightarrow> (\<forall>k. lag k \<le> B) \<longrightarrow> (0 < sint (wait_delay P) \<or> (\<forall>k. 0 < lag k)) \<longrightarrow>
        (\<forall>c. fst (fn c) = Returned False) \<longrightarrow>
        (\<exists>c2 m t1. BasicPoller_call lag P (counted fn) (c, 0) t = Some (Returned False, (c2, m), t1)
              \<and> 1 \<le> m
              \<and> sleep_for (initial_delay P) t + sint (timeout P) * 1000 \<le> t1
              \<and> (1 < m \<longrightarrow> (int m - 1) * (max 0 (sint (wait_delay P)) * 1000) < sint (timeout P) * 1000)))"
proof (intro conjI impI)
  define t0 where "t0 = steady_clock_now lag 0 (sleep_for (initial_delay P) t)"
  have call: "\<And>g x. BasicPoller_call lag P g x t = BasicPoller_loop lag P g (word_of_int t0) 1 x t0"
    by (simp add: BasicPoller_call_def Let_def t0_def)
  {
    assume "BasicPoller_call lag P (counted fn) (c, 0) t = Some (r, (c1, n), t1)"
    then have "BasicPoller_loop lag P (counted fn) (word_of_int t0) 1 (c, 0) t0 = Some (r, (c1, n), t1)"
      by (simp add: call)
    from BasicPoller_loop_counts [OF this, of fn] show "1 \<le> n" by simp
  next
    assume range: "clock_in_range P B t" and bound: "\<forall>k. lag k \<le> B"
      and progress: "0 < sint (wait_delay P) \<or> (\<forall>k. 0 < lag k)"
    note st = clock_in_range_start [OF range bound, folded t0_def]
    have "\<exists>y. BasicPoller_loop lag P (counted fn) (word_of_int t0) 1 (c, 0) t0 = Some y"
      using st by (intro BasicPoller_loop_returns [OF bound progress]) simp_all
    then obtain r' c' n' t' where
      y: "BasicPoller_loop lag P (counted fn) (word_of_int t0) 1 (c, 0) t0 = Some (r', (c', n'), t')"
      by auto
    from BasicPoller_loop_counts [OF this, of fn] have "1 \<le> n'" by simp
    with y show "\<exists>r c1 n t1. BasicPoller_call lag P (counted fn) (c, 0) t = Some (r, (c1, n), t1) \<and> 1 \<le> n"
      unfolding call by blast
  next
    assume "fst (fn c) = Returned True"
    then show "BasicPoller_call lag P (counted fn) (c, 0) t =
          Some (Returned True, (snd (fn c), 1), steady_clock_now lag 0 (sleep_for (initial_delay P) t))"
      by (simp add: call BasicPoller_loop_true t0_def)
  next
    assume "fst (fn c) = Returned True"
    then show "BasicPoller_loop lag P fn start_timestamp k c t = Some (Returned True, snd (fn c), t)"
      by (rule BasicPoller_loop_true)
  next
    assume T: "sint (timeout P) \<le> 0" and f: "fst (fn c) = Returned False"
      and range: "clock_in_range P B t" and bound: "\<forall>k. lag k \<le> B"
    note st = clock_in_range_start [OF range bound, folded t0_def]
    define t1' where "t1' = steady_clock_now lag 1 (sleep_for (wait_delay P) t0)"
    have t1': "t1' = t0 + max 0 (sint (wait_delay P)) * 1000 + int (lag 1)"
      by (simp add: t1'_def steady_clock_now_def sleep_for_def)
    have "int (lag 1) \<le> int B" using bound by simp
    then have "t1' < 2 ^ 63" using st(4) by (simp add: t1' max_def split: if_splits)
    moreover have "t0 \<le> t1'" by (simp add: t1')
    ultimately have s1: "sint (word_of_int t1' :: 64 word) = t1'"
      using st(1) by (intro sint_word_of_int_64) simp_all
    have "\<not> t1' < t0 + sint (timeout P) * 1000" using T \<open>t0 \<le> t1'\<close> by simp
    then have stop: "\<not> sint (word_of_int t1' :: 64 word) < sint ((word_of_int t0 :: 64 word) + timeout P * 1000)"
      unfolding s1 st(3) .
    have f': "fst (counted fn (c, 0)) = Returned False" using f by simp
    have "BasicPoller_loop lag P (counted fn) (word_of_int t0) 1 (c, 0) t0
            = Some (Returned False, snd (counted fn (c, 0)), t1')"
      using stop
      by (simp only: BasicPoller_loop_false [where fn = "counted fn" and c = "(c, 0)" and k = 1, OF f']
            t1'_def [symmetric] if_False)
    then show "BasicPoller_call lag P (counted fn) (c, 0) t =
          Some (Returned False, (snd (fn c), 1),
                steady_clock_now lag 1
                  (sleep_for (wait_delay P) (steady_clock_now lag 0 (sleep_for (initial_delay P) t))))"
      unfolding call t0_def [symmetric] t1'_def [symmetric] by simp
  next
    assume range: "clock_in_range P B t" and bound: "\<forall>k. lag k \<le> B"
      and progress: "0 < sint (wait_delay P) \<or> (\<forall>k. 0 < lag k)"
      and never: "\<forall>c. fst (fn c) = Returned False"
    note st = clock_in_range_start [OF range bound, folded t0_def]
    have low: "- (2 ^ 63) \<le> t0" using st(1) by simp
    have fits: "max t0 (sint ((word_of_int t0 :: 64 word) + timeout P * 1000))
                  + max 0 (sint (wait_delay P)) * 1000 + int B < 2 ^ 63"
      using st by simp
    from BasicPoller_always_false [where lag = lag and P = P and fn = fn and st = "word_of_int t0"
           and k = 1 and c = c and n = 0 and t = t0 and B = B, OF bound progress _ low fits] never
    obtain c2 m t1 where k: "BasicPoller_loop lag P (counted fn) (word_of_int t0) 1 (c, 0) t0 =
             Some (Returned False, (c2, 0 + m), t1)"
       "1 \<le> m"
       "sint ((word_of_int t0 :: 64 word) + timeout P * 1000) \<le> t1"
       "1 < m \<longrightarrow> t0 + (int m - 1) * (max 0 (sint (wait_delay P)) * 1000)
                     < sint ((word_of_int t0 :: 64 word) + timeout P * 1000)"
      by blast
    have a: "sleep_for (initial_delay P) t + sint (timeout P) * 1000 \<le> t1"
      using k(3) st(2,3) by simp
    have b: "1 < m \<longrightarrow> (int m - 1) * (max 0 (sint (wait_delay P)) * 1000) < sint (timeout P) * 1000"
      using k(4) st(3) by simp
    show "\<exists>c2 m t1. BasicPoller_call lag P (counted fn) (c, 0) t = Some (Returned False, (c2, m), t1)
              \<and> 1 \<le> m
              \<and> sleep_for (initial_delay P) t + sint (timeout P) * 1000 \<le> t1
              \<and> (1 < m \<longrightarrow> (int m - 1) * (max 0 (sint (wait_delay P)) * 1000) < sint (timeout P) * 1000)"
      unfolding call using k(1,2) a b by (intro exI [of _ c2] exI [of _ m] exI [of _ t1]) simp
  }
qed

text \<open>
  Witness for C8, on a clock that is 0.1 ms late at every reading.
  BasicPoller(0, 10 ms, 50 ms) on a predicate true on its third evaluation returns true
  after exactly 3 evaluations, at 20.3 ms. BasicPoller(7 us, 3 us, 0) evaluates a
  never-true predicate once and returns false, and evaluates a predicate that is true at
  once and returns true. BasicPoller(5 us, 10 ms, 50 ms) on a never-true predicate returns
  false no earlier than 50.005 ms after the call. BasicPoller(0, 0, 250 us), which does
  not sleep between evaluations, returns false on a never-true predicate after three
  evaluations, for the clock moves. With the largest timeout there is,
  \<^verbatim>\<open>std::chrono::microseconds::max()\<close>, the conversion to nanoseconds wraps and the
  deadline lies 1000 ns before the start timestamp: the poller gives up after one
  evaluation, although the predicate would be true on its third.
\<close>

theorem BasicPoller_evaluates_at_least_once_witness:
  "BasicPoller_call (\<lambda>k. 100000) \<lparr>initial_delay = 0, wait_delay = 10000, timeout = 50000\<rparr>
       (counted true_on_third) (0, 0) 0
     = Some (Returned True, (3, 3), 20300000)
   \<and> (1::nat) \<le> 3
   \<and> clock_in_range \<lparr>initial_delay = 0, wait_delay = 10000, timeout = 50000\<rparr> 100000 0
   \<and> (\<forall>k. (\<lambda>k. 100000 :: nat) k \<le> 100000)
   \<and> (0 < sint (wait_delay \<lparr>initial_delay = 0, wait_delay = 10000, timeout = 50000\<rparr>)
        \<or> (\<forall>k. 0 < (\<lambda>k. 100000 :: nat) k))
   \<and> (\<exists>r c1 n t1. BasicPoller_call (\<lambda>k. 100000) \<lparr>initial_delay = 0, wait_delay = 10000, timeout = 50000\<rparr>
                       (counted true_on_third) (0, 0) 0 = Some (r, (c1, n), t1) \<and> 1 \<le> n)
   \<and> fst (true_on_third 2) = Returned True
   \<and> BasicPoller_call (\<lambda>k. 100000) \<lparr>initial_delay = 7, wait_delay = 3, timeout = 0\<rparr>
        (counted true_on_third) (2, 0) 0
     = Some (Returned True, (3, 1), 107000)
   \<and> BasicPoller_loop (\<lambda>k. 100000) \<lparr>initial_delay = 7, wait_delay = 3, timeout = 0\<rparr>
        true_on_third 5 4 2 9 = Some (Returned True, 3, 9)
   \<and> sint (timeout \<lparr>initial_delay = 7, wait_delay = 3, timeout = 0\<rparr>) \<le> 0
   \<and> fst (never_true 0) = Returned False
   \<and> clock_in_range \<lparr>initial_delay = 7, wait_delay = 3, timeout = 0\<rparr> 100000 0
   \<and> BasicPoller_call (\<lambda>k. 100000) \<lparr>initial_delay = 7, wait_delay = 3, timeout = 0\<rparr>
        (counted never_true) (0, 0) 0
     = Some (Returned False, (1, 1), 210000)
   \<and> clock_in_range \<lparr>initial_delay = 5, wait_delay = 10000, timeout = 50000\<rparr> 100000 0
   \<and> (\<forall>c. fst (never_true c) = Returned False)
   \<and> (\<exists>c2 m t1. BasicPoller_call (\<lambda>k. 100000) \<lparr>initial_delay = 5, wait_delay = 10000, timeout = 50000\<rparr>
                 (counted never_true) (0, 0) 0
               = Some (Returned False, (c2, m), t1)
            \<and> 1 \<le> m \<and> 50005000 \<le> t1 \<and> (1 < m \<longrightarrow> (int m - 1) * 10000000 < 50000000))
   \<and> clock_in_range \<lparr>initial_delay = 0, wait_delay = 0, timeout = 250\<rparr> 100000 0
   \<and> (0 < sint (wait_delay \<lparr>initial_delay = 0, wait_delay = 0, timeout = 250\<rparr>)
        \<or> (\<forall>k. 0 < (\<lambda>k. 100000 :: nat) k))
   \<and> (\<exists>r c1 n t1. BasicPoller_call (\<lambda>k. 100000) \<lparr>initial_delay = 0, wait_delay = 0, timeout = 250\<rparr>
                       (counted never_true) (0, 0) 0 = Some (r, (c1, n), t1) \<and> 1 \<le> n)
   \<and> BasicPoller_call (\<lambda>k. 100000) \<lparr>initial_delay = 0, wait_delay = 0, timeout = 250\<rparr>
        (counted never_true) (0, 0) 0
     = Some (Returned False, (3, 3), 400000)
   \<and> BasicPoller_call (\<lambda>k. 100000)
        \<lparr>initial_delay = 0, wait_delay = 10000, timeout = 0x7FFFFFFFFFFFFFFF\<rparr>
        (counted true_on_third) (0, 0) 0
     = Some (Returned False, (1, 1), 10200000)"
proof -
  note th = BasicPoller_evaluates_at_least_once [where lag = "\<lambda>k. 100000" and B = 100000 and t = 0]
  have run: "BasicPoller_call (\<lambda>k. 100000) \<lparr>initial_delay = 0, wait_delay = 10000, timeout = 50000\<rparr>
               (counted true_on_third) (0, 0) 0 = Some (Returned True, (3, 3), 20300000)"
    by (simp add: BasicPoller_call_def Let_def BasicPoller_loop_true BasicPoller_loop_false
          true_on_third_def sleep_for_def steady_clock_now_def)
  from th [where P = "\<lparr>initial_delay = 0, wait_delay = 10000, timeout = 50000\<rparr>" and fn = true_on_third
        and c = 0 and r = "Returned True" and ?c1.0 = 3 and n = 3 and ?t1.0 = 20300000,
        THEN conjunct1] run
  have one: "(1::nat) \<le> 3" by simp
  have range1: "clock_in_range \<lparr>initial_delay = 0, wait_delay = 10000, timeout = 50000\<rparr> 100000 0"
    by (simp add: clock_in_range_def)
  have bound: "\<forall>k. (\<lambda>k. 100000 :: nat) k \<le> 100000" by simp
  have progress1: "0 < sint (wait_delay \<lparr>initial_delay = 0, wait_delay = 10000, timeout = 50000\<rparr>)
        \<or> (\<forall>k. 0 < (\<lambda>k. 100000 :: nat) k)"
    by simp
  have returns: "\<exists>r c1 n t1. BasicPoller_call (\<lambda>k. 100000) \<lparr>initial_delay = 0, wait_delay = 10000, timeout = 50000\<rparr>
                       (counted true_on_third) (0, 0) 0 = Some (r, (c1, n), t1) \<and> 1 \<le> n"
    by (rule th [where P = "\<lparr>initial_delay = 0, wait_delay = 10000, timeout = 50000\<rparr>" and fn = true_on_third
              and c = 0, THEN conjunct2, THEN conjunct1, rule_format, OF range1 bound [rule_format] progress1])
  have first: "fst (true_on_third 2) = Returned True" by (simp add: true_on_third_def)
  have imm: "BasicPoller_call (\<lambda>k. 100000) \<lparr>initial_delay = 7, wait_delay = 3, timeout = 0\<rparr>
        (counted true_on_third) (2, 0) 0
     = Some (Returned True, (3, 1), 107000)"
    using th [where P = "\<lparr>initial_delay = 7, wait_delay = 3, timeout = 0\<rparr>" and fn = true_on_third
        and c = 2, THEN conjunct2, THEN conjunct2, THEN conjunct1, rule_format, OF first]
    by (simp add: true_on_third_def sleep_for_def steady_clock_now_def)
  have inloop: "BasicPoller_loop (\<lambda>k. 100000) \<lparr>initial_delay = 7, wait_delay = 3, timeout = 0\<rparr>
        true_on_third 5 4 2 9 = Some (Returned True, 3, 9)"
    using BasicPoller_evaluates_at_least_once
            [where lag = "\<lambda>k. 100000" and P = "\<lparr>initial_delay = 7, wait_delay = 3, timeout = 0\<rparr>"
               and fn = true_on_third and c = 2 and start_timestamp = 5 and k = 4 and t = 9,
             THEN conjunct2, THEN conjunct2, THEN conjunct2, THEN conjunct1, rule_format, OF first]
    by (simp add: true_on_third_def)
  have tz: "sint (timeout \<lparr>initial_delay = 7, wait_delay = 3, timeout = 0\<rparr>) \<le> 0" by simp
  have ff: "fst (never_true 0) = Returned False" by (simp add: never_true_def)
  have range2: "clock_in_range \<lparr>initial_delay = 7, wait_delay = 3, timeout = 0\<rparr> 100000 0"
    by (simp add: clock_in_range_def)
  have zero: "BasicPoller_call (\<lambda>k. 100000) \<lparr>initial_delay = 7, wait_delay = 3, timeout = 0\<rparr>
        (counted never_true) (0, 0) 0
     = Some (Returned False, (1, 1), 210000)"
    using th [where P = "\<lparr>initial_delay = 7, wait_delay = 3, timeout = 0\<rparr>" and fn = never_true
        and c = 0, THEN conjunct2, THEN conjunct2, THEN conjunct2, THEN conjunct2, THEN conjunct1,
        rule_format, OF tz ff range2 bound [rule_format]]
    by (simp add: never_true_def sleep_for_def steady_clock_now_def)
  have range3: "clock_in_range \<lparr>initial_delay = 5, wait_delay = 10000, timeout = 50000\<rparr> 100000 0"
    by (simp add: clock_in_range_def)
  have progress3: "0 < sint (wait_delay \<lparr>initial_delay = 5, wait_delay = 10000, timeout = 50000\<rparr>)
        \<or> (\<forall>k. 0 < (\<lambda>k. 100000 :: nat) k)"
    by simp
  have never: "\<forall>c. fst (never_true c) = Returned False" by (simp add: never_true_def)
  have budget: "\<exists>c2 m t1. BasicPoller_call (\<lambda>k. 100000) \<lparr>initial_delay = 5, wait_delay = 10000, timeout = 50000\<rparr>
                 (counted never_true) (0, 0) 0
               = Some (Returned False, (c2, m), t1)
            \<and> 1 \<le> m \<and> 50005000 \<le> t1 \<and> (1 < m \<longrightarrow> (int m - 1) * 10000000 < 50000000)"
    using th [where P = "\<lparr>initial_delay = 5, wait_delay = 10000, timeout = 50000\<rparr>" and fn = never_true
        and c = 0, THEN conjunct2, THEN conjunct2, THEN conjunct2, THEN conjunct2, THEN conjunct2,
        rule_format, OF range3 bound [rule_format] progress3 never [rule_format]]
    by (simp add: sleep_for_def)
  have range4: "clock_in_range \<lparr>initial_delay = 0, wait_delay = 0, timeout = 250\<rparr> 100000 0"
    by (simp add: clock_in_range_def)
  have progress4: "0 < sint (wait_delay \<lparr>initial_delay = 0, wait_delay = 0, timeout = 250\<rparr>)
        \<or> (\<forall>k. 0 < (\<lambda>k. 100000 :: nat) k)"
    by simp
  have returns4: "\<exists>r c1 n t1. BasicPoller_call (\<lambda>k. 100000) \<lparr>initial_delay = 0, wait_delay = 0, timeout = 250\<rparr>
                       (counted never_true) (0, 0) 0 = Some (r, (c1, n), t1) \<and> 1 \<le> n"
    by (rule th [where P = "\<lparr>initial_delay = 0, wait_delay = 0, timeout = 250\<rparr>" and fn = never_true
              and c = 0, THEN conjunct2, THEN conjunct1, rule_format, OF range4 bound [rule_format] progress4])
  have run4: "BasicPoller_call (\<lambda>k. 100000) \<lparr>initial_delay = 0, wait_delay = 0, timeout = 250\<rparr>
        (counted never_true) (0, 0) 0
     = Some (Returned False, (3, 3), 400000)"
    by (simp add: BasicPoller_call_def Let_def BasicPoller_loop_true BasicPoller_loop_false
          never_true_def sleep_for_def steady_clock_now_def)
  have wraps: "BasicPoller_call (\<lambda>k. 100000)
        \<lparr>initial_delay = 0, wait_delay = 10000, timeout = 0x7FFFFFFFFFFFFFFF\<rparr>
        (counted true_on_third) (0, 0) 0
     = Some (Returned False, (1, 1), 10200000)"
    by (simp add: BasicPoller_call_def Let_def BasicPoller_loop_true BasicPoller_loop_false
          true_on_third_def sleep_for_def steady_clock_now_def)
  from run one range1 bound progress1 returns first imm inloop tz ff range2 zero range3 never budget
       range4 progress4 returns4 run4 wraps
  show ?thesis by blast
qed

subsection \<open>Pollers and the predicate of pollRead\<close>

lemma spy_read:
  "read (spy T) addr sl =
     (case read T addr (fst sl) of
        (Returned v, s1) \<Rightarrow> (Returned v, (s1, snd sl @ [ReadAccess addr (Some v)]))
      | (Thrown e, s1) \<Rightarrow> (Thrown e, (s1, snd sl @ [ReadAccess addr None]))
      | (Aborted, s1) \<Rightarrow> (Aborted, (s1, snd sl @ [ReadAccess addr None])))"
  by (simp add: spy_def)

lemma BasicPoller_loop_invariant:
  assumes ret: "BasicPoller_loop lag P fn' st k c t = Some y"
    and pres: "\<And>c. Q c \<Longrightarrow> Q (snd (fn c))"
  shows "fn' = fn \<longrightarrow> Q c \<longrightarrow> Q (fst (snd y))"
proof (rule BasicPoller_loop.raw_induct
        [where P = "\<lambda>lag self fn' st k c t y. fn' = fn \<longrightarrow> Q c \<longrightarrow> Q (fst (snd y))", OF _ ret],
       intro impI)
  fix loop' lag self fn' st k c t y
  assume IH: "\<And>lag self fn' st k c t y. loop' lag self fn' st k c t = Some y \<Longrightarrow>
                fn' = fn \<longrightarrow> Q c \<longrightarrow> Q (fst (snd y))"
    and step: "(case fn' c of
        (Returned ok, c1) \<Rightarrow>
          if ok then Some (Returned True, c1, t)
          else (let t1 = steady_clock_now lag k (sleep_for (wait_delay self) t)
                in if sint (word_of_int t1 :: time_point) < sint (st + timeout self * 1000)
                   then loop' lag self fn' st (Suc k) c1 t1
                   else Some (Returned False, c1, t1))
      | (Thrown e, c1) \<Rightarrow> Some (Thrown e, c1, t)
      | (Aborted, c1) \<Rightarrow> Some (Aborted, c1, t)) = Some y"
    and fn': "fn' = fn" and Q: "Q c"
  obtain r c1 where f: "fn c = (r, c1)" by (cases "fn c") auto
  have Q1: "Q c1" using pres [OF Q] f by simp
  show "Q (fst (snd y))"
  proof (cases r)
    case (Returned ok)
    show ?thesis
    proof (cases "ok \<or> \<not> sint (word_of_int (steady_clock_now lag k (sleep_for (wait_delay self) t)) :: time_point)
                          < sint (st + timeout self * 1000)")
      case True
      with step fn' f Returned Q1 show ?thesis by (auto simp: Let_def split: if_splits)
    next
      case False
      with step fn' f Returned
      have "loop' lag self fn st (Suc k) c1 (steady_clock_now lag k (sleep_for (wait_delay self) t)) = Some y"
        by (simp add: Let_def)
      from IH [OF this] Q1 show ?thesis by simp
    qed
  next
    case (Thrown e)
    with step fn' f Q1 show ?thesis by auto
  next
    case Aborted
    with step fn' f Q1 show ?thesis by auto
  qed
qed

lemma BasicPoller_well_behaved: "well_behaved (BasicPoller_call lag P)"
  unfolding well_behaved_def
proof (intro allI impI)
  fix Q and check :: "'a \<Rightarrow> ('b, bool) outcome \<times> 'a" and c t r c1 t1
  assume pres: "\<forall>c. Q c \<longrightarrow> Q (snd (check c))" and Q: "Q c"
    and ret: "BasicPoller_call lag P check c t = Some (r, c1, t1)"
  from ret have "BasicPoller_loop lag P check
                   (word_of_int (steady_clock_now lag 0 (sleep_for (initial_delay P) t))) 1 c
                   (steady_clock_now lag 0 (sleep_for (initial_delay P) t))
                  = Some (r, c1, t1)"
    by (simp add: BasicPoller_call_def Let_def)
  from BasicPoller_loop_invariant [OF this, of Q check] pres Q show "Q c1" by simp
qed

lemma pollRead_check_spy_reads:
  assumes "\<exists>acc. snd (snd c) = log0 @ acc \<and> list_all (is_read_of addr) acc"
  shows "\<exists>acc. snd (snd (snd (pollRead_check (spy T) addr ev msk c))) = log0 @ acc \<and> list_all (is_read_of addr) acc"
proof -
  from assms obtain acc where acc: "snd (snd c) = log0 @ acc" "list_all (is_read_of addr) acc" by blast
  obtain r s1 where rd: "read T addr (fst (snd c)) = (r, s1)" by (cases "read T addr (fst (snd c))") auto
  show ?thesis
    by (cases r)
       (auto simp: pollRead_check_def spy_read rd acc intro!: exI [of _ "acc @ [ReadAccess addr _]"])
qed

lemma pollRead_check_pure:
  assumes "\<forall>a s. snd (read T a s) = s" "snd c = s0"
  shows "snd (snd (pollRead_check T addr ev msk c)) = s0"
proof -
  obtain r s1 where rd: "read T addr (snd c) = (r, s1)" by (cases "read T addr (snd c)") auto
  with assms(1) have "s1 = snd c" by (metis snd_conv)
  with rd assms(2) show ?thesis by (cases r) (simp_all add: pollRead_check_def)
qed

subsection \<open>readVerify and pollRead only read\<close>

lemma pollRead_check_state:
  "snd (snd (pollRead_check T addr ev msk c)) = snd (read T addr (snd c))"
  by (simp add: pollRead_check_def split: prod.splits outcome.splits)

lemma SimpleDummy_read_value:
  "register_value (snd (read (SimpleDummyRegisterTarget name) addr regs)) = register_value regs"
  by (rule ext) (simp add: SimpleDummyRegisterTarget_def register_value_def split: option.splits)

lemma readVerify_state:
  "dev (snd (FluentRegisterTarget_readVerify F addr expected msk msg w)) = snd (read (target F) addr (dev w))"
  by (simp add: FluentRegisterTarget_readVerify_def readVerify_body_def wrapper_defs Let_def
        split: prod.splits outcome.splits)

lemma pollRead_state_invariant:
  assumes wb: "well_behaved poller"
    and ret: "FluentRegisterTarget_pollRead F poller addr expected msk msg w = Some (r, w1)"
    and Q: "Q (dev w)" and pres: "\<And>s. Q s \<Longrightarrow> Q (snd (read (target F) addr s))"
  shows "Q (dev w1)"
proof -
  from pollRead_SomeD [OF ret] obtain r0 c t1 where
    p: "poller (pollRead_check (target F) addr (expected AND msk) msk) (0, dev w) (now w) = Some (r0, c, t1)"
    and d: "dev w1 = snd c" by auto
  let ?Q = "\<lambda>c. Q (snd c)"
  have "?Q (0, dev w)" using Q by simp
  moreover have "\<forall>c. ?Q c \<longrightarrow> ?Q (snd (pollRead_check (target F) addr (expected AND msk) msk c))"
    using pres by (simp add: pollRead_check_state)
  ultimately have "?Q c"
    using wb [unfolded well_behaved_def, rule_format, of ?Q _ "(0, dev w)", OF _ _ p] by blast
  then show ?thesis by (simp add: d)
qed

text \<open>
  Claim C10 (amended). readVerify makes exactly one access to the target, a read of the
  given address, on every path (a spy target logs just that). pollRead's own predicate
  only reads the target: with a poller that touches the predicate's state only by calling
  the predicate, every access a spy logs during pollRead is a read of the given address, whatever the outcome
  (success, poll timeout, or an exception of the target). BasicPoller, with any timing
  parameters and any clock, is such a poller.

  So the state of the target after these operations is what the target's own reads of
  that address have made of it, on the error paths as on success: after readVerify it is
  the state one read leaves, after pollRead the state some number of reads in a row
  leave. It is the state from before on a target whose reads leave the state alone. That
  is not so for every target: the read of a SimpleDummyRegisterTarget inserts an address
  that was never written, so its stored map grows, while every register still holds the
  same value for a reader.
\<close>

theorem verify_and_poll_only_read:
  "snd (dev (snd (FluentRegisterTarget_readVerify \<lparr>interposer = b, target = spy T\<rparr> addr expected msk msg w)))
     = snd (dev w) @
       [ReadAccess addr (case fst (read T addr (fst (dev w))) of
                           Returned v \<Rightarrow> Some v | Thrown e \<Rightarrow> None | Aborted \<Rightarrow> None)]
   \<and> (well_behaved spy_poller \<longrightarrow>
        FluentRegisterTarget_pollRead \<lparr>interposer = b, target = spy T\<rparr> spy_poller addr expected msk msg w
          = Some (r, w1) \<longrightarrow>
        (\<exists>acc. snd (dev w1) = snd (dev w) @ acc \<and> list_all (is_read_of addr) acc))
   \<and> dev (snd (FluentRegisterTarget_readVerify F addr' expected' msk' msg' w'))
        = snd (read (target F) addr' (dev w'))
   \<and> (well_behaved poller \<longrightarrow>
        FluentRegisterTarget_pollRead F poller addr' expected' msk' msg' w' = Some (r', w1') \<longrightarrow>
        (\<exists>n. dev w1' = ((\<lambda>s. snd (read (target F) addr' s)) ^^ n) (dev w')))
   \<and> ((\<forall>a s. snd (read (target F) a s) = s) \<longrightarrow>
        dev (snd (FluentRegisterTarget_readVerify F addr' expected' msk' msg' w')) = dev w')
   \<and> ((\<forall>a s. snd (read (target F) a s) = s) \<longrightarrow> well_behaved poller \<longrightarrow>
        FluentRegisterTarget_pollRead F poller addr' expected' msk' msg' w' = Some (r', w1') \<longrightarrow>
        dev w1' = dev w')
   \<and> register_value
        (dev (snd (FluentRegisterTarget_readVerify \<lparr>interposer = b, target = SimpleDummyRegisterTarget name\<rparr>
                     a e m msg' v)))
        = register_value (dev v)
   \<and> (well_behaved dummy_poller \<longrightarrow>
        FluentRegisterTarget_pollRead \<lparr>interposer = b, target = SimpleDummyRegisterTarget name\<rparr>
            dummy_poller a e m msg' v = Some (r'', v1) \<longrightarrow>
        register_value (dev v1) = register_value (dev v))
   \<and> well_behaved (BasicPoller_call lag P)"
proof (intro conjI impI)
  obtain r0 s1 where rd: "read T addr (fst (dev w)) = (r0, s1)" by (cases "read T addr (fst (dev w))") auto
  show "snd (dev (snd (FluentRegisterTarget_readVerify \<lparr>interposer = b, target = spy T\<rparr> addr expected msk msg w)))
     = snd (dev w) @
       [ReadAccess addr (case fst (read T addr (fst (dev w))) of
                           Returned v \<Rightarrow> Some v | Thrown e \<Rightarrow> None | Aborted \<Rightarrow> None)]"
    by (cases r0)
       (simp_all add: FluentRegisterTarget_readVerify_def readVerify_body_def wrapper_defs spy_read rd Let_def)
next
  assume wb: "well_behaved spy_poller"
    and ret: "FluentRegisterTarget_pollRead \<lparr>interposer = b, target = spy T\<rparr> spy_poller addr expected msk msg w
          = Some (r, w1)"
  from pollRead_SomeD [OF ret] obtain r0 c t1 where
    p: "spy_poller (pollRead_check (spy T) addr (expected AND msk) msk) (0, dev w) (now w) = Some (r0, c, t1)"
    and d: "dev w1 = snd c" by auto
  let ?Q = "\<lambda>c. \<exists>acc. snd (snd c) = snd (dev w) @ acc \<and> list_all (is_read_of addr) acc"
  have "?Q (0, dev w)" by simp
  moreover have "\<forall>c. ?Q c \<longrightarrow> ?Q (snd (pollRead_check (spy T) addr (expected AND msk) msk c))"
    using pollRead_check_spy_reads by blast
  ultimately have "?Q c"
    using wb [unfolded well_behaved_def, rule_format, of ?Q _ "(0, dev w)", OF _ _ p] by blast
  then show "\<exists>acc. snd (dev w1) = snd (dev w) @ acc \<and> list_all (is_read_of addr) acc"
    by (simp add: d)
next
  show "dev (snd (FluentRegisterTarget_readVerify F addr' expected' msk' msg' w'))
        = snd (read (target F) addr' (dev w'))"
    by (rule readVerify_state)
next
  assume wb: "well_behaved poller"
    and ret: "FluentRegisterTarget_pollRead F poller addr' expected' msk' msg' w' = Some (r', w1')"
  show "\<exists>n. dev w1' = ((\<lambda>s. snd (read (target F) addr' s)) ^^ n) (dev w')"
  proof (rule pollRead_state_invariant [OF wb ret])
    show "\<exists>n. dev w' = ((\<lambda>s. snd (read (target F) addr' s)) ^^ n) (dev w')"
      by (rule exI [of _ 0]) simp
  next
    fix s
    assume "\<exists>n. s = ((\<lambda>s. snd (read (target F) addr' s)) ^^ n) (dev w')"
    then obtain n where "s = ((\<lambda>s. snd (read (target F) addr' s)) ^^ n) (dev w')" ..
    then show "\<exists>n. snd (read (target F) addr' s) = ((\<lambda>s. snd (read (target F) addr' s)) ^^ n) (dev w')"
      by (intro exI [of _ "Suc n"]) simp
  qed
next
  assume pure: "\<forall>a s. snd (read (target F) a s) = s"
  then show "dev (snd (FluentRegisterTarget_readVerify F addr' expected' msk' msg' w')) = dev w'"
    by (simp add: readVerify_state)
next
  assume pure: "\<forall>a s. snd (read (target F) a s) = s" and wb: "well_behaved poller"
    and ret: "FluentRegisterTarget_pollRead F poller addr' expected' msk' msg' w' = Some (r', w1')"
  show "dev w1' = dev w'"
    by (rule pollRead_state_invariant [OF wb ret, where Q = "\<lambda>s. s = dev w'"]) (simp_all add: pure)
next
  show "register_value
        (dev (snd (FluentRegisterTarget_readVerify \<lparr>interposer = b, target = SimpleDummyRegisterTarget name\<rparr>
                     a e m msg' v)))
        = register_value (dev v)"
    by (simp add: readVerify_state SimpleDummy_read_value)
next
  assume wb: "well_behaved dummy_poller"
    and ret: "FluentRegisterTarget_pollRead \<lparr>interposer = b, target = SimpleDummyRegisterTarget name\<rparr>
            dummy_poller a e m msg' v = Some (r'', v1)"
  show "register_value (dev v1) = register_value (dev v)"
    by (rule pollRead_state_invariant [OF wb ret, where Q = "\<lambda>s. register_value s = register_value (dev v)"])
       (simp_all add: SimpleDummy_read_value)
next
  show "well_behaved (BasicPoller_call lag P)" by (rule BasicPoller_well_behaved)
qed

text \<open>
  Witness for C10: on an echo target whose register 0x10 holds 5, readVerify and pollRead
  for the value 7 under mask 0xF both fail. With BasicPoller(0, 10 ms, 25 ms) and a clock
  that is 0.1 ms late at every reading, pollRead times out after three reads, at 30.4 ms.
  The registers are as before, and a spy has logged three reads only.
\<close>

theorem verify_and_poll_only_read_witness:
  "(\<forall>a s. snd (read (target \<lparr>interposer = False, target = echo_target\<rparr>) a s) = s)
   \<and> FluentRegisterTarget_pollRead \<lparr>interposer = False, target = echo_target\<rparr> (BasicPoller_call (\<lambda>k. 100000) \<lparr>initial_delay = 0, wait_delay = 10000, timeout = 25000\<rparr>) 0x10 7 0xF [] \<lparr>dev = (\<lambda>a :: 32 word. 5 :: 32 word), observed = ([] :: (32 word, 32 word) hook list), now = 0\<rparr>
      = Some (Thrown (PollReadTimeoutException 7 5 5),
              \<lparr>dev = (\<lambda>a. 5), observed = [], now = 30400000\<rparr>)
   \<and> dev \<lparr>dev = (\<lambda>a :: 32 word. 5 :: 32 word), observed = ([] :: (32 word, 32 word) hook list), now = 30400000\<rparr>
        = (\<lambda>a. 5)
   \<and> dev (snd (FluentRegisterTarget_readVerify \<lparr>interposer = False, target = echo_target\<rparr> 0x10 7 0xF [] \<lparr>dev = (\<lambda>a :: 32 word. 5 :: 32 word), observed = ([] :: (32 word, 32 word) hook list), now = 0\<rparr>)) = (\<lambda>a. 5)
   \<and> FluentRegisterTarget_pollRead \<lparr>interposer = False, target = spy echo_target\<rparr> (BasicPoller_call (\<lambda>k. 100000) \<lparr>initial_delay = 0, wait_delay = 10000, timeout = 25000\<rparr>) 0x10 7 0xF [] \<lparr>dev = ((\<lambda>a :: 32 word. 5 :: 32 word), []), observed = ([] :: (32 word, 32 word) hook list), now = 0\<rparr>
      = Some (Thrown (PollReadTimeoutException 7 5 5),
              \<lparr>dev = ((\<lambda>a. 5), [ReadAccess 0x10 (Some 5), ReadAccess 0x10 (Some 5), ReadAccess 0x10 (Some 5)]),
               observed = [], now = 30400000\<rparr>)
   \<and> (\<exists>acc. [ReadAccess (0x10 :: 32 word) (Some (5 :: 32 word)), ReadAccess 0x10 (Some 5),
             ReadAccess 0x10 (Some 5)] = [] @ acc
            \<and> list_all (is_read_of 0x10) acc)"
proof -
  note th = verify_and_poll_only_read
  have pure: "\<forall>a s. snd (read (target \<lparr>interposer = False, target = echo_target\<rparr>) a s) = s"
    by (simp add: echo_target_def)
  have run1: "FluentRegisterTarget_pollRead \<lparr>interposer = False, target = echo_target\<rparr> (BasicPoller_call (\<lambda>k. 100000) \<lparr>initial_delay = 0, wait_delay = 10000, timeout = 25000\<rparr>) 0x10 7 0xF [] \<lparr>dev = (\<lambda>a :: 32 word. 5 :: 32 word), observed = ([] :: (32 word, 32 word) hook list), now = 0\<rparr>
      = Some (Thrown (PollReadTimeoutException 7 5 5),
              \<lparr>dev = (\<lambda>a. 5), observed = [], now = 30400000\<rparr>)"
    by (simp add: FluentRegisterTarget_pollRead_def pollRead_body_def Let_def BasicPoller_call_def BasicPoller_loop_true BasicPoller_loop_false pollRead_check_def echo_target_def sleep_for_def steady_clock_now_def new_PollReadTimeoutException_def wrapper_defs)
  have run2: "FluentRegisterTarget_pollRead \<lparr>interposer = False, target = spy echo_target\<rparr> (BasicPoller_call (\<lambda>k. 100000) \<lparr>initial_delay = 0, wait_delay = 10000, timeout = 25000\<rparr>) 0x10 7 0xF [] \<lparr>dev = ((\<lambda>a :: 32 word. 5 :: 32 word), []), observed = ([] :: (32 word, 32 word) hook list), now = 0\<rparr>
      = Some (Thrown (PollReadTimeoutException 7 5 5),
              \<lparr>dev = ((\<lambda>a. 5), [ReadAccess 0x10 (Some 5), ReadAccess 0x10 (Some 5), ReadAccess 0x10 (Some 5)]),
               observed = [], now = 30400000\<rparr>)"
    by (simp add: FluentRegisterTarget_pollRead_def pollRead_body_def Let_def BasicPoller_call_def BasicPoller_loop_true BasicPoller_loop_false pollRead_check_def echo_target_def sleep_for_def steady_clock_now_def new_PollReadTimeoutException_def wrapper_defs spy_read)
  have wb1: "well_behaved (BasicPoller_call (\<lambda>k. 100000) \<lparr>initial_delay = 0, wait_delay = 10000, timeout = 25000\<rparr>
      :: (32 word \<times> (32 word \<Rightarrow> 32 word) \<Rightarrow> (32 word exn, bool) outcome \<times> 32 word \<times> (32 word \<Rightarrow> 32 word))
           \<Rightarrow> 32 word \<times> (32 word \<Rightarrow> 32 word) \<Rightarrow> int
           \<Rightarrow> ((32 word exn, bool) outcome \<times> (32 word \<times> (32 word \<Rightarrow> 32 word)) \<times> int) option)"
    by (rule th [THEN conjunct2, THEN conjunct2, THEN conjunct2, THEN conjunct2, THEN conjunct2,
                 THEN conjunct2, THEN conjunct2, THEN conjunct2])
  have wb2: "well_behaved (BasicPoller_call (\<lambda>k. 100000) \<lparr>initial_delay = 0, wait_delay = 10000, timeout = 25000\<rparr>
      :: (32 word \<times> (32 word \<Rightarrow> 32 word) \<times> (32 word, 32 word) access list
            \<Rightarrow> (32 word exn, bool) outcome \<times> 32 word \<times> (32 word \<Rightarrow> 32 word) \<times> (32 word, 32 word) access list)
           \<Rightarrow> 32 word \<times> (32 word \<Rightarrow> 32 word) \<times> (32 word, 32 word) access list \<Rightarrow> int
           \<Rightarrow> ((32 word exn, bool) outcome
                \<times> (32 word \<times> (32 word \<Rightarrow> 32 word) \<times> (32 word, 32 word) access list) \<times> int) option)"
    by (rule th [THEN conjunct2, THEN conjunct2, THEN conjunct2, THEN conjunct2, THEN conjunct2,
                 THEN conjunct2, THEN conjunct2, THEN conjunct2])
  have c4: "dev \<lparr>dev = (\<lambda>a :: 32 word. 5 :: 32 word), observed = ([] :: (32 word, 32 word) hook list), now = 30400000\<rparr>
        = (\<lambda>a. 5)"
    using th [THEN conjunct2, THEN conjunct2, THEN conjunct2, THEN conjunct2, THEN conjunct2, THEN conjunct1,
              rule_format, OF pure [rule_format] wb1 run1]
    by simp
  have c3: "dev (snd (FluentRegisterTarget_readVerify \<lparr>interposer = False, target = echo_target\<rparr> 0x10 7 0xF [] \<lparr>dev = (\<lambda>a :: 32 word. 5 :: 32 word), observed = ([] :: (32 word, 32 word) hook list), now = 0\<rparr>)) = (\<lambda>a. 5)"
    using th [THEN conjunct2, THEN conjunct2, THEN conjunct2, THEN conjunct2, THEN conjunct1,
              rule_format, OF pure [rule_format],
              where addr' = "0x10" and expected' = 7 and msk' = "0xF" and msg' = "[]"
                and w' = "\<lparr>dev = (\<lambda>a :: 32 word. 5 :: 32 word), observed = ([] :: (32 word, 32 word) hook list), now = 0\<rparr>"]
    by simp
  have c2: "\<exists>acc. [ReadAccess (0x10 :: 32 word) (Some (5 :: 32 word)), ReadAccess 0x10 (Some 5),
             ReadAccess 0x10 (Some 5)] = [] @ acc
            \<and> list_all (is_read_of 0x10) acc"
    using th [THEN conjunct2, THEN conjunct1, rule_format, OF wb2 run2] by simp
  from pure run1 c4 c3 run2 c2 show ?thesis by blast
qed

text \<open>
  Counterexample to C10 as written ("the target's register state is unchanged ...
  including on the error paths"), on the repository's SimpleDummyRegisterTarget with
  nothing stored yet: readVerify of address 0x10 against 7 fails with the verify-mismatch
  error, and pollRead against 7 times out; after either, the target's state is no longer
  the empty map, for the read has inserted address 0x10.
\<close>

theorem read_inserts_register_counterexample:
  "FluentRegisterTarget_readVerify \<lparr>interposer = False, target = dut\<rparr> 0x10 7 0xF []
      \<lparr>dev = Map.empty, observed = [], now = 0\<rparr>
    = (Thrown (ReadVerifyFailureException 7 0 0), \<lparr>dev = [0x10 \<mapsto> 0], observed = [], now = 0\<rparr>)
   \<and> FluentRegisterTarget_pollRead \<lparr>interposer = False, target = dut\<rparr>
        (BasicPoller_call (\<lambda>k. 100000) \<lparr>initial_delay = 0, wait_delay = 10000, timeout = 25000\<rparr>) 0x10 7 0xF []
        \<lparr>dev = Map.empty, observed = [], now = 0\<rparr>
    = Some (Thrown (PollReadTimeoutException 7 0 0), \<lparr>dev = [0x10 \<mapsto> 0], observed = [], now = 30400000\<rparr>)
   \<and> [0x10 \<mapsto> 0] \<noteq> (Map.empty :: 32 word \<rightharpoonup> 32 word)"
proof -
  have a: "FluentRegisterTarget_readVerify \<lparr>interposer = False, target = dut\<rparr> 0x10 7 0xF []
      \<lparr>dev = Map.empty, observed = [], now = 0\<rparr>
    = (Thrown (ReadVerifyFailureException 7 0 0), \<lparr>dev = [0x10 \<mapsto> 0], observed = [], now = 0\<rparr>)"
    by (simp add: FluentRegisterTarget_readVerify_def readVerify_body_def wrapper_defs Let_def dut_def
          SimpleDummyRegisterTarget_def new_ReadVerifyFailureException_def)
  have b: "FluentRegisterTarget_pollRead \<lparr>interposer = False, target = dut\<rparr>
        (BasicPoller_call (\<lambda>k. 100000) \<lparr>initial_delay = 0, wait_delay = 10000, timeout = 25000\<rparr>) 0x10 7 0xF []
        \<lparr>dev = Map.empty, observed = [], now = 0\<rparr>
    = Some (Thrown (PollReadTimeoutException 7 0 0), \<lparr>dev = [0x10 \<mapsto> 0], observed = [], now = 30400000\<rparr>)"
    by (simp add: FluentRegisterTarget_pollRead_def pollRead_body_def Let_def BasicPoller_call_def BasicPoller_loop_true BasicPoller_loop_false pollRead_check_def echo_target_def sleep_for_def steady_clock_now_def new_PollReadTimeoutException_def wrapper_defs dut_def SimpleDummyRegisterTarget_def)
  have c: "[0x10 \<mapsto> 0] \<noteq> (Map.empty :: 32 word \<rightharpoonup> 32 word)"
    by simp
  from a b c show ?thesis by blast
qed

subsection \<open>readVerify and pollRead compare under the mask\<close>

lemma pollRead_check_spy_cases:
  fixes T :: "('s, 'a::len word, 'd::len word) IRegisterTarget"
  obtains (hit) v s1 where "read T addr (fst (snd c)) = (Returned v, s1)"
      "pollRead_check (spy T) addr ev msk c =
         (Returned ((v AND msk) = ev), (v, (s1, snd (snd c) @ [ReadAccess addr (Some v)])))"
  | (fail) r s1 where "\<forall>b. r \<noteq> Returned b"
      "pollRead_check (spy T) addr ev msk c = (r, (fst c, (s1, snd (snd c) @ [ReadAccess addr None])))"
proof -
  obtain r0 s1 where rd: "read T addr (fst (snd c)) = (r0, s1)"
    by (cases "read T addr (fst (snd c))") auto
  show ?thesis
  proof (cases r0)
    case (Returned v)
    with rd show ?thesis by (intro hit [of v s1]) (simp_all add: pollRead_check_def spy_read)
  next
    case (Thrown e)
    with rd show ?thesis by (intro fail [of "Thrown e" s1]) (simp_all add: pollRead_check_def spy_read)
  next
    case Aborted
    with rd show ?thesis by (intro fail [of Aborted s1]) (simp_all add: pollRead_check_def spy_read)
  qed
qed

lemma poll_trace_now:
  "snd (snd c1) = log0 @ [ReadAccess addr v] \<Longrightarrow>
   (\<forall>x. v = Some x \<longrightarrow> r = Returned ((x AND msk) = ev) \<and> fst c1 = x) \<Longrightarrow>
   (v = None \<longrightarrow> (\<forall>b. r \<noteq> Returned b)) \<Longrightarrow>
   poll_trace addr msk ev log0 (r, c1, t)"
  unfolding poll_trace_def by (intro exI [of _ "[]"] exI [of _ v]) simp

lemma poll_trace_later:
  assumes "poll_trace addr msk ev (log0 @ [ReadAccess addr (Some v)]) y" "(v AND msk) \<noteq> ev"
  shows "poll_trace addr msk ev log0 y"
proof -
  from assms(1) obtain pre v' where
    p: "snd (snd (fst (snd y))) = (log0 @ [ReadAccess addr (Some v)]) @ pre @ [ReadAccess addr v']"
       "list_all (mismatching addr msk ev) pre"
       "\<forall>x. v' = Some x \<longrightarrow> fst y = Returned ((x AND msk) = ev) \<and> fst (fst (snd y)) = x"
       "v' = None \<longrightarrow> (\<forall>b. fst y \<noteq> Returned b)"
    unfolding poll_trace_def by blast
  show ?thesis
    unfolding poll_trace_def
    using p assms(2) by (intro exI [of _ "ReadAccess addr (Some v) # pre"] exI [of _ v']) simp
qed

lemma BasicPoller_loop_reads:
  fixes T :: "('s, 'a::len word, 'd::len word) IRegisterTarget"
  assumes ret: "BasicPoller_loop lag P fn' st k c t = Some y"
  shows "fn' = pollRead_check (spy T) addr ev msk \<longrightarrow> poll_trace addr msk ev (snd (snd c)) y"
proof (rule BasicPoller_loop.raw_induct
        [where P = "\<lambda>lag self fn' st k c t y. fn' = pollRead_check (spy T) addr ev msk
                      \<longrightarrow> poll_trace addr msk ev (snd (snd c)) y", OF _ ret],
       intro impI)
  fix loop' lag self fn' st k c t y
  assume IH: "\<And>lag self fn' st k c t y. loop' lag self fn' st k c t = Some y \<Longrightarrow>
                fn' = pollRead_check (spy T) addr ev msk \<longrightarrow> poll_trace addr msk ev (snd (snd c)) y"
    and step: "(case fn' c of
        (Returned ok, c1) \<Rightarrow>
          if ok then Some (Returned True, c1, t)
          else (let t1 = steady_clock_now lag k (sleep_for (wait_delay self) t)
                in if sint (word_of_int t1 :: time_point) < sint (st + timeout self * 1000)
                   then loop' lag self fn' st (Suc k) c1 t1
                   else Some (Returned False, c1, t1))
      | (Thrown e, c1) \<Rightarrow> Some (Thrown e, c1, t)
      | (Aborted, c1) \<Rightarrow> Some (Aborted, c1, t)) = Some y"
    and fn': "fn' = pollRead_check (spy T) addr ev msk"
  define t1 where "t1 = steady_clock_now lag k (sleep_for (wait_delay self) t)"
  show "poll_trace addr msk ev (snd (snd c)) y"
  proof (cases rule: pollRead_check_spy_cases [of T addr c ev msk])
    case (hit v s1)
    note chk = hit(2)
    show ?thesis
    proof (cases "(v AND msk) = ev")
      case True
      with step fn' chk have "y = (Returned True, (v, (s1, snd (snd c) @ [ReadAccess addr (Some v)])), t)"
        by simp
      then show ?thesis using True
        unfolding poll_trace_def by (intro exI [of _ "[]"] exI [of _ "Some v"]) simp
    next
      case False
      show ?thesis
      proof (cases "sint (word_of_int t1 :: time_point) < sint (st + timeout self * 1000)")
        case True
        with step fn' chk False
        have "loop' lag self (pollRead_check (spy T) addr ev msk) st (Suc k)
                (v, (s1, snd (snd c) @ [ReadAccess addr (Some v)])) t1 = Some y"
          by (simp add: Let_def t1_def)
        from IH [OF this] have "poll_trace addr msk ev (snd (snd c) @ [ReadAccess addr (Some v)]) y" by simp
        from poll_trace_later [OF this False] show ?thesis .
      next
        case lt: False
        with step fn' chk False
        have "y = (Returned False, (v, (s1, snd (snd c) @ [ReadAccess addr (Some v)])), t1)"
          by (simp add: Let_def t1_def)
        then show ?thesis using False
          unfolding poll_trace_def by (intro exI [of _ "[]"] exI [of _ "Some v"]) simp
      qed
    qed
  next
    case (fail r s1)
    with step fn' have "y = (r, (fst c, (s1, snd (snd c) @ [ReadAccess addr None])), t)"
      by (cases r) auto
    then show ?thesis using fail(1)
      unfolding poll_trace_def by (intro exI [of _ "[]"] exI [of _ "None"]) simp
  qed
qed

lemma pollRead_SomeI:
  assumes "poller (pollRead_check (target F) addr (expected AND msk) msk) (0, dev w) (now w) = Some (r0, c, t1)"
  shows "\<exists>w1. FluentRegisterTarget_pollRead F poller addr expected msk msg w =
           Some (case r0 of
                    Returned ok \<Rightarrow>
                      if ok then Returned ()
                      else Thrown (new_PollReadTimeoutException (expected AND msk) msk (fst c))
                  | Thrown e \<Rightarrow> Thrown e
                  | Aborted \<Rightarrow> Aborted, w1)
           \<and> dev w1 = snd c \<and> now w1 = t1"
proof -
  define u where "u = opStart F (Format ''PollRead(0x{:0{}x}, 0x{:0{}x}, 0x{:0{}x}): {}''
                        [Addr addr, Data expected, Data msk, Text msg]) w"
  have u: "dev u = dev w" "now u = now w" by (simp_all add: u_def opStart_def emit_def)
  show ?thesis
    unfolding FluentRegisterTarget_pollRead_def u_def [symmetric] pollRead_body_def Let_def u
    by (cases r0)
       (auto simp: assms lifecycle_finish_def drop_buf_def no_extra_def opEnd_def opError_def emit_def)
qed

text \<open>
  Claim C6 (amended). readVerify reads once and compares the value read with the expected
  value, both under the mask: it succeeds when they agree and raises
  ReadVerifyFailureException when they differ (an exception or abort of the read itself
  passes through). pollRead hands its poller a predicate that reads the register and
  answers whether the masked values agree; when the poller answers false, pollRead raises
  PollReadTimeoutException, and when it answers true pollRead succeeds. With BasicPoller,
  when every round of the loop takes time and the counts of the clock do not wrap,
  pollRead returns, and a spy target shows the reads it made: every read before the last
  returned a value that did not match, and the last read decides the outcome (match:
  success; mismatch: poll timeout; failed read: no success).

  What the errors carry is their \<^verbatim>\<open>what()\<close> text, and that prints three numbers: the
  expected value under the mask, the value read under the mask, and the value read in
  full. The mask is not among them, nor are the bits of the expected value outside the
  mask: two errors are the same object as soon as these three numbers agree.
\<close>

theorem verify_and_poll_compare_masked:
  fixes F :: "('s, 'a, 'd::len word) FluentRegisterTarget"
    and T :: "('t, 'b::len word, 'd word) IRegisterTarget"
    and ws :: "('t \<times> ('b word, 'd word) access list, 'b word, 'd word) world"
  shows
  "fst (FluentRegisterTarget_readVerify F addr expected msk msg w) =
     (case fst (read (target F) addr (dev w)) of
        Returned v \<Rightarrow>
          if (v AND msk) = (expected AND msk) then Returned ()
          else Thrown (new_ReadVerifyFailureException (expected AND msk) msk v)
      | Thrown e \<Rightarrow> Thrown e
      | Aborted \<Rightarrow> Aborted)
   \<and> (read (target F) addr s = (Returned v, s1) \<longrightarrow>
        pollRead_check (target F) addr (expected AND msk) msk (x, s) =
          (Returned ((v AND msk) = (expected AND msk)), (v, s1)))
   \<and> (poller (pollRead_check (target F) addr (expected AND msk) msk) (0, dev w) (now w)
          = Some (Returned ok, c, t1) \<longrightarrow>
        map_option fst (FluentRegisterTarget_pollRead F poller addr expected msk msg w) =
          Some (if ok then Returned ()
                else Thrown (new_PollReadTimeoutException (expected AND msk) msk (fst c))))
   \<and> (clock_in_range P B (now ws) \<longrightarrow> (\<forall>k. lag k \<le> B) \<longrightarrow>
        (0 < sint (wait_delay P) \<or> (\<forall>k. 0 < lag k)) \<longrightarrow>
        (\<exists>r w1 pre last.
            FluentRegisterTarget_pollRead \<lparr>interposer = i, target = spy T\<rparr> (BasicPoller_call lag P)
                addr' expected msk msg ws = Some (r, w1)
          \<and> snd (dev w1) = snd (dev ws) @ pre @ [ReadAccess addr' last]
          \<and> list_all (mismatching addr' msk (expected AND msk)) pre
          \<and> (\<forall>x. last = Some x \<longrightarrow>
                r = (if (x AND msk) = (expected AND msk) then Returned ()
                     else Thrown (new_PollReadTimeoutException (expected AND msk) msk x)))
          \<and> (last = None \<longrightarrow> r \<noteq> Returned ())))
   \<and> what (new_ReadVerifyFailureException (expected AND msk) msk v) =
        (Format ''ReadVerify mismatch! Expected:0x{:0{}x} Got:0x{:0{}x} (0x{:0{}x})''
           [Data (expected AND msk), Data (v AND msk), Data v] :: ('a, 'd word) message)
   \<and> what (new_PollReadTimeoutException (expected AND msk) msk v) =
        (Format ''PollRead timeout! Expected:0x{:0{}x} Got:0x{:0{}x} (0x{:0{}x})''
           [Data (expected AND msk), Data (v AND msk), Data v] :: ('a, 'd word) message)
   \<and> (new_PollReadTimeoutException (expected AND msk) msk v
          = new_PollReadTimeoutException (expected2 AND msk2) msk2 v2
        \<longleftrightarrow> (expected AND msk) = (expected2 AND msk2) \<and> (v AND msk) = (v2 AND msk2) \<and> v = v2)
   \<and> (new_ReadVerifyFailureException (expected AND msk) msk v
          = new_ReadVerifyFailureException (expected2 AND msk2) msk2 v2
        \<longleftrightarrow> (expected AND msk) = (expected2 AND msk2) \<and> (v AND msk) = (v2 AND msk2) \<and> v = v2)"
proof (intro conjI impI)
  show "fst (FluentRegisterTarget_readVerify F addr expected msk msg w) =
     (case fst (read (target F) addr (dev w)) of
        Returned v \<Rightarrow>
          if (v AND msk) = (expected AND msk) then Returned ()
          else Thrown (new_ReadVerifyFailureException (expected AND msk) msk v)
      | Thrown e \<Rightarrow> Thrown e
      | Aborted \<Rightarrow> Aborted)"
    by (simp add: FluentRegisterTarget_readVerify_def readVerify_body_def lifecycle_def drop_buf_def
          unit_buf_def on_target_def opStart_def emit_def Let_def split: prod.splits outcome.splits)
next
  assume "read (target F) addr s = (Returned v, s1)"
  then show "pollRead_check (target F) addr (expected AND msk) msk (x, s) =
          (Returned ((v AND msk) = (expected AND msk)), (v, s1))"
    by (simp add: pollRead_check_def)
next
  assume "poller (pollRead_check (target F) addr (expected AND msk) msk) (0, dev w) (now w)
          = Some (Returned ok, c, t1)"
  from pollRead_SomeI [where poller = poller and F = F and addr = addr and expected = expected
                          and msk = msk and w = w and msg = msg, OF this]
  show "map_option fst (FluentRegisterTarget_pollRead F poller addr expected msk msg w) =
          Some (if ok then Returned ()
                else Thrown (new_PollReadTimeoutException (expected AND msk) msk (fst c)))"
    by auto
next
  assume range: "clock_in_range P B (now ws)" and bound: "\<forall>k. lag k \<le> B"
    and progress: "0 < sint (wait_delay P) \<or> (\<forall>k. 0 < lag k)"
  let ?S = "\<lparr>interposer = i, target = spy T\<rparr>"
  let ?ev = "expected AND msk"
  define t0 where "t0 = steady_clock_now lag 0 (sleep_for (initial_delay P) (now ws))"
  note st = clock_in_range_start [OF range bound, folded t0_def]
  have "\<exists>y. BasicPoller_loop lag P (pollRead_check (spy T) addr' ?ev msk) (word_of_int t0) 1 (0, dev ws) t0
              = Some y"
    using st by (intro BasicPoller_loop_returns [OF bound progress]) simp_all
  then obtain y where
    y: "BasicPoller_loop lag P (pollRead_check (spy T) addr' ?ev msk) (word_of_int t0) 1 (0, dev ws) t0 = Some y"
    by blast
  obtain r0 c t1 where yeq: "y = (r0, c, t1)" by (cases y) auto
  from BasicPoller_loop_reads [OF y, of T addr' ?ev msk]
  have "poll_trace addr' msk ?ev (snd (dev ws)) y" by simp
  then obtain pre last where
    tr: "snd (snd c) = snd (dev ws) @ pre @ [ReadAccess addr' last]"
        "list_all (mismatching addr' msk ?ev) pre"
        "\<forall>x. last = Some x \<longrightarrow> r0 = Returned ((x AND msk) = ?ev) \<and> fst c = x"
        "last = None \<longrightarrow> (\<forall>b. r0 \<noteq> Returned b)"
    unfolding poll_trace_def yeq by auto
  have call: "BasicPoller_call lag P (pollRead_check (target ?S) addr' ?ev msk) (0, dev ws) (now ws)
                = Some (r0, c, t1)"
    using y yeq by (simp add: BasicPoller_call_def Let_def t0_def)
  from pollRead_SomeI [where poller = "BasicPoller_call lag P" and F = ?S and addr = addr'
                          and expected = expected and msk = msk and w = ws and msg = msg, OF call]
  obtain w1 where
    w1: "FluentRegisterTarget_pollRead ?S (BasicPoller_call lag P) addr' expected msk msg ws =
           Some (case r0 of
                    Returned ok \<Rightarrow>
                      if ok then Returned ()
                      else Thrown (new_PollReadTimeoutException ?ev msk (fst c))
                  | Thrown e \<Rightarrow> Thrown e
                  | Aborted \<Rightarrow> Aborted, w1)"
        "dev w1 = snd c"
    by blast
  let ?r = "case r0 of
                    Returned ok \<Rightarrow>
                      if ok then Returned ()
                      else Thrown (new_PollReadTimeoutException ?ev msk (fst c))
                  | Thrown e \<Rightarrow> Thrown e
                  | Aborted \<Rightarrow> Aborted"
  have a: "\<forall>x. last = Some x \<longrightarrow>
                ?r = (if (x AND msk) = ?ev then Returned ()
                     else Thrown (new_PollReadTimeoutException ?ev msk x))"
    using tr(3) by auto
  have b: "last = None \<longrightarrow> ?r \<noteq> Returned ()"
    using tr(4) by (cases r0) auto
  show "\<exists>r w1 pre last.
            FluentRegisterTarget_pollRead ?S (BasicPoller_call lag P) addr' expected msk msg ws = Some (r, w1)
          \<and> snd (dev w1) = snd (dev ws) @ pre @ [ReadAccess addr' last]
          \<and> list_all (mismatching addr' msk ?ev) pre
          \<and> (\<forall>x. last = Some x \<longrightarrow>
                r = (if (x AND msk) = ?ev then Returned ()
                     else Thrown (new_PollReadTimeoutException ?ev msk x)))
          \<and> (last = None \<longrightarrow> r \<noteq> Returned ())"
    using w1 tr(1,2) a b
    by (intro exI [of _ ?r] exI [of _ w1] exI [of _ pre] exI [of _ last]) simp
next
  show "what (new_ReadVerifyFailureException (expected AND msk) msk v) =
        (Format ''ReadVerify mismatch! Expected:0x{:0{}x} Got:0x{:0{}x} (0x{:0{}x})''
           [Data (expected AND msk), Data (v AND msk), Data v] :: ('a, 'd word) message)"
    by (simp add: new_ReadVerifyFailureException_def)
next
  show "what (new_PollReadTimeoutException (expected AND msk) msk v) =
        (Format ''PollRead timeout! Expected:0x{:0{}x} Got:0x{:0{}x} (0x{:0{}x})''
           [Data (expected AND msk), Data (v AND msk), Data v] :: ('a, 'd word) message)"
    by (simp add: new_PollReadTimeoutException_def)
next
  show "new_PollReadTimeoutException (expected AND msk) msk v
          = new_PollReadTimeoutException (expected2 AND msk2) msk2 v2
        \<longleftrightarrow> (expected AND msk) = (expected2 AND msk2) \<and> (v AND msk) = (v2 AND msk2) \<and> v = v2"
    by (simp add: new_PollReadTimeoutException_def)
next
  show "new_ReadVerifyFailureException (expected AND msk) msk v
          = new_ReadVerifyFailureException (expected2 AND msk2) msk2 v2
        \<longleftrightarrow> (expected AND msk) = (expected2 AND msk2) \<and> (v AND msk) = (v2 AND msk2) \<and> v = v2"
    by (simp add: new_ReadVerifyFailureException_def)
qed

text \<open>
  Witness for C6: register 0x10 of an echo target holds 5. Under mask 0xF, readVerify
  against 7 fails and against 0x15 succeeds. With BasicPoller(0, 10 ms, 25 ms) and a clock
  that is 0.1 ms late at every reading, pollRead against 7 reads three times and times
  out, its error printing 7, 5 and 5; pollRead against 0x15 succeeds after one read.
\<close>

theorem verify_and_poll_compare_masked_witness:
  "fst (FluentRegisterTarget_readVerify \<lparr>interposer = False, target = echo_target\<rparr> 0x10 7 0xF [] \<lparr>dev = (\<lambda>a :: 32 word. 5 :: 32 word), observed = ([] :: (32 word, 32 word) hook list), now = 0\<rparr>)
       = Thrown (ReadVerifyFailureException 7 5 5)
   \<and> fst (FluentRegisterTarget_readVerify \<lparr>interposer = False, target = echo_target\<rparr> 0x10 0x15 0xF [] \<lparr>dev = (\<lambda>a :: 32 word. 5 :: 32 word), observed = ([] :: (32 word, 32 word) hook list), now = 0\<rparr>)
       = Returned ()
   \<and> read (target \<lparr>interposer = False, target = echo_target\<rparr>) 0x10 (\<lambda>a. 5) = (Returned 5, (\<lambda>a. 5))
   \<and> pollRead_check (target \<lparr>interposer = False, target = echo_target\<rparr>) 0x10 (7 AND 0xF) 0xF (0, (\<lambda>a. 5))
       = (Returned False, (5, (\<lambda>a. 5)))
   \<and> BasicPoller_call (\<lambda>k. 100000) \<lparr>initial_delay = 0, wait_delay = 10000, timeout = 25000\<rparr>
         (pollRead_check (target \<lparr>interposer = False, target = echo_target\<rparr>) 0x10 (7 AND 0xF) 0xF)
         (0, dev \<lparr>dev = (\<lambda>a :: 32 word. 5 :: 32 word), observed = ([] :: (32 word, 32 word) hook list), now = 0\<rparr>) (now \<lparr>dev = (\<lambda>a :: 32 word. 5 :: 32 word), observed = ([] :: (32 word, 32 word) hook list), now = 0\<rparr>)
       = Some (Returned False, (5, (\<lambda>a. 5)), 30400000)
   \<and> map_option fst (FluentRegisterTarget_pollRead \<lparr>interposer = False, target = echo_target\<rparr>
         (BasicPoller_call (\<lambda>k. 100000) \<lparr>initial_delay = 0, wait_delay = 10000, timeout = 25000\<rparr>) 0x10 7 0xF [] \<lparr>dev = (\<lambda>a :: 32 word. 5 :: 32 word), observed = ([] :: (32 word, 32 word) hook list), now = 0\<rparr>)
       = Some (Thrown (PollReadTimeoutException 7 5 5))
   \<and> clock_in_range \<lparr>initial_delay = 0, wait_delay = 10000, timeout = 25000\<rparr> 100000 (now \<lparr>dev = ((\<lambda>a :: 32 word. 5 :: 32 word), []), observed = ([] :: (32 word, 32 word) hook list), now = 0\<rparr>)
   \<and> (\<forall>k. (\<lambda>k. 100000 :: nat) k \<le> 100000)
   \<and> (0 < sint (wait_delay \<lparr>initial_delay = 0, wait_delay = 10000, timeout = 25000\<rparr>) \<or> (\<forall>k. 0 < (\<lambda>k. 100000 :: nat) k))
   \<and> (\<exists>r w1 pre last.
          FluentRegisterTarget_pollRead \<lparr>interposer = False, target = spy echo_target\<rparr>
              (BasicPoller_call (\<lambda>k. 100000) \<lparr>initial_delay = 0, wait_delay = 10000, timeout = 25000\<rparr>) 0x10 7 0xF [] \<lparr>dev = ((\<lambda>a :: 32 word. 5 :: 32 word), []), observed = ([] :: (32 word, 32 word) hook list), now = 0\<rparr> = Some (r, w1)
        \<and> snd (dev w1) = snd (dev \<lparr>dev = ((\<lambda>a :: 32 word. 5 :: 32 word), []), observed = ([] :: (32 word, 32 word) hook list), now = 0\<rparr>) @ pre @ [ReadAccess 0x10 last]
        \<and> list_all (mismatching 0x10 0xF (7 AND 0xF)) pre
        \<and> (\<forall>x. last = Some x \<longrightarrow>
              r = (if (x AND 0xF) = (7 AND 0xF) then Returned ()
                   else Thrown (new_PollReadTimeoutException (7 AND 0xF) 0xF x)))
        \<and> (last = None \<longrightarrow> r \<noteq> Returned ()))
   \<and> FluentRegisterTarget_pollRead \<lparr>interposer = False, target = spy echo_target\<rparr>
         (BasicPoller_call (\<lambda>k. 100000) \<lparr>initial_delay = 0, wait_delay = 10000, timeout = 25000\<rparr>) 0x10 7 0xF [] \<lparr>dev = ((\<lambda>a :: 32 word. 5 :: 32 word), []), observed = ([] :: (32 word, 32 word) hook list), now = 0\<rparr>
       = Some (Thrown (PollReadTimeoutException 7 5 5),
               \<lparr>dev = ((\<lambda>a. 5), [ReadAccess 0x10 (Some 5), ReadAccess 0x10 (Some 5), ReadAccess 0x10 (Some 5)]),
                observed = [], now = 30400000\<rparr>)
   \<and> FluentRegisterTarget_pollRead \<lparr>interposer = False, target = spy echo_target\<rparr>
         (BasicPoller_call (\<lambda>k. 100000) \<lparr>initial_delay = 0, wait_delay = 10000, timeout = 25000\<rparr>) 0x10 0x15 0xF [] \<lparr>dev = ((\<lambda>a :: 32 word. 5 :: 32 word), []), observed = ([] :: (32 word, 32 word) hook list), now = 0\<rparr>
       = Some (Returned (),
               \<lparr>dev = ((\<lambda>a. 5), [ReadAccess 0x10 (Some 5)]), observed = [], now = 100000\<rparr>)"
proof -
  note th = verify_and_poll_compare_masked
    [where F = "\<lparr>interposer = False, target = echo_target\<rparr>" and addr = "0x10" and expected = 7 and msk = "0xF" and msg = "[]"
       and w = "\<lparr>dev = (\<lambda>a :: 32 word. 5 :: 32 word), observed = ([] :: (32 word, 32 word) hook list), now = 0\<rparr>"
       and s = "\<lambda>a. 5" and v = 5 and ?s1.0 = "\<lambda>a. 5" and x = 0
       and poller = "BasicPoller_call (\<lambda>k. 100000) \<lparr>initial_delay = 0, wait_delay = 10000, timeout = 25000\<rparr>"
       and ok = False and c = "(5, (\<lambda>a. 5))" and ?t1.0 = 30400000
       and P = "\<lparr>initial_delay = 0, wait_delay = 10000, timeout = 25000\<rparr>" and i = False and lag = "(\<lambda>k. 100000)" and B = 100000
       and T = echo_target and addr' = "0x10"
       and ws = "\<lparr>dev = ((\<lambda>a :: 32 word. 5 :: 32 word), []), observed = ([] :: (32 word, 32 word) hook list), now = 0\<rparr>"]
  have c1: "fst (FluentRegisterTarget_readVerify \<lparr>interposer = False, target = echo_target\<rparr> 0x10 7 0xF [] \<lparr>dev = (\<lambda>a :: 32 word. 5 :: 32 word), observed = ([] :: (32 word, 32 word) hook list), now = 0\<rparr>)
       = Thrown (ReadVerifyFailureException 7 5 5)"
    using th [THEN conjunct1] by (simp add: echo_target_def new_ReadVerifyFailureException_def)
  have c1b: "fst (FluentRegisterTarget_readVerify \<lparr>interposer = False, target = echo_target\<rparr> 0x10 0x15 0xF [] \<lparr>dev = (\<lambda>a :: 32 word. 5 :: 32 word), observed = ([] :: (32 word, 32 word) hook list), now = 0\<rparr>)
       = Returned ()"
    using verify_and_poll_compare_masked
      [where F = "\<lparr>interposer = False, target = echo_target\<rparr>" and addr = "0x10" and expected = "0x15" and msk = "0xF" and msg = "[]"
         and w = "\<lparr>dev = (\<lambda>a :: 32 word. 5 :: 32 word), observed = ([] :: (32 word, 32 word) hook list), now = 0\<rparr>", THEN conjunct1]
    by (simp add: echo_target_def)
  have rd: "read (target \<lparr>interposer = False, target = echo_target\<rparr>) 0x10 (\<lambda>a. 5) = (Returned 5, (\<lambda>a. 5))"
    by (simp add: echo_target_def)
  have pc: "pollRead_check (target \<lparr>interposer = False, target = echo_target\<rparr>) 0x10 (7 AND 0xF) 0xF (0, (\<lambda>a. 5))
       = (Returned False, (5, (\<lambda>a. 5)))"
    using th [THEN conjunct2, THEN conjunct1, rule_format, OF rd] by simp
  have run: "BasicPoller_call (\<lambda>k. 100000) \<lparr>initial_delay = 0, wait_delay = 10000, timeout = 25000\<rparr>
         (pollRead_check (target \<lparr>interposer = False, target = echo_target\<rparr>) 0x10 (7 AND 0xF) 0xF)
         (0, dev \<lparr>dev = (\<lambda>a :: 32 word. 5 :: 32 word), observed = ([] :: (32 word, 32 word) hook list), now = 0\<rparr>) (now \<lparr>dev = (\<lambda>a :: 32 word. 5 :: 32 word), observed = ([] :: (32 word, 32 word) hook list), now = 0\<rparr>)
       = Some (Returned False, (5, (\<lambda>a. 5)), 30400000)"
    by (simp add: BasicPoller_call_def Let_def BasicPoller_loop_true BasicPoller_loop_false
          pollRead_check_def echo_target_def sleep_for_def steady_clock_now_def)
  have c3: "map_option fst (FluentRegisterTarget_pollRead \<lparr>interposer = False, target = echo_target\<rparr>
         (BasicPoller_call (\<lambda>k. 100000) \<lparr>initial_delay = 0, wait_delay = 10000, timeout = 25000\<rparr>) 0x10 7 0xF [] \<lparr>dev = (\<lambda>a :: 32 word. 5 :: 32 word), observed = ([] :: (32 word, 32 word) hook list), now = 0\<rparr>)
       = Some (Thrown (PollReadTimeoutException 7 5 5))"
    using th [THEN conjunct2, THEN conjunct2, THEN conjunct1, rule_format, OF run]
    by (simp add: new_PollReadTimeoutException_def)
  have rng: "clock_in_range \<lparr>initial_delay = 0, wait_delay = 10000, timeout = 25000\<rparr> 100000 (now \<lparr>dev = ((\<lambda>a :: 32 word. 5 :: 32 word), []), observed = ([] :: (32 word, 32 word) hook list), now = 0\<rparr>)"
    by (simp add: clock_in_range_def)
  have bound: "(\<forall>k. (\<lambda>k. 100000 :: nat) k \<le> 100000)"
    by simp
  have prog: "(0 < sint (wait_delay \<lparr>initial_delay = 0, wait_delay = 10000, timeout = 25000\<rparr>) \<or> (\<forall>k. 0 < (\<lambda>k. 100000 :: nat) k))"
    by simp
  have c4: "(\<exists>r w1 pre last.
          FluentRegisterTarget_pollRead \<lparr>interposer = False, target = spy echo_target\<rparr>
              (BasicPoller_call (\<lambda>k. 100000) \<lparr>initial_delay = 0, wait_delay = 10000, timeout = 25000\<rparr>) 0x10 7 0xF [] \<lparr>dev = ((\<lambda>a :: 32 word. 5 :: 32 word), []), observed = ([] :: (32 word, 32 word) hook list), now = 0\<rparr> = Some (r, w1)
        \<and> snd (dev w1) = snd (dev \<lparr>dev = ((\<lambda>a :: 32 word. 5 :: 32 word), []), observed = ([] :: (32 word, 32 word) hook list), now = 0\<rparr>) @ pre @ [ReadAccess 0x10 last]
        \<and> list_all (mismatching 0x10 0xF (7 AND 0xF)) pre
        \<and> (\<forall>x. last = Some x \<longrightarrow>
              r = (if (x AND 0xF) = (7 AND 0xF) then Returned ()
                   else Thrown (new_PollReadTimeoutException (7 AND 0xF) 0xF x)))
        \<and> (last = None \<longrightarrow> r \<noteq> Returned ()))"
    by (rule th [THEN conjunct2, THEN conjunct2, THEN conjunct2, THEN conjunct1, rule_format,
                 OF rng bound [rule_format] prog])
  have run2: "FluentRegisterTarget_pollRead \<lparr>interposer = False, target = spy echo_target\<rparr>
         (BasicPoller_call (\<lambda>k. 100000) \<lparr>initial_delay = 0, wait_delay = 10000, timeout = 25000\<rparr>) 0x10 7 0xF [] \<lparr>dev = ((\<lambda>a :: 32 word. 5 :: 32 word), []), observed = ([] :: (32 word, 32 word) hook list), now = 0\<rparr>
       = Some (Thrown (PollReadTimeoutException 7 5 5),
               \<lparr>dev = ((\<lambda>a. 5), [ReadAccess 0x10 (Some 5), ReadAccess 0x10 (Some 5), ReadAccess 0x10 (Some 5)]),
                observed = [], now = 30400000\<rparr>)"
    by (simp add: FluentRegisterTarget_pollRead_def pollRead_body_def Let_def BasicPoller_call_def BasicPoller_loop_true BasicPoller_loop_false pollRead_check_def echo_target_def sleep_for_def steady_clock_now_def new_PollReadTimeoutException_def wrapper_defs spy_read)
  have run3: "FluentRegisterTarget_pollRead \<lparr>interposer = False, target = spy echo_target\<rparr>
         (BasicPoller_call (\<lambda>k. 100000) \<lparr>initial_delay = 0, wait_delay = 10000, timeout = 25000\<rparr>) 0x10 0x15 0xF [] \<lparr>dev = ((\<lambda>a :: 32 word. 5 :: 32 word), []), observed = ([] :: (32 word, 32 word) hook list), now = 0\<rparr>
       = Some (Returned (),
               \<lparr>dev = ((\<lambda>a. 5), [ReadAccess 0x10 (Some 5)]), observed = [], now = 100000\<rparr>)"
    by (simp add: FluentRegisterTarget_pollRead_def pollRead_body_def Let_def BasicPoller_call_def BasicPoller_loop_true BasicPoller_loop_false pollRead_check_def echo_target_def sleep_for_def steady_clock_now_def new_PollReadTimeoutException_def wrapper_defs spy_read)
  from c1 c1b rd pc run c3 rng bound prog c4 run2 run3 show ?thesis by blast
qed

text \<open>
  Counterexample to C6 as written ("a poll-timeout error carrying expected, mask, and the
  last observed value"): register 0x10 holds 5. The polls for 7 under mask 0xF, for 7
  under mask 0x7 and for 0x17 under mask 0xF all time out with one and the same error:
  neither the mask nor the expected value that was asked for can be read off it.
\<close>

theorem poll_timeout_error_lacks_mask_counterexample:
  "FluentRegisterTarget_pollRead \<lparr>interposer = False, target = echo_target\<rparr> (BasicPoller_call (\<lambda>k. 100000) \<lparr>initial_delay = 0, wait_delay = 10000, timeout = 25000\<rparr>) 0x10 7 0xF [] \<lparr>dev = (\<lambda>a :: 32 word. 5 :: 32 word), observed = ([] :: (32 word, 32 word) hook list), now = 0\<rparr>
     = Some (Thrown (PollReadTimeoutException 7 5 5), \<lparr>dev = (\<lambda>a. 5), observed = [], now = 30400000\<rparr>)
   \<and> FluentRegisterTarget_pollRead \<lparr>interposer = False, target = echo_target\<rparr> (BasicPoller_call (\<lambda>k. 100000) \<lparr>initial_delay = 0, wait_delay = 10000, timeout = 25000\<rparr>) 0x10 7 0x7 [] \<lparr>dev = (\<lambda>a :: 32 word. 5 :: 32 word), observed = ([] :: (32 word, 32 word) hook list), now = 0\<rparr>
     = Some (Thrown (PollReadTimeoutException 7 5 5), \<lparr>dev = (\<lambda>a. 5), observed = [], now = 30400000\<rparr>)
   \<and> FluentRegisterTarget_pollRead \<lparr>interposer = False, target = echo_target\<rparr> (BasicPoller_call (\<lambda>k. 100000) \<lparr>initial_delay = 0, wait_delay = 10000, timeout = 25000\<rparr>) 0x10 0x17 0xF [] \<lparr>dev = (\<lambda>a :: 32 word. 5 :: 32 word), observed = ([] :: (32 word, 32 word) hook list), now = 0\<rparr>
     = Some (Thrown (PollReadTimeoutException 7 5 5), \<lparr>dev = (\<lambda>a. 5), observed = [], now = 30400000\<rparr>)
   \<and> (0xF :: 32 word) \<noteq> 0x7 \<and> (7 :: 32 word) \<noteq> 0x17
   \<and> what (PollReadTimeoutException 7 5 (5 :: 32 word)) =
        (Format ''PollRead timeout! Expected:0x{:0{}x} Got:0x{:0{}x} (0x{:0{}x})''
           [Data 7, Data 5, Data 5] :: (32 word, 32 word) message)"
  by (simp add: FluentRegisterTarget_pollRead_def pollRead_body_def Let_def BasicPoller_call_def BasicPoller_loop_true BasicPoller_loop_false pollRead_check_def echo_target_def sleep_for_def steady_clock_now_def new_PollReadTimeoutException_def wrapper_defs)

end
